(* ===== verification/Prelude.thy ===== *)
theory Prelude
  imports Main "HOL-Library.Word" "HOL-Library.Sublist"
begin

text \<open>
  Shared vocabulary of the development.

  \<^item> \<open>byte\<close>, \<open>bytes\<close>: Rust's \<open>u8\<close> and \<open>Vec<u8>\<close>.
  \<^item> The state-and-error monad \<open>se\<close>: a Rust function that mutates state and returns
    \<open>Result<T, E>\<close> is a function from the state to the result together with the
    state it leaves behind. The state survives an error, because a Rust
    \<open>?\<close> does not roll anything back.
  \<^item> \<open>keeps R m\<close>: every run of \<open>m\<close>, successful or not, relates the states before
    and after by \<open>R\<close>. The locale \<open>state_preorder\<close> gives the composition rules once
    for every reflexive and transitive \<open>R\<close>.
  \<^item> \<open>triple P m Q E\<close>: a Hoare triple with one postcondition for \<open>Ok\<close> and one for
    \<open>Err\<close>.
  \<^item> The locale \<open>hash_chain\<close>: logs whose entries commit to the hash of their
    predecessor.
\<close>

type_synonym byte = "8 word"
type_synonym bytes = "byte list"

section \<open>Machine integers\<close>

text \<open>Release builds wrap: \<open>i128\<close> reads an integer as a two's complement 128-bit value.\<close>

definition i128 :: "int \<Rightarrow> int" where
  "i128 x = (x + 2 ^ 127) mod 2 ^ 128 - 2 ^ 127"

definition in_i128 :: "int \<Rightarrow> bool" where
  "in_i128 x \<longleftrightarrow> - (2 ^ 127) \<le> x \<and> x < 2 ^ 127"

lemma i128_id [simp]: "in_i128 x \<Longrightarrow> i128 x = x"
  by (simp add: i128_def in_i128_def)

lemma in_i128_i128 [simp]: "in_i128 (i128 x)"
proof -
  have "0 \<le> (x + 2 ^ 127) mod 2 ^ 128" "(x + 2 ^ 127) mod 2 ^ 128 < (2 :: int) ^ 128"
    by (rule pos_mod_sign, simp) (rule pos_mod_bound, simp)
  then show ?thesis by (simp add: i128_def in_i128_def)
qed

lemma in_i128_0 [simp]: "in_i128 0"
  by (simp add: in_i128_def)

lemma i128_idem: "i128 (i128 x) = i128 x"
  by simp

lemma i128_mod_eq: "i128 x mod 2 ^ 128 = x mod 2 ^ 128"
  by (simp add: i128_def mod_diff_left_eq)

lemma i128_cong:
  assumes "x mod 2 ^ 128 = y mod 2 ^ 128"
  shows "i128 x = i128 y"
proof -
  have "(x + 2 ^ 127) mod 2 ^ 128 = (y + 2 ^ 127) mod 2 ^ 128"
    by (rule mod_add_cong [OF assms refl])
  then show ?thesis by (simp only: i128_def)
qed

lemma i128_add_left: "i128 (i128 x + y) = i128 (x + y)"
  by (rule i128_cong, rule mod_add_cong [OF i128_mod_eq refl])

lemma i128_add_right: "i128 (x + i128 y) = i128 (x + y)"
  by (rule i128_cong, rule mod_add_cong [OF refl i128_mod_eq])

lemma i128_minus: "i128 (- i128 x) = i128 (- x)"
proof (rule i128_cong)
  show "- i128 x mod 2 ^ 128 = - x mod 2 ^ 128"
    using mod_minus_eq [of "i128 x" "2 ^ 128"] mod_minus_eq [of x "2 ^ 128"]
    by (simp only: i128_mod_eq)
qed

text \<open>\<open>i64\<close>: \<open>as i64\<close> and wrapping 64-bit arithmetic.\<close>

definition i64 :: "int \<Rightarrow> int" where
  "i64 x = (x + 2 ^ 63) mod 2 ^ 64 - 2 ^ 63"

lemma i64_id: "- (2 ^ 63) \<le> x \<Longrightarrow> x < 2 ^ 63 \<Longrightarrow> i64 x = x"
  by (simp add: i64_def)

definition u64_max :: nat where
  "u64_max = 2 ^ 64 - 1"

definition sat_add_u64 :: "nat \<Rightarrow> nat \<Rightarrow> nat" where
  "sat_add_u64 a b = min u64_max (a + b)"

definition sat_mul_u64 :: "nat \<Rightarrow> nat \<Rightarrow> nat" where
  "sat_mul_u64 a b = min u64_max (a * b)"

definition sat_pow_u64 :: "nat \<Rightarrow> nat \<Rightarrow> nat" where
  "sat_pow_u64 a k = min u64_max (a ^ k)"

text \<open>\<open>as u64\<close> keeps the low 64 bits.\<close>

definition as_u64 :: "int \<Rightarrow> nat" where
  "as_u64 x = nat (x mod 2 ^ 64)"

lemma as_u64_id: "0 \<le> x \<Longrightarrow> x < 2 ^ 64 \<Longrightarrow> as_u64 x = nat x"
  by (simp add: as_u64_def)

lemma as_u64_le: "as_u64 x \<le> u64_max"
proof -
  have "x mod 2 ^ 64 < 2 ^ 64" by (rule pos_mod_bound) simp
  then show ?thesis by (simp add: as_u64_def u64_max_def)
qed

text \<open>Rust's integer division truncates towards zero.\<close>

definition tdiv :: "int \<Rightarrow> int \<Rightarrow> int" where
  "tdiv a b = sgn a * sgn b * (\<bar>a\<bar> div \<bar>b\<bar>)"

lemma tdiv_nonneg: "0 \<le> a \<Longrightarrow> 0 < b \<Longrightarrow> tdiv a b = a div b"
  by (cases "a = 0") (simp_all add: tdiv_def sgn_if)

section \<open>The state-and-error monad\<close>

type_synonym ('s, 'e, 'a) se = "'s \<Rightarrow> ('e + 'a) \<times> 's"

definition ret :: "'a \<Rightarrow> ('s, 'e, 'a) se" where
  "ret x = (\<lambda>s. (Inr x, s))"

definition throw :: "'e \<Rightarrow> ('s, 'e, 'a) se" where
  "throw e = (\<lambda>s. (Inl e, s))"

definition bnd :: "('s, 'e, 'a) se \<Rightarrow> ('a \<Rightarrow> ('s, 'e, 'b) se) \<Rightarrow> ('s, 'e, 'b) se" where
  "bnd m f = (\<lambda>s. case m s of (Inl e, s') \<Rightarrow> (Inl e, s') | (Inr x, s') \<Rightarrow> f x s')"

definition seqM :: "('s, 'e, 'a) se \<Rightarrow> ('s, 'e, 'b) se \<Rightarrow> ('s, 'e, 'b) se" where
  "seqM m n = bnd m (\<lambda>_. n)"

definition gets :: "('s \<Rightarrow> 'a) \<Rightarrow> ('s, 'e, 'a) se" where
  "gets f = (\<lambda>s. (Inr (f s), s))"

definition modify :: "('s \<Rightarrow> 's) \<Rightarrow> ('s, 'e, unit) se" where
  "modify f = (\<lambda>s. (Inr (), f s))"

text \<open>A pure \<open>Result\<close> inside a stateful function.\<close>

definition lift :: "'e + 'a \<Rightarrow> ('s, 'e, 'a) se" where
  "lift r = (\<lambda>s. (r, s))"

text \<open>\<open>map_err\<close> is \<open>Result::map_err\<close>; \<open>attempt\<close> is \<open>match m { Ok .. Err .. }\<close>.\<close>

definition map_err :: "('e \<Rightarrow> 'f) \<Rightarrow> ('s, 'e, 'a) se \<Rightarrow> ('s, 'f, 'a) se" where
  "map_err h m = (\<lambda>s. case m s of (Inl e, s') \<Rightarrow> (Inl (h e), s') | (Inr x, s') \<Rightarrow> (Inr x, s'))"

definition attempt :: "('s, 'e, 'a) se \<Rightarrow> ('s, 'f, 'e + 'a) se" where
  "attempt m = (\<lambda>s. case m s of (r, s') \<Rightarrow> (Inr r, s'))"

definition ensure :: "bool \<Rightarrow> 'e \<Rightarrow> ('s, 'e, unit) se" where
  "ensure b e = (if b then ret () else throw e)"

text \<open>\<open>for x in xs { acc = f(acc, x)?; }\<close>\<close>

fun foldM :: "('b \<Rightarrow> 'a \<Rightarrow> ('s, 'e, 'b) se) \<Rightarrow> 'b \<Rightarrow> 'a list \<Rightarrow> ('s, 'e, 'b) se" where
  "foldM f acc [] = ret acc"
| "foldM f acc (x # xs) = bnd (f acc x) (\<lambda>acc'. foldM f acc' xs)"

lemmas se_defs = ret_def throw_def bnd_def seqM_def gets_def modify_def lift_def
  map_err_def attempt_def ensure_def

lemma bnd_ret [simp]: "bnd (ret x) f = f x"
  by (simp add: se_defs)

lemma bnd_throw [simp]: "bnd (throw e) f = throw e"
  by (simp add: se_defs)

lemma bnd_assoc: "bnd (bnd m f) g = bnd m (\<lambda>x. bnd (f x) g)"
  by (rule ext) (auto simp: bnd_def split: prod.splits sum.splits)

lemma bnd_Inr: "bnd m f s = (Inr y, t) \<longleftrightarrow> (\<exists>x u. m s = (Inr x, u) \<and> f x u = (Inr y, t))"
  by (auto simp: bnd_def split: prod.splits sum.splits)

lemma bnd_Inl: "bnd m f s = (Inl e, t) \<longleftrightarrow>
    m s = (Inl e, t) \<or> (\<exists>x u. m s = (Inr x, u) \<and> f x u = (Inl e, t))"
  by (auto simp: bnd_def split: prod.splits sum.splits)

lemma seqM_Inr: "seqM m n s = (Inr y, t) \<longleftrightarrow> (\<exists>x u. m s = (Inr x, u) \<and> n u = (Inr y, t))"
  by (simp add: seqM_def bnd_Inr)

lemma ret_Inr: "ret x s = (r, t) \<longleftrightarrow> r = Inr x \<and> t = s"
  by (auto simp: ret_def)

lemma throw_Inl: "throw e s = (r, t) \<longleftrightarrow> r = Inl e \<and> t = s"
  by (auto simp: throw_def)

lemma gets_Inr: "gets f s = (r, t) \<longleftrightarrow> r = Inr (f s) \<and> t = s"
  by (auto simp: gets_def)

lemma modify_Inr: "modify f s = (r, t) \<longleftrightarrow> r = Inr () \<and> t = f s"
  by (auto simp: modify_def)

lemma lift_eq: "lift r s = (r', t) \<longleftrightarrow> r' = r \<and> t = s"
  by (auto simp: lift_def)

lemma ensure_Inr: "ensure b e s = (Inr x, t) \<longleftrightarrow> b \<and> t = s"
  by (auto simp: ensure_def ret_def throw_def)

lemma map_err_Inr: "map_err h m s = (Inr x, t) \<longleftrightarrow> m s = (Inr x, t)"
  by (auto simp: map_err_def split: prod.splits sum.splits)

lemma attempt_eq: "attempt m s = (r, t) \<longleftrightarrow> (\<exists>q. r = Inr q \<and> m s = (q, t))"
  by (auto simp: attempt_def split: prod.splits)

lemmas se_Inr = bnd_Inr seqM_Inr ret_Inr throw_Inl gets_Inr modify_Inr lift_eq ensure_Inr
  map_err_Inr attempt_eq

section \<open>Relations kept by every run\<close>

named_theorems keeps_rules \<open>composition rules for \<open>keeps\<close>\<close>

definition keeps :: "('s \<Rightarrow> 's \<Rightarrow> bool) \<Rightarrow> ('s, 'e, 'a) se \<Rightarrow> bool" where
  "keeps R m \<longleftrightarrow> (\<forall>s. R s (snd (m s)))"

lemma keepsD: "keeps R m \<Longrightarrow> m s = (r, t) \<Longrightarrow> R s t"
  unfolding keeps_def by (metis snd_conv)

lemma keepsI: "(\<And>s r t. m s = (r, t) \<Longrightarrow> R s t) \<Longrightarrow> keeps R m"
  unfolding keeps_def by (metis prod.collapse)

lemma keeps_mono: "keeps R m \<Longrightarrow> (\<And>s t. R s t \<Longrightarrow> S s t) \<Longrightarrow> keeps S m"
  unfolding keeps_def by blast

lemma keeps_if [keeps_rules]: "keeps R m \<Longrightarrow> keeps R n \<Longrightarrow> keeps R (if b then m else n)"
  by simp

lemma keeps_option [keeps_rules]:
  "keeps R m \<Longrightarrow> (\<And>x. keeps R (f x)) \<Longrightarrow> keeps R (case z of None \<Rightarrow> m | Some x \<Rightarrow> f x)"
  by (cases z) auto

lemma keeps_sum [keeps_rules]:
  "(\<And>e. keeps R (f e)) \<Longrightarrow> (\<And>x. keeps R (g x)) \<Longrightarrow> keeps R (case z of Inl e \<Rightarrow> f e | Inr x \<Rightarrow> g x)"
  by (cases z) auto

lemma keeps_prod [keeps_rules]: "(\<And>x y. keeps R (f x y)) \<Longrightarrow> keeps R (case z of (x, y) \<Rightarrow> f x y)"
  by (cases z) auto

lemma keeps_let [keeps_rules]: "(\<And>x. keeps R (f x)) \<Longrightarrow> keeps R (let x = v in f x)"
  by simp

lemma keeps_map_err [keeps_rules]: "keeps R m \<Longrightarrow> keeps R (map_err h m)"
  unfolding keeps_def map_err_def by (auto split: prod.splits sum.splits) (metis snd_conv)+

lemma keeps_attempt [keeps_rules]: "keeps R m \<Longrightarrow> keeps R (attempt m)"
  unfolding keeps_def attempt_def by (auto split: prod.splits) (metis snd_conv)

lemma keeps_modify: "(\<And>s. R s (f s)) \<Longrightarrow> keeps R (modify f)"
  by (simp add: keeps_def modify_def)

locale state_preorder =
  fixes R :: "'s \<Rightarrow> 's \<Rightarrow> bool"
  assumes rel_refl: "R s s"
    and rel_trans: "R s t \<Longrightarrow> R t u \<Longrightarrow> R s u"
begin

lemma ret_ok [keeps_rules]: "keeps R (ret x)"
  by (simp add: keeps_def ret_def rel_refl)

lemma throw_ok [keeps_rules]: "keeps R (throw e)"
  by (simp add: keeps_def throw_def rel_refl)

lemma gets_ok [keeps_rules]: "keeps R (gets f)"
  by (simp add: keeps_def gets_def rel_refl)

lemma lift_ok [keeps_rules]: "keeps R (lift r)"
  by (simp add: keeps_def lift_def rel_refl)

lemma ensure_ok [keeps_rules]: "keeps R (ensure b e)"
  by (simp add: ensure_def ret_ok throw_ok)

lemma bnd_ok [keeps_rules]:
  assumes "keeps R m" and "\<And>x. keeps R (f x)"
  shows "keeps R (bnd m f)"
proof (rule keepsI)
  fix s r t
  assume run: "bnd m f s = (r, t)"
  obtain q u where mid: "m s = (q, u)" by (cases "m s")
  with assms(1) have "R s u" by (blast dest: keepsD)
  moreover have "R u t"
    using run mid assms(2) by (cases q) (auto simp: bnd_def rel_refl dest: keepsD)
  ultimately show "R s t" by (rule rel_trans)
qed

lemma seqM_ok [keeps_rules]: "keeps R m \<Longrightarrow> keeps R n \<Longrightarrow> keeps R (seqM m n)"
  by (simp add: seqM_def bnd_ok)

lemma foldM_ok [keeps_rules]: "(\<And>a x. keeps R (f a x)) \<Longrightarrow> keeps R (foldM f acc xs)"
  by (induction xs arbitrary: acc) (auto intro: bnd_ok ret_ok)

end

text \<open>Preservation of an invariant is such a relation, and so is extending a log.\<close>

interpretation inv_rel: state_preorder "\<lambda>s t. I s \<longrightarrow> I t" for I
  by unfold_locales auto

interpretation ext_rel: state_preorder "\<lambda>s t. prefix (f s) (f t)" for f
  by unfold_locales (auto intro: prefix_order.order_trans)

interpretation same_rel: state_preorder "\<lambda>s t. f t = f s" for f
  by unfold_locales auto

section \<open>Triples\<close>

definition triple ::
  "('s \<Rightarrow> bool) \<Rightarrow> ('s, 'e, 'a) se \<Rightarrow> ('a \<Rightarrow> 's \<Rightarrow> bool) \<Rightarrow> ('e \<Rightarrow> 's \<Rightarrow> bool) \<Rightarrow> bool" where
  "triple P m Q E \<longleftrightarrow> (\<forall>s. P s \<longrightarrow> (case m s of (Inr x, t) \<Rightarrow> Q x t | (Inl e, t) \<Rightarrow> E e t))"

lemma tripleI:
  "(\<And>s x t. P s \<Longrightarrow> m s = (Inr x, t) \<Longrightarrow> Q x t) \<Longrightarrow>
   (\<And>s e t. P s \<Longrightarrow> m s = (Inl e, t) \<Longrightarrow> E e t) \<Longrightarrow> triple P m Q E"
  by (auto simp: triple_def split: prod.splits sum.splits)

lemma triple_Inr: "triple P m Q E \<Longrightarrow> P s \<Longrightarrow> m s = (Inr x, t) \<Longrightarrow> Q x t"
  by (force simp: triple_def)

lemma triple_Inl: "triple P m Q E \<Longrightarrow> P s \<Longrightarrow> m s = (Inl e, t) \<Longrightarrow> E e t"
  by (force simp: triple_def)

lemma triple_bnd:
  assumes "triple P m B E" and "\<And>x. triple (B x) (f x) Q E"
  shows "triple P (bnd m f) Q E"
proof (rule tripleI)
  fix s x t
  assume "P s" "bnd m f s = (Inr x, t)"
  then show "Q x t"
    using assms by (auto simp: bnd_Inr dest: triple_Inr)
next
  fix s e t
  assume "P s" "bnd m f s = (Inl e, t)"
  then show "E e t"
    using assms by (auto simp: bnd_Inl dest: triple_Inr triple_Inl)
qed

section \<open>Hash-chained logs\<close>

text \<open>
  A chained log stores in every entry the hash of the entry before it. \<open>pre\<close> is the
  hashed content of an entry, \<open>link\<close> the stored back pointer, and the content
  determines the back pointer (every implementation hashes it along).
\<close>

fun chain_from :: "('a \<Rightarrow> bytes) \<Rightarrow> ('a \<Rightarrow> bytes) \<Rightarrow> bytes \<Rightarrow> 'a list \<Rightarrow> bool" where
  "chain_from h link prev [] \<longleftrightarrow> True"
| "chain_from h link prev (x # xs) \<longleftrightarrow> link x = prev \<and> chain_from h link (h x) xs"

fun chain_head :: "('a \<Rightarrow> bytes) \<Rightarrow> bytes \<Rightarrow> 'a list \<Rightarrow> bytes" where
  "chain_head h prev [] = prev"
| "chain_head h prev (x # xs) = chain_head h (h x) xs"

lemma chain_head_snoc [simp]: "chain_head h prev (xs @ [x]) = h x"
  by (induction xs arbitrary: prev) auto

lemma chain_head_append:
  "chain_head h prev (xs @ ys) = chain_head h (chain_head h prev xs) ys"
  by (induction xs arbitrary: prev) auto

lemma chain_from_append:
  "chain_from h link prev (xs @ ys) \<longleftrightarrow>
     chain_from h link prev xs \<and> chain_from h link (chain_head h prev xs) ys"
  by (induction xs arbitrary: prev) auto

lemma chain_head_last: "xs \<noteq> [] \<Longrightarrow> chain_head h prev xs = h (last xs)"
  by (induction xs rule: rev_induct) auto

text \<open>Two entries that show a collision: different hashed content, one hash.\<close>

definition clash :: "('p \<Rightarrow> bytes) \<Rightarrow> ('a \<Rightarrow> 'p) \<Rightarrow> 'a list \<Rightarrow> 'a list \<Rightarrow> bool" where
  "clash H pre xs ys \<longleftrightarrow> (\<exists>x \<in> set xs. \<exists>y \<in> set ys. pre x \<noteq> pre y \<and> H (pre x) = H (pre y))"

lemma clash_append: "clash H pre xs ys \<Longrightarrow> clash H pre (xs @ xs') (ys @ ys')"
  by (auto simp: clash_def)

locale hash_chain =
  fixes H :: "'p \<Rightarrow> bytes"
    and pre :: "'a \<Rightarrow> 'p"
    and link :: "'a \<Rightarrow> bytes"
    and wf :: "'a \<Rightarrow> bool"
  assumes link_in_pre: "wf x \<Longrightarrow> wf y \<Longrightarrow> pre x = pre y \<Longrightarrow> link x = link y"
begin

text \<open>
  Two chained logs of the same length with the same head agree entry by entry on the
  hashed fields, unless they themselves exhibit two different contents with one hash.
\<close>

lemma same_head_same_log:
  assumes "length xs = length ys"
    and "\<forall>x \<in> set xs. wf x" and "\<forall>y \<in> set ys. wf y"
    and "chain_from (\<lambda>x. H (pre x)) link g xs" and "chain_from (\<lambda>x. H (pre x)) link g ys"
    and "chain_head (\<lambda>x. H (pre x)) g xs = chain_head (\<lambda>x. H (pre x)) g ys"
  shows "map pre xs = map pre ys \<or> clash H pre xs ys"
  using assms
proof (induction xs ys rule: rev_induct2)
  case (4 x xs y ys)
  show ?case
  proof (cases "pre x = pre y")
    case False
    with 4 show ?thesis by (auto simp: clash_def)
  next
    case True
    with 4 have "link x = link y"
      by (simp add: link_in_pre)
    moreover from 4 have "link x = chain_head (\<lambda>x. H (pre x)) g xs"
      "link y = chain_head (\<lambda>x. H (pre x)) g ys"
      by (auto simp: chain_from_append)
    ultimately have "map pre xs = map pre ys \<or> clash H pre xs ys"
      using 4 by (simp add: chain_from_append)
    with True show ?thesis by (auto dest: clash_append)
  qed
qed simp_all

end

section \<open>Lists\<close>

definition find_last :: "('a \<Rightarrow> bool) \<Rightarrow> 'a list \<Rightarrow> 'a option" where
  "find_last p xs = List.find p (rev xs)"

lemma find_append: "List.find p (xs @ ys) = (case List.find p xs of None \<Rightarrow> List.find p ys | Some x \<Rightarrow> Some x)"
  by (induction xs) auto

lemma find_SomeD: "List.find p xs = Some x \<Longrightarrow> x \<in> set xs \<and> p x"
  by (induction xs) (auto split: if_splits)

lemma find_last_Nil [simp]: "find_last p [] = None"
  by (simp add: find_last_def)

lemma find_last_snoc [simp]:
  "find_last p (xs @ [x]) = (if p x then Some x else find_last p xs)"
  by (simp add: find_last_def)

lemma find_last_append:
  "find_last p (xs @ ys) = (case find_last p ys of None \<Rightarrow> find_last p xs | Some y \<Rightarrow> Some y)"
  by (simp add: find_last_def find_append split: option.splits)

lemma find_last_Some: "find_last p xs = Some x \<Longrightarrow> x \<in> set xs \<and> p x"
  by (induction xs rule: rev_induct) (auto split: if_splits)

lemma find_last_None: "find_last p xs = None \<longleftrightarrow> (\<forall>x \<in> set xs. \<not> p x)"
  by (induction xs rule: rev_induct) auto

end
