(* ===== verification/RustText.thy ===== *)
theory RustText
  imports Prelude
begin

text \<open>
  The parts of Rust's \<open>str\<close> and formatting library that the sources use. A \<open>String\<close> is
  its list of UTF-8 bytes, as Isabelle characters. \<open>trim\<close> and \<open>split_whitespace\<close>
  recognise the Unicode \<open>White_Space\<close> characters in their UTF-8 encoding.
\<close>

section \<open>Bytes and prefixes\<close>

definition str_bytes :: "string \<Rightarrow> bytes" where
  "str_bytes s = map (\<lambda>c. word_of_nat (of_char c)) s"

definition strip_prefix :: "string \<Rightarrow> string \<Rightarrow> string option" where
  "strip_prefix p s = (if take (length p) s = p then Some (drop (length p) s) else None)"

definition strip_suffix :: "string \<Rightarrow> string \<Rightarrow> string option" where
  "strip_suffix p s = map_option rev (strip_prefix (rev p) (rev s))"

definition starts_with :: "string \<Rightarrow> string \<Rightarrow> bool" where
  "starts_with p s \<longleftrightarrow> take (length p) s = p"

definition ends_with :: "string \<Rightarrow> string \<Rightarrow> bool" where
  "ends_with p s \<longleftrightarrow> starts_with (rev p) (rev s)"

lemma strip_prefix_append [simp]: "strip_prefix p (p @ s) = Some s"
  by (simp add: strip_prefix_def)

lemma strip_prefix_Some: "strip_prefix p s = Some r \<longleftrightarrow> s = p @ r"
  unfolding strip_prefix_def by (metis append_eq_conv_conj option.inject option.simps(3))

section \<open>White space\<close>

definition ws_seqs :: "string list" where
  "ws_seqs = [[CHR 0x09], [CHR 0x0A], [CHR 0x0B], [CHR 0x0C], [CHR 0x0D], [CHR 0x20],
     [CHR 0xC2, CHR 0x85], [CHR 0xC2, CHR 0xA0], [CHR 0xE1, CHR 0x9A, CHR 0x80],
     [CHR 0xE2, CHR 0x80, CHR 0x80], [CHR 0xE2, CHR 0x80, CHR 0x81], [CHR 0xE2, CHR 0x80, CHR 0x82],
     [CHR 0xE2, CHR 0x80, CHR 0x83], [CHR 0xE2, CHR 0x80, CHR 0x84], [CHR 0xE2, CHR 0x80, CHR 0x85],
     [CHR 0xE2, CHR 0x80, CHR 0x86], [CHR 0xE2, CHR 0x80, CHR 0x87], [CHR 0xE2, CHR 0x80, CHR 0x88],
     [CHR 0xE2, CHR 0x80, CHR 0x89], [CHR 0xE2, CHR 0x80, CHR 0x8A], [CHR 0xE2, CHR 0x80, CHR 0xA8],
     [CHR 0xE2, CHR 0x80, CHR 0xA9], [CHR 0xE2, CHR 0x80, CHR 0xAF], [CHR 0xE2, CHR 0x81, CHR 0x9F],
     [CHR 0xE3, CHR 0x80, CHR 0x80]]"

text \<open>Length of the white-space character that starts (ends) a string; 0 when there is none.\<close>

definition ws_len :: "string \<Rightarrow> nat" where
  "ws_len s = (case List.find (\<lambda>w. starts_with w s) ws_seqs of None \<Rightarrow> 0 | Some w \<Rightarrow> length w)"

definition ws_end_len :: "string \<Rightarrow> nat" where
  "ws_end_len s = (case List.find (\<lambda>w. ends_with w s) ws_seqs of None \<Rightarrow> 0 | Some w \<Rightarrow> length w)"

lemma ws_len_Nil [simp]: "ws_len [] = 0"
  by (simp add: ws_len_def ws_seqs_def starts_with_def)

lemma ws_end_len_Nil [simp]: "ws_end_len [] = 0"
  by (simp add: ws_end_len_def ws_seqs_def ends_with_def starts_with_def)

lemma ws_len_pos: "0 < ws_len s \<Longrightarrow> s \<noteq> []"
  by auto

lemma ws_end_len_pos: "0 < ws_end_len s \<Longrightarrow> s \<noteq> []"
  by auto

function trim_start :: "string \<Rightarrow> string" where
  "trim_start s = (if ws_len s = 0 then s else trim_start (drop (ws_len s) s))"
  by pat_completeness auto
termination
  by (relation "measure length") (auto intro!: diff_less dest: ws_len_pos)

function trim_end :: "string \<Rightarrow> string" where
  "trim_end s = (if ws_end_len s = 0 then s else trim_end (take (length s - ws_end_len s) s))"
  by pat_completeness auto
termination
  by (relation "measure length") (auto intro!: min.strict_coboundedI2 diff_less dest: ws_end_len_pos)

declare trim_start.simps [simp del] trim_end.simps [simp del]

definition trim :: "string \<Rightarrow> string" where
  "trim s = trim_end (trim_start s)"

text \<open>Visible ASCII never starts or ends a white-space sequence.\<close>

definition graphic :: "char \<Rightarrow> bool" where
  "graphic c \<longleftrightarrow> 33 \<le> (of_char c :: nat) \<and> (of_char c :: nat) \<le> 126"

lemma ws_seqs_not_graphic:
  "\<forall>w \<in> set ws_seqs. w \<noteq> [] \<and> \<not> graphic (hd w) \<and> \<not> graphic (last w)"
  by (simp add: ws_seqs_def graphic_def)

lemma graphic_ws_len: "graphic c \<Longrightarrow> ws_len (c # s) = 0"
proof -
  assume g: "graphic c"
  have "\<not> starts_with w (c # s)" if "w \<in> set ws_seqs" for w
    using ws_seqs_not_graphic that g by (cases w) (auto simp: starts_with_def)
  then have "List.find (\<lambda>w. starts_with w (c # s)) ws_seqs = None"
    by (auto simp: find_None_iff)
  then show ?thesis by (simp add: ws_len_def)
qed

lemma graphic_ws_end_len: "graphic c \<Longrightarrow> ws_end_len (s @ [c]) = 0"
proof -
  assume g: "graphic c"
  have "\<not> ends_with w (s @ [c])" if "w \<in> set ws_seqs" for w
    using ws_seqs_not_graphic that g
    by (cases w rule: rev_cases) (auto simp: ends_with_def starts_with_def)
  then have "List.find (\<lambda>w. ends_with w (s @ [c])) ws_seqs = None"
    by (auto simp: find_None_iff)
  then show ?thesis by (simp add: ws_end_len_def)
qed

lemma trim_graphic:
  assumes "s \<noteq> []" and "graphic (hd s)" and "graphic (last s)"
  shows "trim s = s"
proof -
  from assms(1) have "ws_len s = 0" "ws_end_len s = 0"
    using graphic_ws_len [OF assms(2), of "tl s"] graphic_ws_end_len [OF assms(3), of "butlast s"]
    by simp_all
  then show ?thesis
    by (simp add: trim_def trim_start.simps [of s] trim_end.simps [of s])
qed

function split_ws_aux :: "string \<Rightarrow> string \<Rightarrow> string list" where
  "split_ws_aux acc s =
     (if s = [] then (if acc = [] then [] else [acc])
      else if ws_len s = 0 then split_ws_aux (acc @ [hd s]) (tl s)
      else (if acc = [] then [] else [acc]) @ split_ws_aux [] (drop (ws_len s) s))"
  by pat_completeness auto
termination
  by (relation "measure (\<lambda>(acc, s). length s)") auto

declare split_ws_aux.simps [simp del]

definition split_whitespace :: "string \<Rightarrow> string list" where
  "split_whitespace s = split_ws_aux [] s"

section \<open>Splitting\<close>

text \<open>\<open>str::split(c)\<close>: the parts between the separators, at least one.\<close>

fun split_on :: "char \<Rightarrow> string \<Rightarrow> string list" where
  "split_on c [] = [[]]"
| "split_on c (x # xs) =
     (if x = c then [] # split_on c xs
      else (case split_on c xs of [] \<Rightarrow> [[x]] | p # ps \<Rightarrow> (x # p) # ps))"

lemma split_on_nonempty [simp]: "split_on c s \<noteq> []"
  by (induction s) (auto split: list.splits)

lemma split_on_none: "c \<notin> set s \<Longrightarrow> split_on c s = [s]"
  by (induction s) auto

lemma split_on_one: "c \<notin> set s \<Longrightarrow> split_on c (s @ c # t) = s # split_on c t"
  by (induction s) auto

text \<open>\<open>str::split_once(c)\<close> and \<open>str::rsplit_once(c)\<close>.\<close>

fun split_once :: "char \<Rightarrow> string \<Rightarrow> (string \<times> string) option" where
  "split_once c [] = None"
| "split_once c (x # xs) =
     (if x = c then Some ([], xs) else map_option (\<lambda>(a, b). (x # a, b)) (split_once c xs))"

definition rsplit_once :: "char \<Rightarrow> string \<Rightarrow> (string \<times> string) option" where
  "rsplit_once c s = map_option (\<lambda>(a, b). (rev b, rev a)) (split_once c (rev s))"

lemma split_once_Some: "split_once c s = Some (a, b) \<longleftrightarrow> s = a @ c # b \<and> c \<notin> set a"
proof (induction s arbitrary: a)
  case Nil
  then show ?case by simp
next
  case (Cons x s)
  then show ?case by (cases a) auto
qed

lemma split_once_None: "split_once c s = None \<longleftrightarrow> c \<notin> set s"
  by (induction s) auto

lemma rsplit_once_Some: "rsplit_once c s = Some (a, b) \<longleftrightarrow> s = a @ c # b \<and> c \<notin> set b"
proof -
  have "rsplit_once c s = Some (a, b) \<longleftrightarrow> split_once c (rev s) = Some (rev b, rev a)"
    by (auto simp: rsplit_once_def)
  also have "\<dots> \<longleftrightarrow> rev s = rev b @ c # rev a \<and> c \<notin> set b"
    by (simp add: split_once_Some)
  also have "\<dots> \<longleftrightarrow> s = a @ c # b \<and> c \<notin> set b"
    by (simp add: rev_swap)
  finally show ?thesis .
qed

fun join :: "string \<Rightarrow> string list \<Rightarrow> string" where
  "join sep [] = []"
| "join sep [x] = x"
| "join sep (x # xs) = x @ sep @ join sep xs"

lemma join_Cons: "ps \<noteq> [] \<Longrightarrow> join sep (p # ps) = p @ sep @ join sep ps"
  by (cases ps) auto

lemma join_split_on: "join [c] (split_on c s) = s"
proof (induction s)
  case (Cons x s)
  show ?case
  proof (cases "x = c")
    case True
    with Cons show ?thesis by (simp add: join_Cons)
  next
    case False
    obtain p ps where ps: "split_on c s = p # ps"
      by (cases "split_on c s") auto
    with Cons False show ?thesis by (cases ps) auto
  qed
qed simp

section \<open>ASCII case, digits and decimal numbers\<close>

text \<open>\<open>str::lines\<close>: a line ends at a line feed, together with a carriage return before it; what
  follows the last line feed is a line if it is not empty.\<close>

definition drop_cr :: "string \<Rightarrow> string" where
  "drop_cr l = (case strip_suffix [CHR 0x0D] l of Some r \<Rightarrow> r | None \<Rightarrow> l)"

definition str_lines :: "string \<Rightarrow> string list" where
  "str_lines s = (let ps = split_on (CHR 0x0A) s in
     map drop_cr (butlast ps) @ (if last ps = [] then [] else [last ps]))"

definition trim_end_char :: "char \<Rightarrow> string \<Rightarrow> string" where
  "trim_end_char c s = rev (dropWhile (\<lambda>x. x = c) (rev s))"

text \<open>\<open>windows(n).position(..)\<close>: where a byte sequence first occurs.\<close>

fun find_sub :: "'a list \<Rightarrow> 'a list \<Rightarrow> nat option" where
  "find_sub p [] = (if p = [] then Some 0 else None)"
| "find_sub p (x # xs) =
     (if take (length p) (x # xs) = p then Some 0 else map_option Suc (find_sub p xs))"

lemma find_sub_Some: "find_sub p s = Some i \<Longrightarrow> i + length p \<le> length s \<and> take (length p) (drop i s) = p"
proof (induction p s arbitrary: i rule: find_sub.induct)
  case (2 p x xs)
  show ?case
  proof (cases "take (length p) (x # xs) = p")
    case True
    then have "length p = min (length (x # xs)) (length p)" by (metis length_take)
    with True 2 show ?thesis by simp
  next
    case False
    with 2 show ?thesis by auto
  qed
qed (auto split: if_splits)

lemma find_sub_least: "find_sub p s = Some i \<Longrightarrow> j < i \<Longrightarrow> take (length p) (drop j s) \<noteq> p"
proof (induction p s arbitrary: i j rule: find_sub.induct)
  case (2 p x xs)
  then obtain k where "take (length p) (x # xs) \<noteq> p" "find_sub p xs = Some k" "i = Suc k"
    by (auto split: if_splits)
  with 2 show ?case by (cases j) auto
qed (auto split: if_splits)

lemma find_sub_occurs:
  assumes "take (length p) (drop j s) = p"
  shows "\<exists>i \<le> j. find_sub p s = Some i"
  using assms
proof (induction p s arbitrary: j rule: find_sub.induct)
  case (2 p x xs)
  show ?case
  proof (cases "take (length p) (x # xs) = p")
    case False
    with 2 obtain k where k: "j = Suc k" by (cases j) auto
    with 2 False obtain i where "i \<le> k" "find_sub p xs = Some i" by auto
    with k False show ?thesis by (intro exI [of _ "Suc i"]) simp
  qed auto
qed auto

definition ascii_lower :: "char \<Rightarrow> char" where
  "ascii_lower c = (if 65 \<le> (of_char c :: nat) \<and> (of_char c :: nat) \<le> 90
     then char_of ((of_char c :: nat) + 32) else c)"

definition to_ascii_lowercase :: "string \<Rightarrow> string" where
  "to_ascii_lowercase s = map ascii_lower s"

definition is_digit :: "char \<Rightarrow> bool" where
  "is_digit c \<longleftrightarrow> 48 \<le> (of_char c :: nat) \<and> (of_char c :: nat) \<le> 57"

definition digit_val :: "char \<Rightarrow> nat" where
  "digit_val c = of_char c - 48"

definition digit_char :: "nat \<Rightarrow> char" where
  "digit_char n = char_of (48 + n)"

definition digits_val :: "string \<Rightarrow> nat" where
  "digits_val s = foldl (\<lambda>a c. 10 * a + digit_val c) 0 s"

text \<open>\<open>Display\<close> of an unsigned integer.\<close>

fun dec :: "nat \<Rightarrow> string" where
  "dec n = (if n < 10 then [digit_char n] else dec (n div 10) @ [digit_char (n mod 10)])"

declare dec.simps [simp del]

definition dec_int :: "int \<Rightarrow> string" where
  "dec_int i = (if i < 0 then ''-'' else []) @ dec (nat \<bar>i\<bar>)"

text \<open>\<open>str::parse\<close> for unsigned types: an optional plus sign, digits, and a bound.\<close>

definition parse_unsigned :: "nat \<Rightarrow> string \<Rightarrow> nat option" where
  "parse_unsigned mx s =
     (let d = (case s of c # r \<Rightarrow> (if c = CHR ''+'' then r else s) | [] \<Rightarrow> [])
      in if d \<noteq> [] \<and> list_all is_digit d \<and> digits_val d \<le> mx then Some (digits_val d) else None)"

lemma of_char_digit_char: "n < 10 \<Longrightarrow> (of_char (digit_char n) :: nat) = 48 + n"
  by (simp add: digit_char_def of_char_of)

lemma is_digit_digit_char [simp]: "n < 10 \<Longrightarrow> is_digit (digit_char n)"
  by (simp add: is_digit_def of_char_digit_char)

lemma digit_val_digit_char [simp]: "n < 10 \<Longrightarrow> digit_val (digit_char n) = n"
  by (simp add: digit_val_def of_char_digit_char)

lemma digits_val_Nil [simp]: "digits_val [] = 0"
  by (simp add: digits_val_def)

lemma digits_val_snoc [simp]: "digits_val (s @ [c]) = 10 * digits_val s + digit_val c"
  by (simp add: digits_val_def)

lemma digit_val_less: "is_digit c \<Longrightarrow> digit_val c < 10"
  by (auto simp: is_digit_def digit_val_def)

lemma digits_val_append: "digits_val (s @ t) = digits_val s * 10 ^ length t + digits_val t"
  by (induction t rule: rev_induct) (simp_all flip: append_assoc add: algebra_simps)

lemma digits_val_bound: "list_all is_digit s \<Longrightarrow> digits_val s < 10 ^ length s"
proof (induction s rule: rev_induct)
  case (snoc c s)
  then have "digits_val s < 10 ^ length s" and "digit_val c < 10"
    by (simp_all add: digit_val_less)
  then have "10 * digits_val s + digit_val c < 10 * 10 ^ length s"
    by linarith
  then show ?case by simp
qed simp

lemma dec_nonempty [simp]: "dec n \<noteq> []"
  by (subst dec.simps) simp

lemma dec_digits [simp]: "list_all is_digit (dec n)"
proof (induction n rule: dec.induct)
  case (1 n)
  then show ?case by (cases "n < 10") (simp_all add: dec.simps [of n])
qed

lemma digits_val_dec [simp]: "digits_val (dec n) = n"
proof (induction n rule: dec.induct)
  case (1 n)
  then show ?case
    by (cases "n < 10") (simp_all add: dec.simps [of n] digits_val_def)
qed

lemma digit_graphic: "is_digit c \<Longrightarrow> graphic c"
  by (auto simp: is_digit_def graphic_def)

lemma digits_no_char: "list_all is_digit s \<Longrightarrow> \<not> is_digit c \<Longrightarrow> c \<notin> set s"
  by (auto simp: list_all_iff)

lemma dec_no_char: "\<not> is_digit c \<Longrightarrow> c \<notin> set (dec n)"
  by (rule digits_no_char) auto

lemma not_digit_dot [simp]: "\<not> is_digit (CHR ''.'')"
  by (simp add: is_digit_def)

lemma not_digit_minus [simp]: "\<not> is_digit (CHR ''-'')"
  by (simp add: is_digit_def)

lemma not_digit_plus [simp]: "\<not> is_digit (CHR ''+'')"
  by (simp add: is_digit_def)

lemma parse_unsigned_dec: "n \<le> mx \<Longrightarrow> parse_unsigned mx (dec n) = Some n"
proof -
  have "CHR ''+'' \<notin> set (dec n)" by (rule dec_no_char) simp
  then have "(case dec n of c # r \<Rightarrow> (if c = CHR ''+'' then r else dec n) | [] \<Rightarrow> []) = dec n"
    by (auto split: list.splits)
  then show "n \<le> mx \<Longrightarrow> parse_unsigned mx (dec n) = Some n"
    by (simp add: parse_unsigned_def)
qed

section \<open>Hexadecimal\<close>

definition hex_digit :: "nat \<Rightarrow> char" where
  "hex_digit n = (if n < 10 then char_of (48 + n) else char_of (87 + n))"

definition hex_encode :: "bytes \<Rightarrow> string" where
  "hex_encode bs = concat (map (\<lambda>b. [hex_digit (unat b div 16), hex_digit (unat b mod 16)]) bs)"

definition hex_val :: "char \<Rightarrow> nat option" where
  "hex_val c = (let n = (of_char c :: nat) in
     if 48 \<le> n \<and> n \<le> 57 then Some (n - 48)
     else if 97 \<le> n \<and> n \<le> 102 then Some (n - 87)
     else if 65 \<le> n \<and> n \<le> 70 then Some (n - 55) else None)"

fun hex_decode :: "string \<Rightarrow> bytes option" where
  "hex_decode [] = Some []"
| "hex_decode [_] = None"
| "hex_decode (a # b # s) =
     (case (hex_val a, hex_val b, hex_decode s) of
        (Some x, Some y, Some r) \<Rightarrow> Some (word_of_nat (16 * x + y) # r) | _ \<Rightarrow> None)"

lemma hex_val_hex_digit [simp]: "n < 16 \<Longrightarrow> hex_val (hex_digit n) = Some n"
  by (auto simp: hex_val_def hex_digit_def Let_def of_char_of)

lemma hex_decode_encode [simp]: "hex_decode (hex_encode bs) = Some bs"
proof (induction bs)
  case Nil
  then show ?case by (simp add: hex_encode_def)
next
  case (Cons b bs)
  have u: "unat b < 256" using unsigned_less [of b, where 'a = nat] by simp
  then have "unat b div 16 < 16" "unat b mod 16 < 16" by auto
  moreover have "16 * (unat b div 16) + unat b mod 16 = unat b" by simp
  ultimately show ?case
    using Cons by (simp add: hex_encode_def)
qed

lemma hex_encode_inj: "hex_encode x = hex_encode y \<longleftrightarrow> x = y"
  by (metis hex_decode_encode option.inject)

section \<open>Integers as bytes\<close>

text \<open>\<open>to_le_bytes\<close> and \<open>to_be_bytes\<close> of an unsigned integer of \<open>k\<close> bytes.\<close>

fun le_bytes :: "nat \<Rightarrow> nat \<Rightarrow> bytes" where
  "le_bytes 0 n = []"
| "le_bytes (Suc k) n = of_nat (n mod 256) # le_bytes k (n div 256)"

definition be_bytes :: "nat \<Rightarrow> nat \<Rightarrow> bytes" where
  "be_bytes k n = rev (le_bytes k n)"

lemma length_le_bytes [simp]: "length (le_bytes k n) = k"
  by (induction k arbitrary: n) auto

lemma length_be_bytes [simp]: "length (be_bytes k n) = k"
  by (simp add: be_bytes_def)

lemma le_bytes_inj: "m < 256 ^ k \<Longrightarrow> n < 256 ^ k \<Longrightarrow> le_bytes k m = le_bytes k n \<Longrightarrow> m = n"
proof (induction k arbitrary: m n)
  case (Suc k)
  have "of_nat (m mod 256) = (of_nat (n mod 256) :: byte)" using Suc.prems(3) by simp
  then have "unat (of_nat (m mod 256) :: byte) = unat (of_nat (n mod 256) :: byte)" by simp
  then have "m mod 256 = n mod 256" by (simp add: unat_of_nat)
  moreover have "m div 256 = n div 256"
  proof (rule Suc.IH)
    show "m div 256 < 256 ^ k" "n div 256 < 256 ^ k"
      using Suc.prems(1,2) by (simp_all add: less_mult_imp_div_less mult.commute)
    show "le_bytes k (m div 256) = le_bytes k (n div 256)" using Suc.prems(3) by simp
  qed
  ultimately show ?case by (metis mod_div_decomp)
qed simp

lemma be_bytes_inj: "m < 256 ^ k \<Longrightarrow> n < 256 ^ k \<Longrightarrow> be_bytes k m = be_bytes k n \<Longrightarrow> m = n"
  by (simp add: be_bytes_def le_bytes_inj)

end
