(* ===== verification/Environment.thy ===== *)
theory Environment
  imports Prelude RustText
begin

text \<open>
  What the program takes from outside: the clock, random bytes, the file system and the
  network as schedules read through counters; hashes, signatures and serializers as
  functions. All of it is one record \<open>env\<close>, an argument of every definition that uses
  it; a law that a theorem needs of it (digest length, a serializer that can be read
  back) is a named predicate here and a hypothesis there.
\<close>

section \<open>Serialized values\<close>

text \<open>
  The data model of serde. Objects keep the fields in source order, duplicates
  included: \<open>Value::get\<close> sees the last one, a derived struct decoder refuses them.
\<close>

datatype (plugins only: code size) json = JNull | JBool bool | JNum int | JStr string
  | JArr "json list" | JObj "(string \<times> json) list"

definition json_get :: "string \<Rightarrow> json \<Rightarrow> json option" where
  "json_get k v = (case v of JObj kvs \<Rightarrow> map_option snd (find_last (\<lambda>kv. fst kv = k) kvs) | _ \<Rightarrow> None)"

definition as_str :: "json \<Rightarrow> string option" where
  "as_str v = (case v of JStr s \<Rightarrow> Some s | _ \<Rightarrow> None)"

definition as_bool :: "json \<Rightarrow> bool option" where
  "as_bool v = (case v of JBool b \<Rightarrow> Some b | _ \<Rightarrow> None)"

definition get_str :: "string \<Rightarrow> json \<Rightarrow> string option" where
  "get_str k v = Option.bind (json_get k v) as_str"

definition JBytes :: "bytes \<Rightarrow> json" where
  "JBytes b = JArr (map (\<lambda>x. JNum (uint x)) b)"

definition JOpt :: "('a \<Rightarrow> json) \<Rightarrow> 'a option \<Rightarrow> json" where
  "JOpt f z = (case z of None \<Rightarrow> JNull | Some x \<Rightarrow> f x)"

text \<open>Fields of a derived struct: absent is \<open>None\<close>, a duplicate is an error.\<close>

definition struct_field :: "string \<Rightarrow> (string \<times> json) list \<Rightarrow> json option option" where
  "struct_field k kvs = (case filter (\<lambda>kv. fst kv = k) kvs of
     [] \<Rightarrow> Some None | [kv] \<Rightarrow> Some (Some (snd kv)) | _ \<Rightarrow> None)"

lemma JBytes_inj [simp]: "JBytes a = JBytes b \<longleftrightarrow> a = b"
proof -
  have "inj (\<lambda>x :: byte. JNum (uint x))" by (rule injI) (simp add: word_uint_eq_iff)
  then show ?thesis by (simp add: JBytes_def inj_map_eq_map)
qed

text \<open>
  The derived decoders. A struct is read from an object, each field at most once, or
  from an array of its fields in order; a field with \<open>serde(default)\<close> may be missing.
\<close>

fun all_fields :: "string list \<Rightarrow> (string \<times> json) list \<Rightarrow> json option list option" where
  "all_fields [] kvs = Some []"
| "all_fields (k # ks) kvs = (case (struct_field k kvs, all_fields ks kvs) of
     (Some v, Some vs) \<Rightarrow> Some (v # vs) | _ \<Rightarrow> None)"

definition struct_values :: "string list \<Rightarrow> json \<Rightarrow> json option list option" where
  "struct_values ks j = (case j of
       JObj kvs \<Rightarrow> all_fields ks kvs
     | JArr vs \<Rightarrow> if length vs \<le> length ks
         then Some (map Some vs @ replicate (length ks - length vs) None) else None
     | _ \<Rightarrow> None)"

definition str_field :: "json option \<Rightarrow> string option" where
  "str_field v = Option.bind v as_str"

text \<open>\<open>String\<close> with a default, \<open>Option<String>\<close> and \<open>Option<u64>\<close> with a default.\<close>

definition str_default :: "json option \<Rightarrow> string option" where
  "str_default v = (case v of None \<Rightarrow> Some [] | Some j \<Rightarrow> as_str j)"

definition opt_str :: "json option \<Rightarrow> string option option" where
  "opt_str v = (case v of None \<Rightarrow> Some None | Some JNull \<Rightarrow> Some None | Some j \<Rightarrow> map_option Some (as_str j))"

definition as_unsigned :: "nat \<Rightarrow> json \<Rightarrow> nat option" where
  "as_unsigned mx j = (case j of JNum n \<Rightarrow> if 0 \<le> n \<and> n \<le> int mx then Some (nat n) else None | _ \<Rightarrow> None)"

definition opt_u64 :: "json option \<Rightarrow> nat option option" where
  "opt_u64 v = (case v of None \<Rightarrow> Some None | Some JNull \<Rightarrow> Some None
     | Some j \<Rightarrow> map_option Some (as_unsigned u64_max j))"

section \<open>The environment\<close>

text \<open>
  \<open>env_faults n\<close>: how the n-th file operation fails, with the text of the operating
  system's error. A failing flush comes after the record is written; the other faults
  leave the file as it was. \<open>Corrupt i e\<close> is a record that cannot be (de)serialized.
\<close>

datatype fault = OpenErr string | WriteErr string | FlushErr string | Corrupt nat string

datatype net_reply = ConnectErr string | TimeoutErr string | SendErr string
  | Received "bytes list"

record env =
  store_root :: string
  env_time :: "nat \<Rightarrow> int"
  env_uuid :: "nat \<Rightarrow> string"
  env_rand :: "nat \<Rightarrow> bytes"
  env_faults :: "nat \<Rightarrow> fault option"
  env_shuffle :: "nat \<Rightarrow> string list \<Rightarrow> string list"
  rfc3339 :: "int \<Rightarrow> string"
  parse_rfc3339 :: "string \<Rightarrow> int option"
  ymd :: "int \<Rightarrow> string"
  civil_month :: "int \<Rightarrow> int \<times> int"
  blake3 :: "bytes \<Rightarrow> bytes"
  sha3_256 :: "bytes \<Rightarrow> bytes"
  sha2_256 :: "bytes \<Rightarrow> bytes"
  json_to_vec :: "json \<Rightarrow> bytes"
  json_from_slice :: "bytes \<Rightarrow> string + json"
  serde_error :: "string \<Rightarrow> json \<Rightarrow> string"
  bincode :: "json \<Rightarrow> string + bytes"
  bech32m :: "string \<Rightarrow> bytes \<Rightarrow> string + string"
  bech32_decode :: "string \<Rightarrow> string + string \<times> bytes"
  utf8_lossy :: "bytes \<Rightarrow> string"
  fmt_f64_cents :: "int \<Rightarrow> string"
  sign_hybrid :: "bytes \<Rightarrow> bytes \<Rightarrow> string + bytes"
  verify_hybrid :: "bytes \<Rightarrow> bytes \<Rightarrow> bytes \<Rightarrow> bytes \<Rightarrow> string + bool"
  base64 :: "bytes \<Rightarrow> string"
  base64_decode :: "string \<Rightarrow> string + bytes"
  net_send :: "nat \<Rightarrow> string \<Rightarrow> bool \<Rightarrow> bytes \<Rightarrow> net_reply"

definition digests32 :: "env \<Rightarrow> bool" where
  "digests32 E \<longleftrightarrow> (\<forall>x. length (blake3 E x) = 32) \<and> (\<forall>x. length (sha3_256 E x) = 32) \<and>
     (\<forall>x. length (sha2_256 E x) = 32)"

section \<open>Counters\<close>

record clock =
  n_time :: nat
  n_uuid :: nat
  n_rand :: nat
  n_io :: nat
  n_net :: nat

text \<open>A Rust function returns, returns an error, or panics.\<close>

datatype 'e exn = Err 'e | Panic

type_synonym ('s, 'e, 'a) M = "('s, 'e exn, 'a) se"

definition fail :: "'e \<Rightarrow> ('s, 'e, 'a) M" where
  "fail e = throw (Err e)"

definition panic :: "('s, 'e, 'a) M" where
  "panic = throw Panic"

text \<open>\<open>?\<close> on a pure \<open>Result\<close>, on a value that may panic, and \<open>map_err\<close>.\<close>

definition result :: "'e + 'a \<Rightarrow> ('s, 'e, 'a) M" where
  "result r = (case r of Inl e \<Rightarrow> fail e | Inr x \<Rightarrow> ret x)"

definition unwrap :: "'a option \<Rightarrow> ('s, 'e, 'a) M" where
  "unwrap z = (case z of None \<Rightarrow> panic | Some x \<Rightarrow> ret x)"

definition ok_or :: "'a option \<Rightarrow> 'e \<Rightarrow> ('s, 'e, 'a) M" where
  "ok_or z e = (case z of None \<Rightarrow> fail e | Some x \<Rightarrow> ret x)"

definition guard :: "bool \<Rightarrow> 'e \<Rightarrow> ('s, 'e, unit) M" where
  "guard b e = (if b then ret () else fail e)"

fun exn_map :: "('e \<Rightarrow> 'f) \<Rightarrow> 'e exn \<Rightarrow> 'f exn" where
  "exn_map h (Err e) = Err (h e)"
| "exn_map h Panic = Panic"

definition or_err :: "('e \<Rightarrow> 'f) \<Rightarrow> ('s, 'e, 'a) M \<Rightarrow> ('s, 'f, 'a) M" where
  "or_err h m = map_err (exn_map h) m"

text \<open>\<open>match m { Ok(x) => .., Err(e) => .. }\<close>: an error is a value, a panic goes on.\<close>

definition outcome :: "('s, 'e, 'a) M \<Rightarrow> ('s, 'f, 'e + 'a) M" where
  "outcome m = (\<lambda>s. case m s of
       (Inr x, t) \<Rightarrow> (Inr (Inr x), t)
     | (Inl (Err e), t) \<Rightarrow> (Inr (Inl e), t)
     | (Inl Panic, t) \<Rightarrow> (Inl Panic, t))"

definition utc_now :: "env \<Rightarrow> ('c clock_scheme, 'f, int) M" where
  "utc_now E = (\<lambda>s. (Inr (env_time E (n_time s)), s\<lparr>n_time := n_time s + 1\<rparr>))"

definition now_rfc3339 :: "env \<Rightarrow> ('c clock_scheme, 'f, string) M" where
  "now_rfc3339 E = bnd (utc_now E) (\<lambda>t. ret (rfc3339 E t))"

definition new_uuid :: "env \<Rightarrow> ('c clock_scheme, 'f, string) M" where
  "new_uuid E = (\<lambda>s. (Inr (env_uuid E (n_uuid s)), s\<lparr>n_uuid := n_uuid s + 1\<rparr>))"

definition random_bytes :: "env \<Rightarrow> nat \<Rightarrow> nat \<Rightarrow> bytes" where
  "random_bytes E n k = take n (env_rand E k @ replicate n 0)"

definition fill_random :: "env \<Rightarrow> nat \<Rightarrow> ('c clock_scheme, 'f, bytes) M" where
  "fill_random E n = (\<lambda>s. (Inr (random_bytes E n (n_rand s)),
     s\<lparr>n_rand := n_rand s + 1\<rparr>))"

definition next_fault :: "env \<Rightarrow> ('c clock_scheme, 'f, fault option) M" where
  "next_fault E = (\<lambda>s. (Inr (env_faults E (n_io s)), s\<lparr>n_io := n_io s + 1\<rparr>))"

definition no_faults :: "env \<Rightarrow> bool" where
  "no_faults E \<longleftrightarrow> (\<forall>n. env_faults E n = None)"

section \<open>Running the primitives\<close>

lemmas M_defs = fail_def panic_def result_def unwrap_def ok_or_def guard_def or_err_def

lemma utc_now_run [simp]: "utc_now E s = (Inr (env_time E (n_time s)), s\<lparr>n_time := n_time s + 1\<rparr>)"
  by (simp add: utc_now_def)

lemma now_rfc3339_run [simp]:
  "now_rfc3339 E s = (Inr (rfc3339 E (env_time E (n_time s))), s\<lparr>n_time := n_time s + 1\<rparr>)"
  by (simp add: now_rfc3339_def bnd_def ret_def)

lemma new_uuid_run [simp]: "new_uuid E s = (Inr (env_uuid E (n_uuid s)), s\<lparr>n_uuid := n_uuid s + 1\<rparr>)"
  by (simp add: new_uuid_def)

lemma fill_random_run [simp]:
  "fill_random E n s = (Inr (random_bytes E n (n_rand s)), s\<lparr>n_rand := n_rand s + 1\<rparr>)"
  by (simp add: fill_random_def)

lemma length_random_bytes [simp]: "length (random_bytes E n k) = n"
  by (simp add: random_bytes_def del: take_append)

lemma next_fault_run [simp]:
  "next_fault E s = (Inr (env_faults E (n_io s)), s\<lparr>n_io := n_io s + 1\<rparr>)"
  by (simp add: next_fault_def)

lemma fail_run [simp]: "fail e s = (Inl (Err e), s)"
  by (simp add: fail_def throw_def)

lemma panic_run [simp]: "panic s = (Inl Panic, s)"
  by (simp add: panic_def throw_def)

lemma result_Inr: "result r s = (Inr x, t) \<longleftrightarrow> r = Inr x \<and> t = s"
  by (auto simp: result_def ret_def split: sum.splits)

lemma unwrap_Inr: "unwrap z s = (Inr x, t) \<longleftrightarrow> z = Some x \<and> t = s"
  by (auto simp: unwrap_def ret_def split: option.splits)

lemma ok_or_Inr: "ok_or z e s = (Inr x, t) \<longleftrightarrow> z = Some x \<and> t = s"
  by (auto simp: ok_or_def ret_def split: option.splits)

lemma guard_Inr: "guard b e s = (Inr x, t) \<longleftrightarrow> b \<and> t = s"
  by (auto simp: guard_def ret_def)

lemma or_err_Inr: "or_err h m s = (Inr x, t) \<longleftrightarrow> m s = (Inr x, t)"
  by (simp add: or_err_def map_err_Inr)

lemma outcome_Inr: "outcome m s = (Inr r, t) \<longleftrightarrow>
    (case r of Inl e \<Rightarrow> m s = (Inl (Err e), t) | Inr x \<Rightarrow> m s = (Inr x, t))"
  by (auto simp: outcome_def split: prod.splits sum.splits exn.splits)

lemmas M_Inr = se_Inr result_Inr unwrap_Inr ok_or_Inr guard_Inr or_err_Inr outcome_Inr

section \<open>Relations that ignore the counters\<close>

definition clock_ok :: "('c clock_scheme \<Rightarrow> 'c clock_scheme \<Rightarrow> bool) \<Rightarrow> bool" where
  "clock_ok R \<longleftrightarrow> (\<forall>s k. R s (s\<lparr>n_time := k\<rparr>) \<and> R s (s\<lparr>n_uuid := k\<rparr>) \<and> R s (s\<lparr>n_rand := k\<rparr>) \<and>
     R s (s\<lparr>n_io := k\<rparr>) \<and> R s (s\<lparr>n_net := k\<rparr>))"

lemma utc_now_keeps [keeps_rules]: "clock_ok R \<Longrightarrow> keeps R (utc_now E)"
  by (simp add: keeps_def clock_ok_def)

lemma now_rfc3339_keeps [keeps_rules]: "clock_ok R \<Longrightarrow> keeps R (now_rfc3339 E)"
  by (simp add: keeps_def clock_ok_def)

lemma new_uuid_keeps [keeps_rules]: "clock_ok R \<Longrightarrow> keeps R (new_uuid E)"
  by (simp add: keeps_def clock_ok_def)

lemma next_fault_keeps [keeps_rules]: "clock_ok R \<Longrightarrow> keeps R (next_fault E)"
  by (simp add: keeps_def clock_ok_def)

lemma fill_random_keeps [keeps_rules]: "clock_ok R \<Longrightarrow> keeps R (fill_random E n)"
  by (simp add: keeps_def clock_ok_def fill_random_def)

lemma outcome_keeps [keeps_rules]: "keeps R m \<Longrightarrow> keeps R (outcome m)"
proof (rule keepsI)
  fix s r t
  assume "keeps R m" and "outcome m s = (r, t)"
  then show "R s t"
    by (auto simp: outcome_def split: prod.splits sum.splits exn.splits dest: keepsD)
qed

lemma or_err_keeps [keeps_rules]: "keeps R m \<Longrightarrow> keeps R (or_err h m)"
  by (simp add: or_err_def keeps_map_err)

context state_preorder
begin

lemma fail_ok [keeps_rules]: "keeps R (fail e)"
  by (simp add: fail_def throw_ok)

lemma panic_ok [keeps_rules]: "keeps R panic"
  by (simp add: panic_def throw_ok)

lemma result_ok [keeps_rules]: "keeps R (result r)"
  by (cases r) (simp_all add: result_def fail_ok ret_ok)

lemma unwrap_ok [keeps_rules]: "keeps R (unwrap z)"
  by (cases z) (simp_all add: unwrap_def panic_ok ret_ok)

lemma ok_or_ok [keeps_rules]: "keeps R (ok_or z e)"
  by (cases z) (simp_all add: ok_or_def fail_ok ret_ok)

lemma guard_ok [keeps_rules]: "keeps R (guard b e)"
  by (simp add: guard_def fail_ok ret_ok)

end

section \<open>A concrete environment\<close>

text \<open>Used to evaluate the definitions on concrete inputs.\<close>

definition pad32 :: "bytes \<Rightarrow> bytes" where
  "pad32 x = take 32 (x @ replicate 32 0)"

definition example_env :: env where
  "example_env =
     \<lparr>store_root = ''/p'', env_time = (\<lambda>n. int n), env_uuid = (\<lambda>n. ''u'' @ dec n),
      env_rand = (\<lambda>n. []), env_faults = (\<lambda>n. None), env_shuffle = (\<lambda>n ks. ks),
      rfc3339 = dec_int, parse_rfc3339 = (\<lambda>s. map_option int (parse_unsigned (2 ^ 63) s)),
      ymd = dec_int, civil_month = (\<lambda>t. (1970, 0)),
      blake3 = pad32, sha3_256 = pad32, sha2_256 = pad32,
      json_to_vec = (\<lambda>j. []), json_from_slice = (\<lambda>b. Inr JNull), serde_error = (\<lambda>ty j. ty),
      bincode = (\<lambda>j. Inr []), bech32m = (\<lambda>h d. Inr h), bech32_decode = (\<lambda>s. Inl s),
      utf8_lossy = map (\<lambda>b. char_of (unat b)), fmt_f64_cents = dec_int,
      sign_hybrid = (\<lambda>k m. Inr m), verify_hybrid = (\<lambda>sig ed falcon m. Inr (sig = m)),
      base64 = (\<lambda>b. []), base64_decode = (\<lambda>s. Inl s),
      net_send = (\<lambda>n addr tls req. ConnectErr ''refused'')\<rparr>"

lemma length_pad32 [simp]: "length (pad32 x) = 32"
  by (simp add: pad32_def del: take_append)

lemma example_env_digests: "digests32 example_env"
  by (simp add: digests32_def example_env_def)

lemma example_env_no_faults: "no_faults example_env"
  by (simp add: no_faults_def example_env_def)

end
