(* ===== verification/Payment_Errors.thy ===== *)
theory Payment_Errors
  imports RustText
begin

text \<open>
  \<open>origin-payments/src/error.rs\<close>: the error type, its \<open>Display\<close> texts, the CLI exit
  codes and the machine-readable codes. The texts matter: the executor keeps the
  reason of a failed settlement only as its text and parses it again.
\<close>

text \<open>U+2014 in UTF-8.\<close>

definition emdash :: string where
  "emdash = [CHR 0xE2, CHR 0x80, CHR 0x94]"

datatype (plugins only: code size) error =
    OrderAlreadyExists string
  | OrderNotFound string
  | EventNotFound string
  | StoreCorrupted string
  | AlreadyInitialized string
  | InvalidTransition string string
  | IdentityNotFound
  | SignatureFailed string
  | Unsigned string
  | WalletErr string
  | TwofaNotConfigured
  | TwofaInvalid
  | TwofaRequired
  | CustodyError string
  | InvalidAmount string
  | JournalNotBalanced string
  | RailUnavailable string string
  | ReceiptVerificationFailed string
  | RailNotConfigured string string
  | PolicyRefused string
  | SettlementFileInvalid string string
  | SettlementStampMismatch string
  | IoError string
  | CryptoError string
  | NotImplemented string string

primrec error_to_string :: "error \<Rightarrow> string" where
  "error_to_string (OrderAlreadyExists i) = ''Order already exists (idempotent replay): '' @ i"
| "error_to_string (OrderNotFound i) = ''Order not found: '' @ i"
| "error_to_string (EventNotFound i) = ''Event not found: '' @ i"
| "error_to_string (StoreCorrupted d) = ''Store corrupted: '' @ d"
| "error_to_string (AlreadyInitialized p) = ''Payments root already initialized: '' @ p"
| "error_to_string (InvalidTransition a b) = ''Invalid order status transition: '' @ a @ '' -> '' @ b"
| "error_to_string IdentityNotFound =
     ''No operator identity at ~/.origin/identity.seed '' @ emdash @ '' run origin-identity keygen first''"
| "error_to_string (SignatureFailed d) = ''Signature failed: '' @ d"
| "error_to_string (Unsigned i) = ''Order is unsigned: '' @ i"
| "error_to_string (WalletErr d) = ''Wallet error: '' @ d"
| "error_to_string TwofaNotConfigured =
     ''TOTP 2FA is not configured '' @ emdash @ '' run `admin-2fa init` first''"
| "error_to_string TwofaInvalid = ''TOTP 2FA code invalid or expired''"
| "error_to_string TwofaRequired = ''Operator 2FA required for this admin command (--totp <code>)''"
| "error_to_string (CustodyError d) = ''Custody operation failed: '' @ d"
| "error_to_string (InvalidAmount a) =
     ''Invalid amount: '' @ a @ '' (expected a decimal string, e.g. '' @ [CHR 0x22] @ ''3.15'' @ [CHR 0x22]
       @ '', max 2 decimals)''"
| "error_to_string (JournalNotBalanced d) = ''Journal batch not balanced (sum != 0): '' @ d"
| "error_to_string (RailUnavailable r d) = ''Rail unavailable: '' @ r @ '' '' @ emdash @ '' '' @ d"
| "error_to_string (ReceiptVerificationFailed d) = ''Receipt verification failed: '' @ d"
| "error_to_string (RailNotConfigured r d) =
     ''Rail not enabled/configured: '' @ r @ '' '' @ emdash @ '' '' @ d"
| "error_to_string (PolicyRefused d) = ''Policy refused: '' @ d"
| "error_to_string (SettlementFileInvalid p d) =
     ''Settlement file invalid: '' @ p @ '' '' @ emdash @ '' '' @ d"
| "error_to_string (SettlementStampMismatch p) = ''Settlement file provenance stamp mismatch: '' @ p"
| "error_to_string (IoError d) = ''I/O error: '' @ d"
| "error_to_string (CryptoError d) = ''Crypto error: '' @ d"
| "error_to_string (NotImplemented ph f) =
     ''Feature not yet implemented (design phase '' @ ph @ ''): '' @ f"

primrec exit_code :: "error \<Rightarrow> int" where
  "exit_code (OrderAlreadyExists a) = 2"
| "exit_code (AlreadyInitialized a) = 2"
| "exit_code IdentityNotFound = 2"
| "exit_code TwofaNotConfigured = 2"
| "exit_code TwofaInvalid = 2"
| "exit_code TwofaRequired = 2"
| "exit_code (OrderNotFound a) = 3"
| "exit_code (EventNotFound a) = 3"
| "exit_code (SettlementFileInvalid a b) = 3"
| "exit_code (SettlementStampMismatch a) = 3"
| "exit_code (InvalidTransition a b) = 4"
| "exit_code (InvalidAmount a) = 4"
| "exit_code (JournalNotBalanced a) = 4"
| "exit_code (RailUnavailable a b) = 4"
| "exit_code (ReceiptVerificationFailed a) = 4"
| "exit_code (SignatureFailed a) = 4"
| "exit_code (Unsigned a) = 4"
| "exit_code (RailNotConfigured a b) = 4"
| "exit_code (PolicyRefused a) = 4"
| "exit_code (StoreCorrupted a) = 1"
| "exit_code (IoError a) = 1"
| "exit_code (CryptoError a) = 1"
| "exit_code (WalletErr a) = 1"
| "exit_code (CustodyError a) = 1"
| "exit_code (NotImplemented a b) = 1"

primrec error_code :: "error \<Rightarrow> string" where
  "error_code (OrderAlreadyExists a) = ''ORDER_ALREADY_EXISTS''"
| "error_code (OrderNotFound a) = ''ORDER_NOT_FOUND''"
| "error_code (EventNotFound a) = ''EVENT_NOT_FOUND''"
| "error_code (StoreCorrupted a) = ''STORE_CORRUPTED''"
| "error_code (AlreadyInitialized a) = ''ALREADY_INITIALIZED''"
| "error_code (InvalidTransition a b) = ''INVALID_TRANSITION''"
| "error_code IdentityNotFound = ''IDENTITY_NOT_FOUND''"
| "error_code (SignatureFailed a) = ''SIGNATURE_FAILED''"
| "error_code (Unsigned a) = ''UNSIGNED''"
| "error_code (WalletErr a) = ''WALLET_ERROR''"
| "error_code TwofaNotConfigured = ''TWOFACTOR_NOT_CONFIGURED''"
| "error_code TwofaInvalid = ''TWOFACTOR_INVALID''"
| "error_code TwofaRequired = ''TWOFACTOR_REQUIRED''"
| "error_code (CustodyError a) = ''CUSTODY_ERROR''"
| "error_code (InvalidAmount a) = ''INVALID_AMOUNT''"
| "error_code (JournalNotBalanced a) = ''JOURNAL_NOT_BALANCED''"
| "error_code (RailUnavailable a b) = ''RAIL_UNAVAILABLE''"
| "error_code (RailNotConfigured a b) = ''RAIL_NOT_CONFIGURED''"
| "error_code (PolicyRefused a) = ''POLICY_REFUSED''"
| "error_code (ReceiptVerificationFailed a) = ''RECEIPT_VERIFICATION_FAILED''"
| "error_code (SettlementFileInvalid a b) = ''SETTLEMENT_FILE_INVALID''"
| "error_code (SettlementStampMismatch a) = ''SETTLEMENT_STAMP_MISMATCH''"
| "error_code (IoError a) = ''IO_ERROR''"
| "error_code (CryptoError a) = ''CRYPTO_ERROR''"
| "error_code (NotImplemented a b) = ''NOT_IMPLEMENTED''"

end
