(* ===== verification/Money.thy ===== *)
theory Money
  imports Payment_Errors
begin

text \<open>
  The decimal arithmetic of \<open>origin-payments/src/journal.rs\<close>: amounts and FX rates are
  decimal strings, parsed into integers of minor units. The integers are \<open>i128\<close>; the
  release build wraps, which the model writes out with \<open>i128\<close>.
\<close>

definition AMOUNT_SCALE :: nat where
  "AMOUNT_SCALE = 2"

definition RATE_SCALE :: nat where
  "RATE_SCALE = 6"

text \<open>\<open>str::parse::<i128>\<close> on a string of ASCII digits.\<close>

definition parse_i128_digits :: "string \<Rightarrow> int option" where
  "parse_i128_digits s =
     (if s \<noteq> [] \<and> list_all is_digit s \<and> int (digits_val s) < 2 ^ 127
      then Some (int (digits_val s)) else None)"

text \<open>The arithmetic at the end of \<open>parse_decimal\<close>; \<open>s\<close> is the text of the error.\<close>

definition decimal_minor :: "string \<Rightarrow> nat \<Rightarrow> bool \<Rightarrow> string \<Rightarrow> string \<Rightarrow> error + int" where
  "decimal_minor s scale neg whole frac =
     (case parse_i128_digits whole of None \<Rightarrow> Inl (InvalidAmount s)
      | Some whole_val \<Rightarrow>
          (case (if frac = [] then Some 0 else parse_i128_digits frac) of None \<Rightarrow> Inl (InvalidAmount s)
           | Some frac_val \<Rightarrow>
               let padded = i128 (frac_val * 10 ^ (scale - length frac));
                   minor = i128 (i128 (whole_val * 10 ^ scale) + padded)
               in Inr (if neg then i128 (- minor) else minor)))"

definition parse_decimal_digits :: "string \<Rightarrow> nat \<Rightarrow> bool \<Rightarrow> string \<Rightarrow> error + int" where
  "parse_decimal_digits s scale neg digits =
     (case split_on (CHR ''.'') digits of
        [whole] \<Rightarrow>
          (if whole = [] \<or> \<not> list_all is_digit whole then Inl (InvalidAmount s)
           else decimal_minor s scale neg whole [])
      | [whole, frac] \<Rightarrow>
          (if whole = [] \<or> \<not> list_all is_digit whole then Inl (InvalidAmount s)
           else if frac = [] \<or> scale < length frac \<or> \<not> list_all is_digit frac
           then Inl (InvalidAmount s)
           else decimal_minor s scale neg whole frac)
      | _ \<Rightarrow> Inl (InvalidAmount s))"

definition parse_decimal :: "string \<Rightarrow> nat \<Rightarrow> error + int" where
  "parse_decimal s0 scale =
     (let s = trim s0
      in if s = [] then Inl (InvalidAmount s)
         else case strip_prefix ''-'' s of
            Some r \<Rightarrow> parse_decimal_digits s scale True r
          | None \<Rightarrow> parse_decimal_digits s scale False s)"

definition parse_amount :: "string \<Rightarrow> error + int" where
  "parse_amount s = parse_decimal s AMOUNT_SCALE"

definition parse_rate :: "string \<Rightarrow> error + int" where
  "parse_rate s = parse_decimal s RATE_SCALE"

text \<open>\<open>unsigned_abs\<close> is exact on \<open>i128\<close>; \<open>{:02}\<close> pads to two digits.\<close>

definition pad2 :: "nat \<Rightarrow> string" where
  "pad2 n = (if n < 10 then ''0'' @ dec n else dec n)"

definition fmt_amount :: "int \<Rightarrow> string" where
  "fmt_amount minor =
     (let a = nat \<bar>minor\<bar>
      in (if minor < 0 then ''-'' else []) @ dec (a div 100) @ ''.'' @ pad2 (a mod 100))"

section \<open>What is accepted\<close>

text \<open>The accepted shape: an optional minus sign, digits, and optionally a dot and digits.\<close>

definition decimal_form :: "bool \<Rightarrow> string \<Rightarrow> string \<Rightarrow> string" where
  "decimal_form neg w f =
     (if neg then ''-'' else []) @ w @ (if f = [] then [] else CHR ''.'' # f)"

definition decimal_value :: "nat \<Rightarrow> bool \<Rightarrow> string \<Rightarrow> string \<Rightarrow> int" where
  "decimal_value k neg w f =
     (let m = int (digits_val w) * 10 ^ k + int (digits_val f) * 10 ^ (k - length f)
      in if neg then - m else m)"

lemma split_decimal:
  "list_all is_digit w \<Longrightarrow> list_all is_digit f \<Longrightarrow> split_on (CHR ''.'') (w @ CHR ''.'' # f) = [w, f]"
  by (simp add: split_on_one split_on_none digits_no_char)

lemma decimal_minor_eq:
  assumes "w \<noteq> []" "list_all is_digit w" "list_all is_digit f"
    and "int (digits_val w) < 2 ^ 127" "int (digits_val f) < 2 ^ 127"
  shows "decimal_minor s k neg w f = Inr (i128 (decimal_value k neg w f))"
proof -
  have "decimal_minor s k neg w f =
     Inr (let m = i128 (i128 (int (digits_val w) * 10 ^ k)
                + i128 (int (digits_val f) * 10 ^ (k - length f)))
          in if neg then i128 (- m) else m)"
    using assms by (simp add: decimal_minor_def parse_i128_digits_def Let_def)
  then show ?thesis
    by (simp only: i128_add_left i128_add_right i128_minus decimal_value_def Let_def if_distrib
        [of i128, symmetric])
qed

lemma parse_decimal_digits_iff:
  "parse_decimal_digits s k neg d = Inr v \<longleftrightarrow>
     (\<exists>w f. d = decimal_form False w f \<and> w \<noteq> [] \<and> list_all is_digit w
        \<and> list_all is_digit f \<and> length f \<le> k
        \<and> int (digits_val w) < 2 ^ 127 \<and> int (digits_val f) < 2 ^ 127
        \<and> v = i128 (decimal_value k neg w f))" (is "?l \<longleftrightarrow> ?r")
proof
  assume l: ?l
  obtain w ps where ps: "split_on (CHR ''.'') d = w # ps"
    by (cases "split_on (CHR ''.'') d") auto
  with join_split_on [of "CHR ''.''" d] have d: "d = join ''.'' (w # ps)" by simp
  from l ps obtain f where f: "decimal_minor s k neg w f = Inr v" "w \<noteq> []" "list_all is_digit w"
      "list_all is_digit f" "length f \<le> k" "ps = [] \<and> f = [] \<or> ps = [f] \<and> f \<noteq> []"
    by (auto simp: parse_decimal_digits_def split: list.splits if_splits)
  from f have b: "int (digits_val w) < 2 ^ 127" "int (digits_val f) < 2 ^ 127"
    by (auto simp: decimal_minor_def parse_i128_digits_def split: if_splits)
  with f have "v = i128 (decimal_value k neg w f)"
    by (simp add: decimal_minor_eq)
  moreover from f d have "d = decimal_form False w f"
    by (auto simp: decimal_form_def)
  ultimately show ?r using f b by blast
next
  assume ?r
  then show ?l
    by (auto simp: parse_decimal_digits_def decimal_form_def decimal_minor_eq split_on_none
        digits_no_char split_decimal)
qed

lemma decimal_form_neg: "decimal_form True w f = CHR ''-'' # decimal_form False w f"
  by (simp add: decimal_form_def)

lemma strip_minus_form:
  "w \<noteq> [] \<Longrightarrow> list_all is_digit w \<Longrightarrow> strip_prefix ''-'' (decimal_form False w f) = None"
  by (cases w) (auto simp: strip_prefix_def decimal_form_def)

lemma parse_decimal_accepts:
  "parse_decimal s k = Inr v \<longleftrightarrow>
     (\<exists>neg w f. trim s = decimal_form neg w f \<and> w \<noteq> [] \<and> list_all is_digit w
        \<and> list_all is_digit f \<and> length f \<le> k
        \<and> int (digits_val w) < 2 ^ 127 \<and> int (digits_val f) < 2 ^ 127
        \<and> v = i128 (decimal_value k neg w f))"
proof (cases "strip_prefix ''-'' (trim s)")
  case None
  then have "trim s \<noteq> decimal_form True w f" for w f
    by (auto simp: strip_prefix_def decimal_form_neg)
  with None show ?thesis
    by (auto simp: parse_decimal_def Let_def parse_decimal_digits_iff ex_bool_eq decimal_form_def)
next
  case (Some d)
  then have "trim s = CHR ''-'' # d" by (simp add: strip_prefix_Some)
  moreover from this have "trim s \<noteq> decimal_form False w f" if "w \<noteq> []" "list_all is_digit w" for w f
    using Some strip_minus_form [OF that, of f] by auto
  ultimately show ?thesis
    using Some by (auto simp: parse_decimal_def Let_def parse_decimal_digits_iff ex_bool_eq decimal_form_neg)
qed

lemma parse_decimal_form:
  assumes "trim s = decimal_form neg w f" "w \<noteq> []" "list_all is_digit w"
    and "list_all is_digit f" "length f \<le> k"
    and "int (digits_val w) < 2 ^ 127" "int (digits_val f) < 2 ^ 127"
  shows "parse_decimal s k = Inr (i128 (decimal_value k neg w f))"
  unfolding parse_decimal_accepts using assms by blast

text \<open>
  C29: the exact language and value of the decimal parser. It accepts the trimmed strings of
  an optional minus sign, at least one digit, and optionally a dot followed by one to
  \<open>k\<close> digits, with whole and fraction in the \<open>i128\<close> range; the result is the
  exact value in units of \<open>10 ^ -k\<close>, reduced to 128 bits.
\<close>

theorem parse_decimal_iff:
  "parse_decimal s k = Inr v \<longleftrightarrow>
     (\<exists>neg w f. trim s = decimal_form neg w f \<and> w \<noteq> [] \<and> list_all is_digit w
        \<and> list_all is_digit f \<and> length f \<le> k
        \<and> int (digits_val w) < 2 ^ 127 \<and> int (digits_val f) < 2 ^ 127
        \<and> v = i128 (decimal_value k neg w f))"
  by (rule parse_decimal_accepts)

section \<open>Parsing what is printed\<close>

lemma dec_two_digits: "10 \<le> n \<Longrightarrow> n < 100 \<Longrightarrow> dec n = [digit_char (n div 10), digit_char (n mod 10)]"
  by (simp add: dec.simps [of n] dec.simps [of "n div 10"])

lemma pad2_props:
  assumes "n < 100"
  shows "length (pad2 n) = 2" and "list_all is_digit (pad2 n)" and "digits_val (pad2 n) = n"
proof -
  have z: "is_digit (CHR ''0'')" "digit_val (CHR ''0'') = 0"
    by (simp_all add: is_digit_def digit_val_def)
  have "length (pad2 n) = 2 \<and> list_all is_digit (pad2 n) \<and> digits_val (pad2 n) = n"
  proof (cases "n < 10")
    case True
    then show ?thesis
      using z by (simp add: pad2_def dec.simps [of n] digits_val_def)
  next
    case False
    with assms show ?thesis
      by (simp add: pad2_def dec_two_digits digits_val_def)
  qed
  then show "length (pad2 n) = 2" "list_all is_digit (pad2 n)" "digits_val (pad2 n) = n"
    by auto
qed

lemma trim_decimal:
  assumes "w \<noteq> []" "list_all is_digit w" "f \<noteq> []" "list_all is_digit f"
    and sg: "sg = [] \<or> sg = ''-''"
  shows "trim (sg @ w @ ''.'' @ f) = sg @ w @ ''.'' @ f"
proof (rule trim_graphic)
  show "sg @ w @ ''.'' @ f \<noteq> []" by simp
  have "graphic (hd w)" "graphic (last f)"
    using assms by (auto intro!: digit_graphic simp: list_all_iff)
  moreover have "graphic (CHR ''-'')" by (simp add: graphic_def)
  ultimately show "graphic (hd (sg @ w @ ''.'' @ f))" "graphic (last (sg @ w @ ''.'' @ f))"
    using sg assms by auto
qed

lemma div_mod_100: "int (n div 100) * 100 + int (n mod 100) = int n"
  by (metis div_mult_mod_eq of_nat_add of_nat_mult of_nat_numeral)

lemma div_mod_100_bounds:
  assumes "int n \<le> 2 ^ 127"
  shows "int (n div 100) < 2 ^ 127" and "int (n mod 100) < 2 ^ 127"
proof -
  have "int n div 100 \<le> 2 ^ 127 div 100"
    using assms by (rule zdiv_mono1) simp
  then show "int (n div 100) < 2 ^ 127" by (simp add: zdiv_int)
  have "int (n mod 100) < 100" by simp
  then show "int (n mod 100) < 2 ^ 127" by (rule less_trans) simp
qed

lemma parse_amount_fmt [simp]:
  assumes "in_i128 m"
  shows "parse_amount (fmt_amount m) = Inr m"
proof -
  define a where "a = nat \<bar>m\<bar>"
  have a: "int a \<le> 2 ^ 127" using assms by (auto simp: a_def in_i128_def)
  let ?w = "dec (a div 100)" and ?f = "pad2 (a mod 100)"
  note f = pad2_props [of "a mod 100"]
  then have f_ne: "?f \<noteq> []" by auto
  have "fmt_amount m = decimal_form (m < 0) ?w ?f"
    using f_ne by (simp add: fmt_amount_def a_def Let_def decimal_form_def)
  moreover have "trim (decimal_form (m < 0) ?w ?f) = decimal_form (m < 0) ?w ?f"
    using trim_decimal [of ?w ?f "if m < 0 then ''-'' else []"] f f_ne by (simp add: decimal_form_def)
  moreover have dm: "int (a div 100) * 100 + int (a mod 100) = int a"
    by (rule div_mod_100)
  ultimately have "parse_amount (fmt_amount m) = Inr (i128 (decimal_value 2 (m < 0) ?w ?f))"
    unfolding parse_amount_def AMOUNT_SCALE_def
    using f div_mod_100_bounds [OF a] by (intro parse_decimal_form) (simp_all del: of_nat_less_iff)
  moreover have "decimal_value 2 (m < 0) ?w ?f = m"
    using f dm by (simp add: decimal_value_def Let_def a_def)
  ultimately show ?thesis using assms by simp
qed

text \<open>
  printing a minor-unit amount and parsing it back gives the same amount, for every
  value of the \<open>i128\<close> range, the least one included.
\<close>

theorem parse_fmt_amount: "in_i128 m \<Longrightarrow> parse_amount (fmt_amount m) = Inr m"
  by (rule parse_amount_fmt)

theorem parse_fmt_amount_witness:
  "in_i128 (-315) \<and> parse_amount (fmt_amount (-315)) = Inr (-315)"
  using parse_fmt_amount [of "-315"] by (simp add: in_i128_def)

end
