(* ===== verification/Orders.thy ===== *)
theory Orders
  imports Environment Money
begin

text \<open>
  \<open>origin-payments/src/rails.rs\<close>, \<open>event.rs\<close> and \<open>identity.rs\<close>: rail hints and receipts,
  payment orders with their status machine, payment events with the rolled-up status,
  and the hybrid signatures over them. A method with \<open>&mut self\<close> returns the new value.
\<close>

section \<open>Rails\<close>

datatype rail_hint = Native | Http402 | Card | Ach

definition rail_as_str :: "rail_hint \<Rightarrow> string" where
  "rail_as_str r = (case r of Native \<Rightarrow> ''native'' | Http402 \<Rightarrow> ''http402'' | Card \<Rightarrow> ''card'' | Ach \<Rightarrow> ''ach'')"

definition rail_from_str :: "string \<Rightarrow> string + rail_hint" where
  "rail_from_str s =
     (if s = ''native'' then Inr Native
      else if s = ''http402'' then Inr Http402
      else if s = ''card'' then Inr Card
      else if s = ''ach'' then Inr Ach
      else Inl (''unknown rail hint: '' @ s @ '' (expected native|http402|card|ach)''))"

datatype rail_receipt =
    NativeReceipt bytes
  | Http402Receipt bytes
  | CardAcpReceipt string string bytes
  | AchReceipt string bytes

text \<open>U+2022 four times.\<close>

definition bullets :: string where
  "bullets = concat (replicate 4 [CHR 0xE2, CHR 0x80, CHR 0xA2])"

definition receipt_summary :: "rail_receipt \<Rightarrow> string" where
  "receipt_summary r = (case r of
       NativeReceipt b \<Rightarrow> ''native (ledger entry, '' @ dec (length b) @ '' bytes)''
     | Http402Receipt b \<Rightarrow> ''http402 (receipt, '' @ dec (length b) @ '' bytes)''
     | CardAcpReceipt network last4 b \<Rightarrow> ''card '' @ network @ '' '' @ bullets @ '' '' @ last4
     | AchReceipt reference b \<Rightarrow> ''ach (ref: '' @ reference @ '')'')"

section \<open>Orders\<close>

datatype event_status = Received | Split | AllSettled | Partial
datatype order_direction = Payment | Payout
datatype order_status = NotStarted | Executing | Success | Failed | RequiresAction

definition direction_str :: "order_direction \<Rightarrow> string" where
  "direction_str d = (case d of Payment \<Rightarrow> ''payment'' | Payout \<Rightarrow> ''payout'')"

definition status_str :: "order_status \<Rightarrow> string" where
  "status_str st = (case st of NotStarted \<Rightarrow> ''NOT_STARTED'' | Executing \<Rightarrow> ''EXECUTING''
     | Success \<Rightarrow> ''SUCCESS'' | Failed \<Rightarrow> ''FAILED'' | RequiresAction \<Rightarrow> ''REQUIRES_ACTION'')"

definition can_transition :: "order_status \<Rightarrow> order_status \<Rightarrow> bool" where
  "can_transition from to = (case from of
       NotStarted \<Rightarrow> to \<in> {Executing, Failed, RequiresAction}
     | Executing \<Rightarrow> to \<in> {Success, Failed, RequiresAction, NotStarted}
     | RequiresAction \<Rightarrow> to \<in> {Executing, Failed, NotStarted}
     | Failed \<Rightarrow> to \<in> {Executing, NotStarted}
     | Success \<Rightarrow> False)"

definition is_terminal :: "order_status \<Rightarrow> bool" where
  "is_terminal st \<longleftrightarrow> st = Success"

record fx_rate =
  fx_from :: string
  fx_to :: string
  fx_rate_str :: string
  fx_markup_bps :: nat

record order_signer =
  sg_ed_pk :: bytes
  sg_falcon_pk :: bytes
  sg_domain :: string

record payment_order =
  po_version :: nat
  po_id :: string
  po_checkout :: string
  po_to :: string
  po_amount :: string
  po_currency :: string
  po_fx :: "fx_rate option"
  po_card_token :: "string option"
  po_card_network :: "string option"
  po_card_last4 :: "string option"
  po_rail :: "rail_hint option"
  po_direction :: order_direction
  po_status :: order_status
  po_ledger_updated :: bool
  po_wallet_updated :: bool
  po_attempts :: nat
  po_next_retry_at :: "string option"
  po_executing_since :: "string option"
  po_receipt :: "rail_receipt option"
  po_created_at :: string
  po_updated_at :: string
  po_signature :: "bytes option"
  po_signer :: "order_signer option"

definition order_new ::
  "env \<Rightarrow> string \<Rightarrow> string \<Rightarrow> string \<Rightarrow> string \<Rightarrow> ('c clock_scheme, 'f, payment_order) M" where
  "order_new E checkout to amount currency =
     bnd (now_rfc3339 E) (\<lambda>now. bnd (new_uuid E) (\<lambda>oid. ret
       \<lparr>po_version = 1, po_id = oid, po_checkout = checkout, po_to = to, po_amount = amount,
        po_currency = currency, po_fx = None, po_card_token = None, po_card_network = None,
        po_card_last4 = None, po_rail = None, po_direction = Payment, po_status = NotStarted,
        po_ledger_updated = False, po_wallet_updated = False, po_attempts = 0,
        po_next_retry_at = None, po_executing_since = None, po_receipt = None,
        po_created_at = now, po_updated_at = now, po_signature = None, po_signer = None\<rparr>))"

definition transition ::
  "env \<Rightarrow> order_status \<Rightarrow> payment_order \<Rightarrow> ('c clock_scheme, error, payment_order) M" where
  "transition E to ord =
     seqM (guard (can_transition (po_status ord) to)
       (InvalidTransition (status_str (po_status ord)) (status_str to)))
     (bnd (now_rfc3339 E) (\<lambda>now. ret (ord\<lparr>po_status := to, po_updated_at := now\<rparr>)))"

definition fx_signed :: "fx_rate \<Rightarrow> bytes" where
  "fx_signed fx = str_bytes (fx_from fx) @ str_bytes (fx_to fx) @ str_bytes (fx_rate_str fx) @
     le_bytes 4 (fx_markup_bps fx)"

definition signed_body :: "payment_order \<Rightarrow> bytes" where
  "signed_body ord =
     of_nat (po_version ord) # str_bytes (po_id ord) @ str_bytes (po_checkout ord) @
     str_bytes (po_to ord) @ str_bytes (po_amount ord) @ str_bytes (po_currency ord) @
     (case po_fx ord of Some fx \<Rightarrow> 1 # fx_signed fx | None \<Rightarrow> [0]) @
     (case po_rail ord of Some r \<Rightarrow> 1 # str_bytes (rail_as_str r) | None \<Rightarrow> [0])"

section \<open>Events\<close>

record payment_event =
  ev_version :: nat
  ev_id :: string
  ev_checkout :: string
  ev_buyer :: string
  ev_seller :: string
  ev_orders :: "payment_order list"
  ev_status :: event_status
  ev_created_at :: string
  ev_envelope :: "bytes option"
  ev_signature :: "bytes option"
  ev_signer :: "order_signer option"

definition rollup :: "payment_order list \<Rightarrow> event_status" where
  "rollup os =
     (if os = [] then Received
      else if list_all (\<lambda>x. po_status x = Success) os then AllSettled
      else if list_ex (\<lambda>x. po_status x \<in> {Failed, RequiresAction}) os then Partial
      else if list_ex (\<lambda>x. po_status x \<noteq> NotStarted) os then Split
      else Received)"

definition event_new ::
  "env \<Rightarrow> string \<Rightarrow> string \<Rightarrow> string \<Rightarrow> payment_order list \<Rightarrow> ('c clock_scheme, 'f, payment_event) M" where
  "event_new E checkout buyer seller os =
     bnd (new_uuid E) (\<lambda>eid. bnd (now_rfc3339 E) (\<lambda>now. ret
       \<lparr>ev_version = 1, ev_id = eid, ev_checkout = checkout, ev_buyer = buyer, ev_seller = seller,
        ev_orders = os, ev_status = Received, ev_created_at = now, ev_envelope = None,
        ev_signature = None, ev_signer = None\<rparr>))"

section \<open>Signatures\<close>

text \<open>The hybrid key bundle: its secret part is what \<open>sign_hybrid\<close> takes.\<close>

record operator_keys =
  ok_secret :: bytes
  ok_ed_pk :: bytes
  ok_falcon_pk :: bytes
  ok_envelope_key :: bytes

definition PAYMENTS_DOMAIN :: string where
  "PAYMENTS_DOMAIN = ''payments''"

definition signer_of :: "operator_keys \<Rightarrow> order_signer" where
  "signer_of K = \<lparr>sg_ed_pk = ok_ed_pk K, sg_falcon_pk = ok_falcon_pk K, sg_domain = PAYMENTS_DOMAIN\<rparr>"

definition sign_order :: "env \<Rightarrow> operator_keys \<Rightarrow> payment_order \<Rightarrow> error + payment_order" where
  "sign_order E K ord = (case sign_hybrid E (ok_secret K) (signed_body ord) of
       Inl e \<Rightarrow> Inl (CryptoError e)
     | Inr sig \<Rightarrow> Inr (ord\<lparr>po_signature := Some sig, po_signer := Some (signer_of K)\<rparr>))"

definition verify_order :: "env \<Rightarrow> payment_order \<Rightarrow> error + bool" where
  "verify_order E ord = (case po_signer ord of
       None \<Rightarrow> Inl (Unsigned (po_id ord))
     | Some sg \<Rightarrow> (case po_signature ord of
           None \<Rightarrow> Inl (Unsigned (po_id ord))
         | Some sig \<Rightarrow> (case verify_hybrid E sig (sg_ed_pk sg) (sg_falcon_pk sg) (signed_body ord) of
               Inl e \<Rightarrow> Inl (CryptoError (''decoding signature: '' @ e))
             | Inr b \<Rightarrow> Inr b)))"

definition hybrid_ok :: "env \<Rightarrow> operator_keys \<Rightarrow> bool" where
  "hybrid_ok E K \<longleftrightarrow> (\<forall>m sig. sign_hybrid E (ok_secret K) m = Inr sig \<longrightarrow>
     verify_hybrid E sig (ok_ed_pk K) (ok_falcon_pk K) m = Inr True)"

section \<open>The status machine\<close>

lemma transition_Inr: "transition E st x s = (Inr y, t) \<longleftrightarrow> can_transition (po_status x) st \<and>
    y = x\<lparr>po_status := st, po_updated_at := rfc3339 E (env_time E (n_time s))\<rparr> \<and>
    t = s\<lparr>n_time := n_time s + 1\<rparr>"
  by (auto simp: transition_def M_Inr)

lemma transition_Inl: "transition E st x s = (Inl e, t) \<longleftrightarrow> \<not> can_transition (po_status x) st \<and>
    e = Err (InvalidTransition (status_str (po_status x)) (status_str st)) \<and> t = s"
  by (auto simp: transition_def seqM_def bnd_def guard_def ret_def)

lemma transition_keeps [keeps_rules]:
  assumes "state_preorder R" "clock_ok R"
  shows "keeps R (transition E st x)"
  unfolding transition_def
  by (intro state_preorder.seqM_ok state_preorder.bnd_ok state_preorder.guard_ok state_preorder.ret_ok
      now_rfc3339_keeps assms)

text \<open>\<open>moves E x sts y\<close>: the successful transitions \<open>sts\<close>, in this order, lead from \<open>x\<close> to \<open>y\<close>.\<close>

inductive moves :: "env \<Rightarrow> payment_order \<Rightarrow> order_status list \<Rightarrow> payment_order \<Rightarrow> bool" for E where
  stay: "moves E x [] x"
| step: "moves E x sts y \<Longrightarrow> transition E st y (s :: clock) = (Inr z, t) \<Longrightarrow> moves E x (sts @ [st]) z"

inductive_cases moves_snocE: "moves E x (sts @ [st]) z"

lemma moves_status: "moves E x sts y \<Longrightarrow> po_status y = last (po_status x # sts)"
  by (induction rule: moves.induct) (auto simp: transition_Inr)

lemma can_transition_Success: "can_transition st Success \<longleftrightarrow> st = Executing"
  by (cases st) (auto simp: can_transition_def)

lemma moves_Success:
  assumes "moves E x sts y" "po_status x = NotStarted"
  shows "Success \<in> set sts \<Longrightarrow>
    po_status y = Success \<and> (\<exists>pre. sts = pre @ [Executing, Success] \<and> Success \<notin> set pre)"
  using assms
proof (induction rule: moves.induct)
  case (step x sts y st s z t)
  then have can: "can_transition (po_status y) st" and z: "po_status z = st"
    by (auto simp: transition_Inr)
  have no: "Success \<notin> set sts" using step can by (auto simp: can_transition_def)
  with step.prems(1) have st: "st = Success" by simp
  with can have "po_status y = Executing" by (simp add: can_transition_Success)
  then have "last (NotStarted # sts) = Executing"
    using moves_status [OF step.hyps(1)] step.prems(2) by simp
  then obtain pre where "sts = pre @ [Executing]"
    by (cases sts rule: rev_cases) (auto split: if_splits)
  with st z no show ?case by auto
qed simp

lemma moves_frame: "moves E x sts y \<Longrightarrow> y\<lparr>po_status := po_status x, po_updated_at := po_updated_at x\<rparr> = x"
  by (induction rule: moves.induct) (auto simp: transition_Inr)

section \<open>What a signature binds\<close>

lemma str_bytes_inj: "str_bytes a = str_bytes b \<longleftrightarrow> a = b"
proof -
  have "inj (\<lambda>c :: char. of_nat (of_char c) :: byte)"
  proof (rule injI)
    fix c d :: char
    assume "(of_nat (of_char c) :: byte) = of_nat (of_char d)"
    then have "unat (of_nat (of_char c) :: byte) = unat (of_nat (of_char d) :: byte)" by simp
    then show "c = d" by (simp add: unat_of_nat)
  qed
  then show ?thesis by (simp add: str_bytes_def inj_map_eq_map)
qed

lemma str_bytes_append: "str_bytes (a @ b) = str_bytes a @ str_bytes b"
  by (simp add: str_bytes_def)

lemma length_str_bytes [simp]: "length (str_bytes a) = length a"
  by (simp add: str_bytes_def)

lemma signed_body_shift:
  assumes "po_to x = r @ d"
  shows "signed_body (x\<lparr>po_to := r, po_amount := d @ po_amount x\<rparr>) = signed_body x"
  using assms by (simp add: signed_body_def str_bytes_append)

lemma verify_signed:
  "hybrid_ok E K \<Longrightarrow> sign_order E K x = Inr y \<Longrightarrow> signed_body z = signed_body x \<Longrightarrow>
   po_signature z = po_signature y \<Longrightarrow> po_signer z = po_signer y \<Longrightarrow> verify_order E z = Inr True"
  by (auto simp: sign_order_def verify_order_def hybrid_ok_def signer_of_def split: sum.splits)

lemma signed_body_sign: "sign_order E K x = Inr y \<Longrightarrow> signed_body y = signed_body x"
  by (auto simp: sign_order_def signed_body_def split: sum.splits)

section \<open>Properties\<close>

text \<open>
  Orders settle once. Along any sequence of legal transitions from \<open>NOT_STARTED\<close>,
  \<open>SUCCESS\<close> can only come directly after \<open>EXECUTING\<close>, nothing comes after it, and it
  comes at most once; the transitions change nothing of the order but its status and
  its update time.
\<close>

theorem order_settles_once:
  assumes "moves E x sts y" "po_status x = NotStarted" "Success \<in> set sts"
  shows "po_status y = Success \<and> (\<exists>pre. sts = pre @ [Executing, Success] \<and> Success \<notin> set pre) \<and>
    y\<lparr>po_status := po_status x, po_updated_at := po_updated_at x\<rparr> = x"
  using moves_Success [OF assms(1,2)] moves_frame [OF assms(1)] assms(3) by blast

definition example_order :: payment_order where
  "example_order = \<lparr>po_version = 1, po_id = ''o1'', po_checkout = ''c1'', po_to = ''acct7'', po_amount = ''5.00'',
     po_currency = ''USD'', po_fx = None, po_card_token = None, po_card_network = None,
     po_card_last4 = None, po_rail = None, po_direction = Payment, po_status = NotStarted,
     po_ledger_updated = False, po_wallet_updated = False, po_attempts = 0, po_next_retry_at = None,
     po_executing_since = None, po_receipt = None, po_created_at = ''0'', po_updated_at = ''0'',
     po_signature = None, po_signer = None\<rparr>"

definition example_clock :: clock where
  "example_clock = \<lparr>n_time = 0, n_uuid = 0, n_rand = 0, n_io = 0, n_net = 0\<rparr>"

lemma moves_step:
  "moves E x sts y \<Longrightarrow> can_transition (po_status y) st \<Longrightarrow>
   moves E x (sts @ [st]) (y\<lparr>po_status := st, po_updated_at := rfc3339 E (env_time E 0)\<rparr>)"
  by (rule moves.step [where s = example_clock]) (auto simp: transition_Inr example_clock_def)

theorem order_settles_once_witness:
  "\<exists>y. moves example_env example_order [Executing, RequiresAction, Executing, Success] y \<and>
     po_status y = Success"
proof -
  have "\<exists>y. moves example_env example_order ([] @ [Executing]) y \<and> po_status y = Executing"
    using moves_step [OF moves.stay, of example_order Executing example_env]
    by (auto simp: example_order_def can_transition_def)
  then have "\<exists>y. moves example_env example_order ([Executing] @ [RequiresAction]) y \<and> po_status y = RequiresAction"
    using moves_step [of example_env example_order "[Executing]" _ RequiresAction]
    by (fastforce simp: can_transition_def)
  then have "\<exists>y. moves example_env example_order ([Executing, RequiresAction] @ [Executing]) y \<and> po_status y = Executing"
    using moves_step [of example_env example_order "[Executing, RequiresAction]" _ Executing]
    by (fastforce simp: can_transition_def)
  then obtain y where y: "moves example_env example_order ([Executing, RequiresAction, Executing] @ [Success]) y"
    using moves_step [of example_env example_order "[Executing, RequiresAction, Executing]" _ Success]
    by (fastforce simp: can_transition_def)
  then have "po_status y = Success"
    using order_settles_once [OF y] by (simp add: example_order_def)
  with y show ?thesis by auto
qed

text \<open>
  C32: A signature made by \<open>sign_order\<close> verifies, and it also verifies after the tail of
  the payee is moved in front of the amount: \<open>signed_body\<close> concatenates its fields
  without separators, so a signed payment of 5.00 to "acct7" is a signed payment of
  75.00 to "acct".
\<close>

theorem signature_moves_payee_to_amount:
  assumes "hybrid_ok E K" "sign_order E K x = Inr y" "po_to x = r @ d"
  shows "verify_order E y = Inr True \<and>
    verify_order E (y\<lparr>po_to := r, po_amount := d @ po_amount y\<rparr>) = Inr True"
proof
  show "verify_order E y = Inr True" using assms(1,2) by (rule verify_signed) (simp_all add: signed_body_sign [OF assms(2)])
  have "po_to y = r @ d" using assms(2,3) by (auto simp: sign_order_def split: sum.splits)
  then have "signed_body (y\<lparr>po_to := r, po_amount := d @ po_amount y\<rparr>) = signed_body x"
    by (simp add: signed_body_shift signed_body_sign [OF assms(2)])
  then show "verify_order E (y\<lparr>po_to := r, po_amount := d @ po_amount y\<rparr>) = Inr True"
    by (rule verify_signed [OF assms(1,2)]) simp_all
qed

definition example_keys :: operator_keys where
  "example_keys = \<lparr>ok_secret = [1], ok_ed_pk = [2], ok_falcon_pk = [3], ok_envelope_key = [4]\<rparr>"

lemma example_hybrid_ok: "hybrid_ok example_env K"
  by (simp add: hybrid_ok_def example_env_def)

theorem signature_moves_payee_to_amount_witness:
  "\<exists>y. sign_order example_env example_keys example_order = Inr y \<and> verify_order example_env y = Inr True \<and>
     verify_order example_env (y\<lparr>po_to := ''acct'', po_amount := ''75.00''\<rparr>) = Inr True"
proof -
  obtain y where y: "sign_order example_env example_keys example_order = Inr y"
    by (simp add: sign_order_def example_env_def)
  then have "po_amount y = ''5.00''" by (auto simp: sign_order_def example_order_def split: sum.splits)
  with signature_moves_payee_to_amount [OF example_hybrid_ok y, of "''acct''" "''7''"] y show ?thesis
    by (auto simp: example_order_def)
qed

text \<open>
  For fields of fixed lengths the signature binds them: two orders whose order id,
  checkout, payee, amount and currency have the same lengths and whose signed bodies are
  equal agree on all five, and on whether they carry a currency conversion.
\<close>

theorem signed_body_binds:
  assumes "signed_body x = signed_body y"
    and "length (po_id x) = length (po_id y)" "length (po_checkout x) = length (po_checkout y)"
    and "length (po_to x) = length (po_to y)" "length (po_amount x) = length (po_amount y)"
    and "length (po_currency x) = length (po_currency y)"
  shows "po_id x = po_id y \<and> po_checkout x = po_checkout y \<and> po_to x = po_to y \<and>
    po_amount x = po_amount y \<and> po_currency x = po_currency y \<and> (po_fx x = None \<longleftrightarrow> po_fx y = None)"
  using assms by (auto simp: signed_body_def str_bytes_inj split: option.splits)

theorem signed_body_binds_witness:
  "po_id example_order = po_id (example_order\<lparr>po_status := Executing\<rparr>) \<and>
   po_amount example_order = po_amount (example_order\<lparr>po_status := Executing\<rparr>)"
  using signed_body_binds [of example_order "example_order\<lparr>po_status := Executing\<rparr>"]
  by (simp add: signed_body_def)

text \<open>
  The rolled-up status of an event says exactly what its orders say: settled iff
  there are orders and all succeeded; partial iff some order failed or awaits action;
  received iff no order was started (or there is none).
\<close>

theorem rollup_spec:
  "(rollup os = AllSettled \<longleftrightarrow> os \<noteq> [] \<and> (\<forall>x \<in> set os. po_status x = Success)) \<and>
   (rollup os = Partial \<longleftrightarrow> (\<exists>x \<in> set os. po_status x = Failed \<or> po_status x = RequiresAction)) \<and>
   (rollup os = Received \<longleftrightarrow> (\<forall>x \<in> set os. po_status x = NotStarted))"
  by (cases os) (auto simp: rollup_def list_all_iff list_ex_iff)

theorem rollup_spec_witness:
  "rollup [example_order, example_order\<lparr>po_status := Failed\<rparr>] = Partial \<and> rollup [example_order] = Received"
  using rollup_spec [of "[example_order, example_order\<lparr>po_status := Failed\<rparr>]"] rollup_spec [of "[example_order]"]
  by (simp add: example_order_def)

end
