(* ===== verification/Mmr.thy ===== *)
theory Mmr
  imports RustText "HOL-Library.Monad_Syntax"
begin

text \<open>
  \<open>origin-proof/src/mmr.rs\<close>: the Merkle mountain range that checkpoints reconciliation
  runs, deferred batches and wallet transactions. Nodes and proof steps are hex
  strings, as in the source. \<open>None\<close> is a panic (bad hex, a slice out of range, unequal
  heights); the invariant below shows that no state built by \<open>append_hash\<close> reaches one.
  BLAKE3 is the parameter \<open>H\<close>; \<open>hash32 H\<close> says that its digests have 32 bytes.
\<close>

section \<open>Model\<close>

record mountain =
  m_height :: nat
  m_nodes :: "string list"

record mmr_state =
  mmr_version :: nat
  mountains :: "mountain list"
  leaf_count :: nat

record auth_step =
  as_hash :: string
  as_is_left :: bool

record membership_proof =
  mp_leaf_index :: nat
  mp_leaf_count :: nat
  mp_leaf_hash :: string
  mp_auth_path :: "auth_step list"
  mp_peak_index :: nat
  mp_peaks :: "string list"
  mp_version :: nat

definition zeros32 :: bytes where
  "zeros32 = replicate 32 0"

definition decode_hash :: "string \<Rightarrow> bytes option" where
  "decode_hash s = do { b \<leftarrow> hex_decode s; if length b = 32 then Some b else None }"

definition NODE_DOMAIN :: bytes where
  "NODE_DOMAIN = str_bytes ''ORGN-MMR-NODE''"

definition parent_hash :: "(bytes \<Rightarrow> bytes) \<Rightarrow> bytes \<Rightarrow> bytes \<Rightarrow> bytes" where
  "parent_hash H a b = H (a @ b)"

definition parent_hash_v3 :: "(bytes \<Rightarrow> bytes) \<Rightarrow> bytes \<Rightarrow> bytes \<Rightarrow> bytes" where
  "parent_hash_v3 H a b = H (NODE_DOMAIN @ a @ b)"

definition node_hash_for :: "(bytes \<Rightarrow> bytes) \<Rightarrow> nat \<Rightarrow> bytes \<Rightarrow> bytes \<Rightarrow> bytes" where
  "node_hash_for H version a b =
     (if 3 \<le> version then parent_hash_v3 H a b else parent_hash H a b)"

definition mountain_leaf :: "bytes \<Rightarrow> mountain" where
  "mountain_leaf hash = \<lparr>m_height = 0, m_nodes = [hex_encode hash]\<rparr>"

definition peak :: "mountain \<Rightarrow> bytes option" where
  "peak m = (if m_nodes m = [] then None else decode_hash (last (m_nodes m)))"

definition level_offset :: "mountain \<Rightarrow> nat \<Rightarrow> nat" where
  "level_offset m l = 2 ^ (m_height m + 1) - 2 ^ (m_height m - l + 1)"

definition level_count :: "mountain \<Rightarrow> nat \<Rightarrow> nat" where
  "level_count m l = 2 ^ (m_height m - l)"

definition get_node :: "mountain \<Rightarrow> nat \<Rightarrow> nat \<Rightarrow> bytes option" where
  "get_node m level index =
     (let off = level_offset m level + index
      in if off < length (m_nodes m) then decode_hash (m_nodes m ! off) else None)"

definition slice :: "nat \<Rightarrow> nat \<Rightarrow> 'a list \<Rightarrow> 'a list option" where
  "slice lo hi xs = (if lo \<le> hi \<and> hi \<le> length xs then Some (take (hi - lo) (drop lo xs)) else None)"

fun merge_levels :: "mountain \<Rightarrow> mountain \<Rightarrow> nat list \<Rightarrow> string list option" where
  "merge_levels left right [] = Some []"
| "merge_levels left right (l # ls) = do {
     a \<leftarrow> slice (level_offset left l) (level_offset left l + level_count left l) (m_nodes left);
     b \<leftarrow> slice (level_offset right l) (level_offset right l + level_count right l) (m_nodes right);
     rest \<leftarrow> merge_levels left right ls;
     Some (a @ b @ rest) }"

definition merge_with :: "(bytes \<Rightarrow> bytes) \<Rightarrow> mountain \<Rightarrow> mountain \<Rightarrow> nat \<Rightarrow> mountain option" where
  "merge_with H left right version =
     (if m_height left \<noteq> m_height right then None
      else do {
        let h = m_height left + 1;
        ll \<leftarrow> slice 0 (level_count left 0) (m_nodes left);
        rl \<leftarrow> slice 0 (level_count right 0) (m_nodes right);
        inner \<leftarrow> merge_levels left right [1..<h];
        lp \<leftarrow> peak left;
        rp \<leftarrow> peak right;
        Some \<lparr>m_height = h,
              m_nodes = ll @ rl @ inner @ [hex_encode (node_hash_for H version lp rp)]\<rparr> })"

fun auth_steps :: "mountain \<Rightarrow> nat \<Rightarrow> nat \<Rightarrow> nat \<Rightarrow> (bytes \<times> bool) list option" where
  "auth_steps m 0 level idx = Some []"
| "auth_steps m (Suc n) level idx = do {
     sibling \<leftarrow> get_node m level (if even idx then idx + 1 else idx - 1);
     rest \<leftarrow> auth_steps m n (Suc level) (idx div 2);
     Some ((sibling, even idx) # rest) }"

definition auth_path :: "mountain \<Rightarrow> nat \<Rightarrow> (bytes \<times> (bytes \<times> bool) list) option" where
  "auth_path m leaf_index = do {
     leaf_hash \<leftarrow> get_node m 0 leaf_index;
     path \<leftarrow> auth_steps m (m_height m) 0 leaf_index;
     Some (leaf_hash, path) }"

definition mmr_new :: mmr_state where
  "mmr_new = \<lparr>mmr_version = 3, mountains = [], leaf_count = 0\<rparr>"

text \<open>The carry loop works from the end of the list; \<open>rms\<close> is the list reversed.\<close>

fun carry :: "(bytes \<Rightarrow> bytes) \<Rightarrow> nat \<Rightarrow> mountain list \<Rightarrow> mountain \<Rightarrow> mountain list option" where
  "carry H version [] m = Some [m]"
| "carry H version (last_m # rms) m =
     (if m_height last_m = m_height m
      then do { m' \<leftarrow> merge_with H last_m m version; carry H version rms m' }
      else Some (m # last_m # rms))"

definition append_hash :: "(bytes \<Rightarrow> bytes) \<Rightarrow> mmr_state \<Rightarrow> bytes \<Rightarrow> mmr_state option" where
  "append_hash H st leaf_hash = do {
     rms \<leftarrow> carry H (mmr_version st) (rev (mountains st)) (mountain_leaf leaf_hash);
     Some (st\<lparr>mountains := rev rms, leaf_count := leaf_count st + 1\<rparr>) }"

fun all_some :: "'a option list \<Rightarrow> 'a list option" where
  "all_some [] = Some []"
| "all_some (x # xs) = do { y \<leftarrow> x; ys \<leftarrow> all_some xs; Some (y # ys) }"

definition peaks :: "mmr_state \<Rightarrow> bytes list option" where
  "peaks st = all_some (map peak (mountains st))"

definition fold_peaks :: "(bytes \<Rightarrow> bytes) \<Rightarrow> nat \<Rightarrow> bytes list \<Rightarrow> bytes" where
  "fold_peaks H version ps =
     (case ps of [] \<Rightarrow> zeros32 | p # rest \<Rightarrow> foldl (node_hash_for H version) p rest)"

definition mmr_root :: "(bytes \<Rightarrow> bytes) \<Rightarrow> mmr_state \<Rightarrow> bytes option" where
  "mmr_root H st = do { ps \<leftarrow> peaks st; Some (fold_peaks H (mmr_version st) ps) }"

fun locate_in :: "mountain list \<Rightarrow> nat \<Rightarrow> nat \<Rightarrow> string + nat \<times> nat" where
  "locate_in [] mi remaining = Inl ''internal error: leaf not found in any mountain''"
| "locate_in (m # ms) mi remaining =
     (if remaining < 2 ^ m_height m then Inr (mi, remaining)
      else locate_in ms (Suc mi) (remaining - 2 ^ m_height m))"

definition locate_leaf :: "mmr_state \<Rightarrow> nat \<Rightarrow> string + nat \<times> nat" where
  "locate_leaf st leaf_index =
     (if leaf_count st \<le> leaf_index
      then Inl (''index '' @ dec leaf_index @ '' out of range ('' @ dec (leaf_count st) @ '' leaves)'')
      else locate_in (mountains st) 0 leaf_index)"

definition mmr_prove :: "mmr_state \<Rightarrow> nat \<Rightarrow> (string + membership_proof) option" where
  "mmr_prove st leaf_index =
     (case locate_leaf st leaf_index of
        Inl e \<Rightarrow> Some (Inl e)
      | Inr (mi, i) \<Rightarrow> do {
          (leaf_hash, path) \<leftarrow> auth_path (mountains st ! mi) i;
          ps \<leftarrow> peaks st;
          Some (Inr \<lparr>mp_leaf_index = leaf_index, mp_leaf_count = leaf_count st,
                mp_leaf_hash = hex_encode leaf_hash,
                mp_auth_path = map (\<lambda>(h, l). \<lparr>as_hash = hex_encode h, as_is_left = l\<rparr>) path,
                mp_peak_index = mi, mp_peaks = map hex_encode ps, mp_version = mmr_version st\<rparr>) })"

fun walk_path :: "(bytes \<Rightarrow> bytes) \<Rightarrow> nat \<Rightarrow> bytes \<Rightarrow> auth_step list \<Rightarrow> bytes option" where
  "walk_path H version current [] = Some current"
| "walk_path H version current (st # sts) = do {
     sibling \<leftarrow> decode_hash (as_hash st);
     walk_path H version
       (if as_is_left st then node_hash_for H version current sibling
        else node_hash_for H version sibling current) sts }"

definition verify_proof :: "(bytes \<Rightarrow> bytes) \<Rightarrow> membership_proof \<Rightarrow> bytes \<Rightarrow> bool option" where
  "verify_proof H pf expected_root = do {
     start \<leftarrow> decode_hash (mp_leaf_hash pf);
     current \<leftarrow> walk_path H (mp_version pf) start (mp_auth_path pf);
     if length (mp_peaks pf) \<le> mp_peak_index pf then Some False
     else do {
       ps \<leftarrow> all_some (map decode_hash (mp_peaks pf));
       Some (fold_peaks H (mp_version pf) (ps[mp_peak_index pf := current]) = expected_root) } }"

section \<open>The reference structure\<close>

text \<open>
  \<open>level f l ls\<close> is level \<open>l\<close> of the perfect tree over the leaves \<open>ls\<close>; \<open>tower\<close> is the
  bottom-up layout of its nodes.
\<close>

definition hash32 :: "(bytes \<Rightarrow> bytes) \<Rightarrow> bool" where
  "hash32 H \<longleftrightarrow> (\<forall>x. length (H x) = 32)"

fun pairup :: "('a \<Rightarrow> 'a \<Rightarrow> 'a) \<Rightarrow> 'a list \<Rightarrow> 'a list" where
  "pairup f (x # y # zs) = f x y # pairup f zs"
| "pairup f zs = []"

fun level :: "('a \<Rightarrow> 'a \<Rightarrow> 'a) \<Rightarrow> nat \<Rightarrow> 'a list \<Rightarrow> 'a list" where
  "level f 0 ls = ls"
| "level f (Suc n) ls = pairup f (level f n ls)"

definition tower :: "('a \<Rightarrow> 'a \<Rightarrow> 'a) \<Rightarrow> nat \<Rightarrow> 'a list \<Rightarrow> 'a list" where
  "tower f h ls = concat (map (\<lambda>l. level f l ls) [0..<Suc h])"

lemma length_pairup [simp]: "length (pairup f xs) = length xs div 2"
  by (induction f xs rule: pairup.induct) auto

lemma pairup_nth: "2 * j + 1 < length xs \<Longrightarrow> pairup f xs ! j = f (xs ! (2 * j)) (xs ! (2 * j + 1))"
proof (induction f xs arbitrary: j rule: pairup.induct)
  case (1 f x y zs)
  then show ?case by (cases j) auto
qed auto

lemma pairup_append: "even (length xs) \<Longrightarrow> pairup f (xs @ ys) = pairup f xs @ pairup f ys"
  by (induction f xs rule: pairup.induct) auto

lemma pairup_all: "(\<And>a b. P (f a b)) \<Longrightarrow> \<forall>x \<in> set (pairup f xs). P x"
  by (induction f xs rule: pairup.induct) auto

lemma level_all:
  assumes "\<And>a b. P (f a b)" and "\<forall>x \<in> set ls. P x"
  shows "\<forall>x \<in> set (level f l ls). P x"
proof (cases l)
  case (Suc k)
  show ?thesis unfolding Suc level.simps by (rule pairup_all) (rule assms(1))
qed (simp add: assms(2))

lemma length_level: "length ls = 2 ^ h \<Longrightarrow> l \<le> h \<Longrightarrow> length (level f l ls) = 2 ^ (h - l)"
proof (induction l)
  case (Suc l)
  then have "h - l = Suc (h - Suc l)" by simp
  with Suc show ?case by simp
qed simp

lemma level_append:
  "length xs = 2 ^ h \<Longrightarrow> length ys = 2 ^ h \<Longrightarrow> l \<le> h \<Longrightarrow>
   level f l (xs @ ys) = level f l xs @ level f l ys"
proof (induction l)
  case (Suc l)
  then have "h - l = Suc (h - Suc l)" by simp
  with Suc show ?case by (simp add: pairup_append length_level)
qed simp

lemma tower_prefix_length:
  assumes "length ls = 2 ^ h" "l \<le> Suc h"
  shows "length (concat (map (\<lambda>l. level f l ls) [0..<l])) + 2 ^ (Suc h - l) = 2 ^ Suc h"
  using assms(2)
proof (induction l)
  case (Suc l)
  then have "Suc h - l = Suc (h - l)" by simp
  with Suc assms(1) show ?case by (simp add: length_level)
qed simp

lemma tower_split:
  assumes "l \<le> h"
  shows "tower f h ls = concat (map (\<lambda>l. level f l ls) [0..<l]) @ level f l ls @
    concat (map (\<lambda>l. level f l ls) [Suc l..<Suc h])"
proof -
  have "[0..<Suc h] = [0..<l] @ l # [Suc l..<Suc h]"
    using assms upt_add_eq_append [of 0 l "Suc h - l"] by (simp add: upt_conv_Cons del: upt_Suc)
  then show ?thesis by (simp add: tower_def)
qed

section \<open>Well-formed mountains\<close>

definition mountain_ok :: "(bytes \<Rightarrow> bytes) \<Rightarrow> nat \<Rightarrow> mountain \<Rightarrow> bytes list \<Rightarrow> bool" where
  "mountain_ok H v m ls \<longleftrightarrow> length ls = 2 ^ m_height m \<and> (\<forall>x \<in> set ls. length x = 32) \<and>
     m_nodes m = map hex_encode (tower (node_hash_for H v) (m_height m) ls)"

lemma decode_hash_encode [simp]: "length b = 32 \<Longrightarrow> decode_hash (hex_encode b) = Some b"
  by (simp add: decode_hash_def hex_decode_encode)

lemma node_hash_len: "hash32 H \<Longrightarrow> length (node_hash_for H v a b) = 32"
  by (simp add: node_hash_for_def parent_hash_def parent_hash_v3_def hash32_def)

lemma mountain_leaf_ok: "length x = 32 \<Longrightarrow> mountain_ok H v (mountain_leaf x) [x]"
  by (simp add: mountain_ok_def mountain_leaf_def tower_def)

lemma level_at:
  assumes ok: "mountain_ok H v m ls" and l: "l \<le> m_height m"
  obtains xs ys where "m_nodes m = xs @ map hex_encode (level (node_hash_for H v) l ls) @ ys"
    and "length xs = level_offset m l"
proof
  let ?f = "node_hash_for H v" and ?h = "m_height m"
  let ?xs = "concat (map (\<lambda>l. level ?f l ls) [0..<l])"
  show "m_nodes m = map hex_encode ?xs @ map hex_encode (level ?f l ls) @
      map hex_encode (concat (map (\<lambda>l. level ?f l ls) [Suc l..<Suc ?h]))"
    using ok tower_split [OF l, of ?f ls] by (simp add: mountain_ok_def)
  have "length ?xs + 2 ^ (Suc ?h - l) = 2 ^ Suc ?h"
    using ok l by (intro tower_prefix_length) (auto simp: mountain_ok_def)
  then show "length (map hex_encode ?xs) = level_offset m l"
    using l by (simp add: level_offset_def Suc_diff_le)
qed

lemma level_len:
  "mountain_ok H v m ls \<Longrightarrow> l \<le> m_height m \<Longrightarrow>
   length (level (node_hash_for H v) l ls) = level_count m l"
  by (simp add: mountain_ok_def level_count_def length_level)

lemma slice_level:
  assumes "mountain_ok H v m ls" and "l \<le> m_height m"
  shows "slice (level_offset m l) (level_offset m l + level_count m l) (m_nodes m) =
    Some (map hex_encode (level (node_hash_for H v) l ls))"
  by (rule level_at [OF assms]) (simp add: slice_def level_len [OF assms, symmetric])

lemma level_32:
  assumes "hash32 H" "mountain_ok H v m ls" "x \<in> set (level (node_hash_for H v) l ls)"
  shows "length x = 32"
proof -
  have "\<forall>x \<in> set ls. length x = 32" using assms(2) by (simp add: mountain_ok_def)
  then have "\<forall>x \<in> set (level (node_hash_for H v) l ls). length x = 32"
    by (rule level_all [of "\<lambda>x. length x = 32", OF node_hash_len [OF assms(1)]])
  with assms(3) show ?thesis by blast
qed

lemma get_node_level:
  assumes hash: "hash32 H" and ok: "mountain_ok H v m ls" and l: "l \<le> m_height m"
    and "i < level_count m l"
  shows "get_node m l i = Some (level (node_hash_for H v) l ls ! i)"
proof -
  let ?lv = "level (node_hash_for H v) l ls"
  have i: "i < length ?lv" using assms by (simp add: level_len)
  then have "?lv ! i \<in> set ?lv" by (rule nth_mem)
  then have len: "length (?lv ! i) = 32" by (rule level_32 [OF hash ok])
  obtain xs ys where "m_nodes m = xs @ map hex_encode ?lv @ ys" "length xs = level_offset m l"
    by (rule level_at [OF ok l])
  with i len show ?thesis by (simp add: get_node_def Let_def nth_append)
qed

lemma peak_level:
  assumes hash: "hash32 H" and ok: "mountain_ok H v m ls"
  shows "peak m = Some (level (node_hash_for H v) (m_height m) ls ! 0)"
proof -
  let ?f = "node_hash_for H v" and ?h = "m_height m"
  have "length (level ?f ?h ls) = 1" using ok by (simp add: level_len level_count_def)
  then obtain p where p: "level ?f ?h ls = [p]" by (auto simp: length_Suc_conv)
  then have "p \<in> set (level ?f ?h ls)" by simp
  then have len: "length p = 32" by (rule level_32 [OF hash ok])
  have "m_nodes m = map hex_encode (concat (map (\<lambda>l. level ?f l ls) [0..<?h]) @ [p])"
    using ok p by (simp add: mountain_ok_def tower_def)
  with p len show ?thesis by (simp add: peak_def)
qed

lemma merge_levels_ok:
  assumes "mountain_ok H v l ls" "mountain_ok H v r rs" "m_height l = m_height r"
    and "\<forall>k \<in> set ks. k \<le> m_height l"
  shows "merge_levels l r ks =
    Some (map hex_encode (concat (map (\<lambda>k. level (node_hash_for H v) k (ls @ rs)) ks)))"
  using assms(4)
proof (induction ks)
  case (Cons k ks)
  have "level (node_hash_for H v) k (ls @ rs) =
      level (node_hash_for H v) k ls @ level (node_hash_for H v) k rs"
    using assms Cons.prems by (intro level_append [of _ "m_height l"]) (auto simp: mountain_ok_def)
  with Cons assms show ?case by (simp add: slice_level [OF assms(1)] slice_level [OF assms(2)])
qed simp

lemma merge_with_ok:
  assumes hash: "hash32 H" and l: "mountain_ok H v l ls" and r: "mountain_ok H v r rs"
    and eq: "m_height l = m_height r"
  obtains m where "merge_with H l r v = Some m" "mountain_ok H v m (ls @ rs)"
    "m_height m = Suc (m_height l)"
proof
  let ?f = "node_hash_for H v" and ?h = "m_height l"
  let ?top = "?f (level ?f ?h ls ! 0) (level ?f ?h rs ! 0)"
  let ?m = "\<lparr>m_height = Suc ?h, m_nodes = map hex_encode (ls @ rs @
    concat (map (\<lambda>k. level ?f k (ls @ rs)) [1..<Suc ?h]) @ [?top])\<rparr>"
  have len: "length ls = 2 ^ ?h" "length rs = 2 ^ ?h" using l r eq by (auto simp: mountain_ok_def)
  have peaks: "peak l = Some (level ?f ?h ls ! 0)" "peak r = Some (level ?f ?h rs ! 0)"
    using peak_level [OF hash l] peak_level [OF hash r] eq by simp_all
  have bot: "slice 0 (level_count l 0) (m_nodes l) = Some (map hex_encode ls)"
    "slice 0 (level_count r 0) (m_nodes r) = Some (map hex_encode rs)"
    using slice_level [OF l, of 0] slice_level [OF r, of 0] by (simp_all add: level_offset_def)
  have inner: "merge_levels l r [1..<Suc ?h] =
      Some (map hex_encode (concat (map (\<lambda>k. level ?f k (ls @ rs)) [1..<Suc ?h])))"
    by (rule merge_levels_ok [OF l r eq]) auto
  show "merge_with H l r v = Some ?m"
    using eq peaks bot inner by (simp add: merge_with_def del: upt_Suc)
  show "m_height ?m = Suc ?h" by simp
  have "length (level ?f ?h ls) = 1" "length (level ?f ?h rs) = 1"
    using len by (simp_all add: length_level)
  then have "level ?f (Suc ?h) (ls @ rs) = [?top]"
    using level_append [OF len order_refl, of ?f] by (auto simp: length_Suc_conv)
  moreover have "[0..<Suc (Suc ?h)] = 0 # [1..<Suc ?h] @ [Suc ?h]"
    by (subst upt_conv_Cons) (simp_all only: upt_Suc, simp_all)
  ultimately have "tower ?f (Suc ?h) (ls @ rs) =
      ls @ rs @ concat (map (\<lambda>k. level ?f k (ls @ rs)) [1..<Suc ?h]) @ [?top]"
    by (simp only: tower_def list.map map_append concat.simps concat_append level.simps(1)
        append_assoc append_Nil2)
  then show "mountain_ok H v ?m (ls @ rs)"
    using l r len by (auto simp: mountain_ok_def simp del: level.simps(2))
qed

section \<open>The range as a list of leaves\<close>

text \<open>\<open>mmr_holds H st ls\<close>: the range \<open>st\<close> is well formed and its leaves, oldest first, are \<open>ls\<close>.\<close>

definition mmr_holds :: "(bytes \<Rightarrow> bytes) \<Rightarrow> mmr_state \<Rightarrow> bytes list \<Rightarrow> bool" where
  "mmr_holds H st ls \<longleftrightarrow> hash32 H \<and> leaf_count st = length ls \<and>
     sorted_wrt (>) (map m_height (mountains st)) \<and>
     (\<exists>lss. list_all2 (mountain_ok H (mmr_version st)) (mountains st) lss \<and> concat lss = ls)"

lemma mmr_new_holds: "hash32 H \<Longrightarrow> mmr_holds H mmr_new []"
  by (simp add: mmr_holds_def mmr_new_def)

lemma carry_ok:
  assumes "hash32 H" "mountain_ok H v m ls" "list_all2 (mountain_ok H v) rms rlss"
    and "sorted_wrt (<) (map m_height rms)" "\<forall>x \<in> set rms. m_height m \<le> m_height x"
  shows "\<exists>ms lss. carry H v rms m = Some ms \<and> list_all2 (mountain_ok H v) ms lss \<and>
    concat (rev lss) = concat (rev rlss) @ ls \<and> sorted_wrt (<) (map m_height ms)"
  using assms
proof (induction rms arbitrary: m ls rlss)
  case Nil
  then show ?case by (intro exI [of _ "[m]"] exI [of _ "[ls]"]) auto
next
  case (Cons a rms)
  then obtain as rest where rl: "rlss = as # rest" "mountain_ok H v a as"
    "list_all2 (mountain_ok H v) rms rest" by (auto simp: list_all2_Cons1)
  show ?case
  proof (cases "m_height a = m_height m")
    case True
    obtain m' where m': "merge_with H a m v = Some m'" "mountain_ok H v m' (as @ ls)"
      "m_height m' = Suc (m_height a)"
      using merge_with_ok [OF Cons.prems(1) rl(2) Cons.prems(2) True] by blast
    have "\<forall>x \<in> set rms. m_height m' \<le> m_height x"
      using Cons.prems(4) m'(3) by (auto simp: Suc_le_eq)
    from Cons.IH [OF Cons.prems(1) m'(2) rl(3) _ this] Cons.prems(4) m'(1) True rl(1)
    show ?thesis by auto
  next
    case False
    with Cons.prems have "m_height m < m_height a" by (simp add: le_neq_trans)
    with False Cons.prems rl show ?thesis
      by (intro exI [of _ "m # a # rms"] exI [of _ "ls # rlss"]) auto
  qed
qed

lemma append_hash_holds:
  assumes "mmr_holds H st ls" "length x = 32"
  obtains st' where "append_hash H st x = Some st'" "mmr_holds H st' (ls @ [x])"
    "mmr_version st' = mmr_version st"
proof -
  obtain lss where lss: "list_all2 (mountain_ok H (mmr_version st)) (mountains st) lss" "concat lss = ls"
    using assms by (auto simp: mmr_holds_def)
  have h: "hash32 H" and cnt: "leaf_count st = length ls"
    and srt: "sorted_wrt (<) (map m_height (rev (mountains st)))"
    using assms by (auto simp: mmr_holds_def rev_map [symmetric] sorted_wrt_rev)
  obtain ms lss' where c: "carry H (mmr_version st) (rev (mountains st)) (mountain_leaf x) = Some ms"
    "list_all2 (mountain_ok H (mmr_version st)) ms lss'" "concat (rev lss') = ls @ [x]"
    "sorted_wrt (<) (map m_height ms)"
    using carry_ok [OF h mountain_leaf_ok [OF assms(2)] _ srt, of "mmr_version st" "rev lss"] lss
    by (auto simp: mountain_leaf_def)
  show thesis
  proof (rule that)
    show "append_hash H st x = Some (st\<lparr>mountains := rev ms, leaf_count := leaf_count st + 1\<rparr>)"
      using c by (simp add: append_hash_def)
    show "mmr_holds H (st\<lparr>mountains := rev ms, leaf_count := leaf_count st + 1\<rparr>) (ls @ [x])"
      unfolding mmr_holds_def using c h cnt
      by (auto simp: rev_map [symmetric] sorted_wrt_rev intro!: exI [of _ "rev lss'"])
  qed simp
qed

section \<open>Proofs of membership\<close>

definition enc_step :: "bytes \<times> bool \<Rightarrow> auth_step" where
  "enc_step = (\<lambda>(h, l). \<lparr>as_hash = hex_encode h, as_is_left = l\<rparr>)"

lemma auth_steps_walk:
  assumes "hash32 H" "mountain_ok H v m ls" "l + n = m_height m" "idx < level_count m l"
  shows "\<exists>path. auth_steps m n l idx = Some path \<and>
    walk_path H v (level (node_hash_for H v) l ls ! idx) (map enc_step path) =
      Some (level (node_hash_for H v) (m_height m) ls ! 0)"
  using assms(3,4)
proof (induction n arbitrary: l idx)
  case 0
  then show ?case by (simp add: level_count_def)
next
  case (Suc n)
  let ?f = "node_hash_for H v" and ?sib = "if even idx then idx + 1 else idx - 1"
  have half: "level_count m l = 2 * level_count m (Suc l)"
    using Suc.prems by (simp add: level_count_def power_eq_if)
  then have sib: "?sib < level_count m l" and up: "idx div 2 < level_count m (Suc l)"
    using Suc.prems(2) by (auto elim!: evenE oddE)
  have node: "get_node m l ?sib = Some (level ?f l ls ! ?sib)"
    using Suc.prems sib by (intro get_node_level assms) auto
  have len: "length (level ?f l ls) = level_count m l"
    using Suc.prems by (intro level_len assms) auto
  then have "level ?f l ls ! ?sib \<in> set (level ?f l ls)" using sib by simp
  then have l32: "length (level ?f l ls ! ?sib) = 32" by (rule level_32 [OF assms(1,2)])
  have parent: "level ?f (Suc l) ls ! (idx div 2) =
      (if even idx then ?f (level ?f l ls ! idx) (level ?f l ls ! ?sib)
       else ?f (level ?f l ls ! ?sib) (level ?f l ls ! idx))"
    using Suc.prems(2) sib len half by (auto simp: pairup_nth elim!: evenE oddE)
  obtain path where "auth_steps m n (Suc l) (idx div 2) = Some path"
    "walk_path H v (level ?f (Suc l) ls ! (idx div 2)) (map enc_step path) =
      Some (level ?f (m_height m) ls ! 0)"
    using Suc.IH [of "Suc l" "idx div 2"] Suc.prems up by auto
  with node l32 parent show ?case by (auto simp: enc_step_def)
qed

lemma locate_in_ok:
  assumes "list_all2 (mountain_ok H v) ms lss" "i < length (concat lss)"
  shows "\<exists>j r. locate_in ms k i = Inr (k + j, r) \<and> j < length ms \<and>
    r < 2 ^ m_height (ms ! j) \<and> lss ! j ! r = concat lss ! i"
  using assms
proof (induction arbitrary: i k rule: list_all2_induct)
  case (Cons m ms ls lss)
  have len: "length ls = 2 ^ m_height m" using Cons.hyps(1) by (simp add: mountain_ok_def)
  show ?case
  proof (cases "i < 2 ^ m_height m")
    case True
    with len show ?thesis by (intro exI [of _ 0] exI [of _ i]) (simp add: nth_append)
  next
    case False
    with Cons.prems len have "i - 2 ^ m_height m < length (concat lss)" by simp
    from Cons.IH [OF this, of "Suc k"] obtain j r where
      "locate_in ms (Suc k) (i - 2 ^ m_height m) = Inr (Suc k + j, r)" "j < length ms"
      "r < 2 ^ m_height (ms ! j)" "lss ! j ! r = concat lss ! (i - 2 ^ m_height m)" by blast
    with False len show ?thesis
      by (intro exI [of _ "Suc j"] exI [of _ r]) (simp add: nth_append)
  qed
qed simp

lemma all_some_map: "(\<And>x. x \<in> set xs \<Longrightarrow> f x = Some (g x)) \<Longrightarrow> all_some (map f xs) = Some (map g xs)"
  by (induction xs) auto

lemma peaks_ok:
  assumes "hash32 H" "list_all2 (mountain_ok H v) ms lss"
  shows "all_some (map peak ms) =
    Some (map (\<lambda>(m, ls). level (node_hash_for H v) (m_height m) ls ! 0) (zip ms lss))"
  using assms(2)
  by (induction rule: list_all2_induct) (simp_all add: peak_level [OF assms(1)])

lemma peak_32:
  assumes "hash32 H" "mountain_ok H v m ls"
  shows "length (level (node_hash_for H v) (m_height m) ls ! 0) = 32"
proof -
  have "length (level (node_hash_for H v) (m_height m) ls) = 1"
    using level_len [OF assms(2), of "m_height m"] by (simp add: level_count_def)
  then have "level (node_hash_for H v) (m_height m) ls ! 0 \<in> set (level (node_hash_for H v) (m_height m) ls)"
    by (intro nth_mem) simp
  then show ?thesis by (rule level_32 [OF assms])
qed

lemma prove_holds:
  assumes holds: "mmr_holds H st ls" and i: "i < length ls"
  obtains pf r where "mmr_prove st i = Some (Inr pf)" "mmr_root H st = Some r"
    "mp_leaf_hash pf = hex_encode (ls ! i)" "verify_proof H pf r = Some True"
proof -
  let ?v = "mmr_version st" let ?f = "node_hash_for H ?v"
  obtain lss where h: "hash32 H" and cnt: "leaf_count st = length ls"
    and all: "list_all2 (mountain_ok H ?v) (mountains st) lss" and cc: "concat lss = ls"
    using holds by (auto simp: mmr_holds_def)
  define ps where "ps = map (\<lambda>(m, ls). level ?f (m_height m) ls ! 0) (zip (mountains st) lss)"
  have ps: "peaks st = Some ps" using peaks_ok [OF h all] by (simp add: peaks_def ps_def)
  obtain j r where loc: "locate_leaf st i = Inr (j, r)" "j < length (mountains st)"
    "r < 2 ^ m_height (mountains st ! j)" "lss ! j ! r = ls ! i"
    using locate_in_ok [OF all, of i 0] i cnt cc by (auto simp: locate_leaf_def)
  let ?m = "mountains st ! j"
  have len: "length lss = length (mountains st)" using all by (simp add: list_all2_lengthD)
  have mok: "mountain_ok H ?v ?m (lss ! j)" using all loc(2) by (simp add: list_all2_nthD)
  have leaf: "get_node ?m 0 r = Some (ls ! i)"
    using get_node_level [OF h mok, of 0 r] loc by (simp add: level_count_def)
  obtain path where path: "auth_steps ?m (m_height ?m) 0 r = Some path"
    "walk_path H ?v (ls ! i) (map enc_step path) = Some (ps ! j)"
    using auth_steps_walk [OF h mok, of 0 "m_height ?m" r] loc len
    by (auto simp: level_count_def ps_def)
  have ps32: "\<forall>x \<in> set ps. length x = 32"
    using all by (auto simp: ps_def set_zip list_all2_conv_all_nth intro!: peak_32 [OF h])
  have "\<forall>x \<in> set (lss ! j). length x = 32" "r < length (lss ! j)"
    using mok loc(3) by (auto simp: mountain_ok_def)
  then have "length (lss ! j ! r) = 32" by simp
  with loc(4) have l32: "length (ls ! i) = 32" by simp
  have dec: "all_some (map decode_hash (map hex_encode ps)) = Some ps"
    using all_some_map [of ps "decode_hash \<circ> hex_encode" id] ps32 by simp
  have j: "j < length ps" using loc(2) len by (simp add: ps_def)
  define pf where "pf = \<lparr>mp_leaf_index = i, mp_leaf_count = leaf_count st,
    mp_leaf_hash = hex_encode (ls ! i), mp_auth_path = map enc_step path,
    mp_peak_index = j, mp_peaks = map hex_encode ps, mp_version = ?v\<rparr>"
  show thesis
  proof (rule that)
    show "mmr_prove st i = Some (Inr pf)"
      using loc(1) leaf path(1) ps by (simp add: mmr_prove_def auth_path_def pf_def enc_step_def)
    show "mmr_root H st = Some (fold_peaks H ?v ps)" using ps by (simp add: mmr_root_def)
    show "mp_leaf_hash pf = hex_encode (ls ! i)" by (simp add: pf_def)
    have "ps[j := ps ! j] = ps" by simp
    then show "verify_proof H pf (fold_peaks H ?v ps) = Some True"
      using l32 path(2) dec j by (simp add: verify_proof_def pf_def del: map_map)
  qed
qed

section \<open>The contract of an authenticated log\<close>

fun append_all :: "('s \<Rightarrow> bytes \<Rightarrow> 's option) \<Rightarrow> 's \<Rightarrow> bytes list \<Rightarrow> 's option" where
  "append_all app s [] = Some s"
| "append_all app s (x # xs) = do { s' \<leftarrow> app s x; append_all app s' xs }"

locale authenticated_log =
  fixes app :: "'s \<Rightarrow> bytes \<Rightarrow> 's option"
    and root :: "'s \<Rightarrow> bytes option"
    and prove :: "'s \<Rightarrow> nat \<Rightarrow> (string + 'p) option"
    and verify :: "'p \<Rightarrow> bytes \<Rightarrow> bool option"
    and leaf_of :: "'p \<Rightarrow> string"
    and holds :: "'s \<Rightarrow> bytes list \<Rightarrow> bool"
  assumes app_holds: "holds s ls \<Longrightarrow> length x = 32 \<Longrightarrow> \<exists>s'. app s x = Some s' \<and> holds s' (ls @ [x])"
    and prove_verifies: "holds s ls \<Longrightarrow> i < length ls \<Longrightarrow>
      \<exists>p r. prove s i = Some (Inr p) \<and> root s = Some r \<and>
        leaf_of p = hex_encode (ls ! i) \<and> verify p r = Some True"
    and prove_range: "holds s ls \<Longrightarrow> length ls \<le> i \<Longrightarrow> \<exists>e. prove s i = Some (Inl e)"
begin

lemma append_all_holds:
  "holds s ls \<Longrightarrow> \<forall>x \<in> set xs. length x = 32 \<Longrightarrow>
   \<exists>s'. append_all app s xs = Some s' \<and> holds s' (ls @ xs)"
proof (induction xs arbitrary: s ls)
  case (Cons x xs)
  then obtain s1 where "app s x = Some s1" "holds s1 (ls @ [x])"
    using app_holds [of s ls x] by auto
  with Cons.IH [of s1 "ls @ [x]"] Cons.prems show ?case by simp
qed simp

lemma every_entry_provable:
  assumes "holds s ls" "\<forall>x \<in> set xs. length x = 32" "i < length (ls @ xs)"
  shows "\<exists>s' p r. append_all app s xs = Some s' \<and> root s' = Some r \<and>
    prove s' i = Some (Inr p) \<and> leaf_of p = hex_encode ((ls @ xs) ! i) \<and> verify p r = Some True"
proof -
  obtain s' where s': "append_all app s xs = Some s'" "holds s' (ls @ xs)"
    using append_all_holds [OF assms(1,2)] by blast
  from prove_verifies [OF s'(2) assms(3)] s'(1) show ?thesis by blast
qed

end

interpretation mmr: authenticated_log "append_hash H" "mmr_root H" mmr_prove "verify_proof H"
  mp_leaf_hash "mmr_holds H" for H
proof unfold_locales
  show "mmr_holds H s ls \<Longrightarrow> length x = 32 \<Longrightarrow>
      \<exists>s'. append_hash H s x = Some s' \<and> mmr_holds H s' (ls @ [x])" for s ls x
    by (erule append_hash_holds) auto
  show "mmr_holds H s ls \<Longrightarrow> i < length ls \<Longrightarrow>
      \<exists>p r. mmr_prove s i = Some (Inr p) \<and> mmr_root H s = Some r \<and>
        mp_leaf_hash p = hex_encode (ls ! i) \<and> verify_proof H p r = Some True" for s ls i
    by (erule prove_holds) auto
  show "mmr_holds H s ls \<Longrightarrow> length ls \<le> i \<Longrightarrow> \<exists>e. mmr_prove s i = Some (Inl e)" for s ls i
    by (simp add: mmr_prove_def locate_leaf_def mmr_holds_def)
qed

section \<open>Binding\<close>

text \<open>
  What the verifier hashes. Two accepted proofs of one shape for one root agree on the
  leaf unless these inputs themselves contain two different strings with one digest.
\<close>

definition node_input :: "nat \<Rightarrow> bytes \<Rightarrow> bytes \<Rightarrow> bytes" where
  "node_input v a b = (if 3 \<le> v then NODE_DOMAIN @ a @ b else a @ b)"

fun walk_inputs :: "(bytes \<Rightarrow> bytes) \<Rightarrow> nat \<Rightarrow> bytes \<Rightarrow> auth_step list \<Rightarrow> bytes list" where
  "walk_inputs H v cur [] = []"
| "walk_inputs H v cur (st # sts) =
     (case decode_hash (as_hash st) of None \<Rightarrow> []
      | Some sib \<Rightarrow> (let inp = (if as_is_left st then node_input v cur sib else node_input v sib cur)
          in inp # walk_inputs H v (H inp) sts))"

fun fold_inputs :: "(bytes \<Rightarrow> bytes) \<Rightarrow> nat \<Rightarrow> bytes \<Rightarrow> bytes list \<Rightarrow> bytes list" where
  "fold_inputs H v acc [] = []"
| "fold_inputs H v acc (p # ps) = node_input v acc p # fold_inputs H v (H (node_input v acc p)) ps"

definition verify_inputs :: "(bytes \<Rightarrow> bytes) \<Rightarrow> membership_proof \<Rightarrow> bytes list" where
  "verify_inputs H pf =
     (let v = mp_version pf; start = the (decode_hash (mp_leaf_hash pf));
          current = the (walk_path H v start (mp_auth_path pf));
          ps = (the (all_some (map decode_hash (mp_peaks pf))))[mp_peak_index pf := current]
      in walk_inputs H v start (mp_auth_path pf) @ fold_inputs H v (hd ps) (tl ps))"

definition same_shape :: "membership_proof \<Rightarrow> membership_proof \<Rightarrow> bool" where
  "same_shape p q \<longleftrightarrow> mp_version p = mp_version q \<and> mp_peak_index p = mp_peak_index q \<and>
     length (mp_peaks p) = length (mp_peaks q) \<and>
     map as_is_left (mp_auth_path p) = map as_is_left (mp_auth_path q)"

definition hash_clash :: "(bytes \<Rightarrow> bytes) \<Rightarrow> bytes list \<Rightarrow> bytes list \<Rightarrow> bool" where
  "hash_clash H xs ys \<longleftrightarrow> (\<exists>x \<in> set xs. \<exists>y \<in> set ys. x \<noteq> y \<and> H x = H y)"

lemma node_hash_input: "node_hash_for H v a b = H (node_input v a b)"
  by (simp add: node_hash_for_def node_input_def parent_hash_def parent_hash_v3_def)

lemma node_input_inj:
  "length a = length a' \<Longrightarrow> node_input v a b = node_input v a' b' \<longleftrightarrow> a = a' \<and> b = b'"
  by (simp add: node_input_def)

lemma hash_clash_Cons:
  "x \<noteq> y \<Longrightarrow> H x = H y \<Longrightarrow> hash_clash H (x # xs) (y # ys)"
  "hash_clash H xs ys \<Longrightarrow> hash_clash H (x # xs) (y # ys)"
  by (auto simp: hash_clash_def)

lemma decode_hash_len: "decode_hash s = Some b \<Longrightarrow> length b = 32"
  by (auto simp: decode_hash_def split: Option.bind_splits if_splits)

lemma fold_binding:
  assumes "hash32 H"
  shows "length ps = length qs \<Longrightarrow> length a = 32 \<Longrightarrow> length b = 32 \<Longrightarrow>
    foldl (node_hash_for H v) a ps = foldl (node_hash_for H v) b qs \<Longrightarrow>
    a = b \<and> ps = qs \<or> hash_clash H (fold_inputs H v a ps) (fold_inputs H v b qs)"
proof (induction ps qs arbitrary: a b rule: list_induct2)
  case (Cons p ps q qs)
  let ?x = "node_input v a p" and ?y = "node_input v b q"
  have "H ?x = H ?y \<and> ps = qs \<or> hash_clash H (fold_inputs H v (H ?x) ps) (fold_inputs H v (H ?y) qs)"
    using Cons assms by (intro Cons.IH) (auto simp: node_hash_input hash32_def)
  then consider "H ?x = H ?y" "ps = qs"
    | "hash_clash H (fold_inputs H v (H ?x) ps) (fold_inputs H v (H ?y) qs)" by blast
  then show ?case
  proof cases
    case 1
    then show ?thesis
      using Cons.prems hash_clash_Cons(1) [of ?x ?y H] by (cases "?x = ?y") (auto simp: node_input_inj)
  next
    case 2
    then show ?thesis by (simp add: hash_clash_Cons(2))
  qed
qed simp

lemma walk_binding:
  assumes "hash32 H"
  shows "map as_is_left sts = map as_is_left sts' \<Longrightarrow> length a = 32 \<Longrightarrow> length b = 32 \<Longrightarrow>
    walk_path H v a sts = Some c \<Longrightarrow> walk_path H v b sts' = Some c \<Longrightarrow>
    a = b \<or> hash_clash H (walk_inputs H v a sts) (walk_inputs H v b sts')"
proof (induction sts arbitrary: sts' a b)
  case (Cons s sts)
  from Cons.prems(1) obtain s' ss where sts': "sts' = s' # ss" and l: "as_is_left s = as_is_left s'"
    and rest: "map as_is_left sts = map as_is_left ss" by (cases sts') auto
  obtain u u' where u: "decode_hash (as_hash s) = Some u" "decode_hash (as_hash s') = Some u'"
    using Cons.prems(4,5) sts' by (auto split: Option.bind_splits)
  define x where "x = (if as_is_left s then node_input v a u else node_input v u a)"
  define y where "y = (if as_is_left s then node_input v b u' else node_input v u' b)"
  have inj: "x = y \<Longrightarrow> a = b"
    using Cons.prems(2,3) u [THEN decode_hash_len] by (auto simp: x_def y_def node_input_inj split: if_splits)
  have "H x = H y \<or> hash_clash H (walk_inputs H v (H x) sts) (walk_inputs H v (H y) ss)"
    using Cons.prems(4,5) u l sts' assms
    by (intro Cons.IH rest) (auto simp: x_def y_def node_hash_input hash32_def split: if_splits)
  moreover have "walk_inputs H v a (s # sts) = x # walk_inputs H v (H x) sts"
    "walk_inputs H v b sts' = y # walk_inputs H v (H y) ss"
    by (simp_all only: sts' walk_inputs.simps u option.case l [symmetric] x_def [symmetric]
        y_def [symmetric] Let_def)
  ultimately show ?case
    using inj hash_clash_Cons(1) [of x y H] hash_clash_Cons(2) by metis
qed simp

lemma all_some_len: "all_some xs = Some ys \<Longrightarrow> length ys = length xs"
  by (induction xs arbitrary: ys) (auto split: Option.bind_splits)

lemma all_some_decode_32: "all_some (map decode_hash xs) = Some ys \<Longrightarrow> \<forall>y \<in> set ys. length y = 32"
  by (induction xs arbitrary: ys) (auto split: Option.bind_splits dest: decode_hash_len)

lemma walk_path_32:
  assumes "hash32 H"
  shows "length a = 32 \<Longrightarrow> walk_path H v a sts = Some c \<Longrightarrow> length c = 32"
proof (induction sts arbitrary: a)
  case (Cons s sts)
  then obtain u where "walk_path H v (if as_is_left s then node_hash_for H v a u
      else node_hash_for H v u a) sts = Some c" by (auto split: Option.bind_splits)
  then show ?case by (rule Cons.IH [rotated]) (simp add: node_hash_len [OF assms])
qed simp

text \<open>What acceptance means, unfolded once for both proofs.\<close>

lemma verify_TrueD:
  assumes "hash32 H" "verify_proof H p r = Some True"
  obtains start cur ps where "decode_hash (mp_leaf_hash p) = Some start" "length start = 32"
    "walk_path H (mp_version p) start (mp_auth_path p) = Some cur"
    "length ps = length (mp_peaks p)" "mp_peak_index p < length ps" "ps ! mp_peak_index p = cur"
    "\<forall>x \<in> set ps. length x = 32" "fold_peaks H (mp_version p) ps = r"
    "verify_inputs H p = walk_inputs H (mp_version p) start (mp_auth_path p) @
       fold_inputs H (mp_version p) (hd ps) (tl ps)"
proof -
  from assms(2) obtain start cur qs where s: "decode_hash (mp_leaf_hash p) = Some start"
    "walk_path H (mp_version p) start (mp_auth_path p) = Some cur"
    "mp_peak_index p < length (mp_peaks p)"
    "all_some (map decode_hash (mp_peaks p)) = Some qs"
    "fold_peaks H (mp_version p) (qs[mp_peak_index p := cur]) = r"
    by (auto simp: verify_proof_def split: Option.bind_splits if_splits)
  have "length start = 32" using s(1) by (rule decode_hash_len)
  moreover from this have "length cur = 32" using assms(1) s(2) walk_path_32 by blast
  moreover have "length qs = length (mp_peaks p)" using all_some_len [OF s(4)] by simp
  moreover have "\<forall>x \<in> set (qs[mp_peak_index p := cur]). length x = 32"
    using all_some_decode_32 [OF s(4)] \<open>length cur = 32\<close> set_update_subset_insert [of qs] by blast
  ultimately show thesis
    using s by (intro that [of start cur "qs[mp_peak_index p := cur]"]) (simp_all add: verify_inputs_def Let_def)
qed

lemma verify_binding:
  assumes "hash32 H" "verify_proof H p r = Some True" "verify_proof H q r = Some True" "same_shape p q"
  shows "decode_hash (mp_leaf_hash p) = decode_hash (mp_leaf_hash q) \<or>
    hash_clash H (verify_inputs H p) (verify_inputs H q)"
proof -
  let ?v = "mp_version p"
  obtain a c ps where a: "decode_hash (mp_leaf_hash p) = Some a" "length a = 32"
    "walk_path H ?v a (mp_auth_path p) = Some c" "length ps = length (mp_peaks p)"
    "mp_peak_index p < length ps" "ps ! mp_peak_index p = c" "\<forall>x \<in> set ps. length x = 32"
    "fold_peaks H ?v ps = r"
    "verify_inputs H p = walk_inputs H ?v a (mp_auth_path p) @ fold_inputs H ?v (hd ps) (tl ps)"
    using verify_TrueD [OF assms(1,2)] by metis
  obtain b d qs where b: "decode_hash (mp_leaf_hash q) = Some b" "length b = 32"
    "walk_path H ?v b (mp_auth_path q) = Some d" "length qs = length (mp_peaks p)"
    "qs ! mp_peak_index p = d" "\<forall>x \<in> set qs. length x = 32" "fold_peaks H ?v qs = r"
    "verify_inputs H q = walk_inputs H ?v b (mp_auth_path q) @ fold_inputs H ?v (hd qs) (tl qs)"
    using verify_TrueD [OF assms(1,3)] assms(4) unfolding same_shape_def by metis
  obtain x xs y ys where xy: "ps = x # xs" "qs = y # ys" "length xs = length ys"
    using a(4,5) b(4) by (cases ps; cases qs) auto
  have "foldl (node_hash_for H ?v) x xs = foldl (node_hash_for H ?v) y ys"
    using a(8) b(7) xy by (simp add: fold_peaks_def)
  then have "x = y \<and> xs = ys \<or> hash_clash H (fold_inputs H ?v x xs) (fold_inputs H ?v y ys)"
    using a(7) b(6) xy by (intro fold_binding [OF assms(1)]) auto
  then consider "ps = qs" | "hash_clash H (fold_inputs H ?v (hd ps) (tl ps)) (fold_inputs H ?v (hd qs) (tl qs))"
    using xy by auto
  then show ?thesis
  proof cases
    case 1
    then have "c = d" using a(6) b(5) by simp
    then have "a = b \<or> hash_clash H (walk_inputs H ?v a (mp_auth_path p)) (walk_inputs H ?v b (mp_auth_path q))"
      using assms(4) a(2,3) b(2,3) by (intro walk_binding [OF assms(1)]) (auto simp: same_shape_def)
    then show ?thesis using a(1,9) b(1,8) by (auto simp: hash_clash_def)
  next
    case 2
    then show ?thesis using a(9) b(8) by (auto simp: hash_clash_def)
  qed
qed

section \<open>Properties\<close>

definition example_hash :: "bytes \<Rightarrow> bytes" where
  "example_hash x = take 32 (rev x @ zeros32)"

definition example_leaf :: "byte \<Rightarrow> bytes" where
  "example_leaf b = replicate 32 b"

lemma length_zeros32: "length zeros32 = 32"
  by (simp add: zeros32_def)

lemma example_hash32: "hash32 example_hash"
  by (simp add: hash32_def example_hash_def length_zeros32 del: take_append)

lemma length_example_leaf [simp]: "length (example_leaf b) = 32"
  by (simp add: example_leaf_def)

text \<open>
  C9: Appending never panics on a well-formed range, and afterwards every leaf ever
  appended, the old ones included, has a membership proof that carries that leaf and
  that \<open>verify_proof\<close> accepts for the current root, under the v2 and the v3 node hash.
\<close>

theorem mmr_every_entry_provable:
  assumes "mmr_holds H st ls" "\<forall>x \<in> set xs. length x = 32" "i < length (ls @ xs)"
  shows "\<exists>st' pf r. append_all (append_hash H) st xs = Some st' \<and> mmr_root H st' = Some r \<and>
    mmr_prove st' i = Some (Inr pf) \<and> mp_leaf_hash pf = hex_encode ((ls @ xs) ! i) \<and>
    verify_proof H pf r = Some True"
  using assms by (rule mmr.every_entry_provable)

theorem mmr_every_entry_provable_witness:
  "\<exists>st' pf r. append_all (append_hash example_hash) mmr_new
      [example_leaf 1, example_leaf 2, example_leaf 3] = Some st' \<and>
    mmr_root example_hash st' = Some r \<and> mmr_prove st' 1 = Some (Inr pf) \<and>
    mp_leaf_hash pf = hex_encode (example_leaf 2) \<and> verify_proof example_hash pf r = Some True"
  using mmr_every_entry_provable [OF mmr_new_holds [OF example_hash32],
      of "[example_leaf 1, example_leaf 2, example_leaf 3]" 1]
  by simp

text \<open>
  C10: A root commits to its leaves: two proofs of the same shape (same path directions,
  same peak position, same number of peaks, same version) that \<open>verify_proof\<close> accepts for
  one root carry the same leaf, unless the strings hashed while verifying them contain
  two different ones with the same digest.
\<close>

theorem mmr_proof_binding:
  assumes "hash32 H" "verify_proof H p r = Some True" "verify_proof H q r = Some True" "same_shape p q"
  shows "decode_hash (mp_leaf_hash p) = decode_hash (mp_leaf_hash q) \<or>
    hash_clash H (verify_inputs H p) (verify_inputs H q)"
  using assms by (rule verify_binding)

definition example_proof :: "byte \<Rightarrow> membership_proof" where
  "example_proof b = \<lparr>mp_leaf_index = 0, mp_leaf_count = 2, mp_leaf_hash = hex_encode (example_leaf b),
     mp_auth_path = [\<lparr>as_hash = hex_encode (example_leaf 7), as_is_left = True\<rparr>], mp_peak_index = 0,
     mp_peaks = [hex_encode zeros32], mp_version = 3\<rparr>"

theorem mmr_proof_binding_witness:
  "decode_hash (mp_leaf_hash (example_proof 1)) = decode_hash (mp_leaf_hash (example_proof 2)) \<or>
    hash_clash (\<lambda>_. zeros32) (verify_inputs (\<lambda>_. zeros32) (example_proof 1))
      (verify_inputs (\<lambda>_. zeros32) (example_proof 2))"
proof (rule mmr_proof_binding)
  show "hash32 (\<lambda>_. zeros32)" by (simp add: hash32_def length_zeros32)
  show "verify_proof (\<lambda>_. zeros32) (example_proof 1) zeros32 = Some True"
    "verify_proof (\<lambda>_. zeros32) (example_proof 2) zeros32 = Some True"
    "same_shape (example_proof 1) (example_proof 2)"
    by (simp_all add: verify_proof_def example_proof_def length_zeros32 same_shape_def
        fold_peaks_def node_hash_for_def parent_hash_v3_def)
qed

end
