(* ===== verification/Wallet.thy ===== *)
theory Wallet
  imports Environment Mmr
begin

text \<open>
  \<open>origin-wallet\<close>: addresses, accounts, transactions, the spend policy with its day and
  month windows, the transaction history (a Merkle mountain range) and the offline
  native rail \<open>LocalNativeRail\<close>. Amounts are \<open>u64\<close> as naturals. The wallet lives in a
  state record on top of the counters, so that the payments world can extend it.
\<close>

section \<open>Errors and addresses\<close>

datatype (plugins only: code size) wallet_error =
    Crypto string
  | InsufficientEntropy string string
  | SeedExpired
  | InvalidPassphrase
  | Encryption string
  | Decryption string
  | InvalidAddress string
  | Transaction string
  | AccountNotFound string
  | Io string
  | Serialization string
  | KeyDerivation string
  | Network string
  | Backup string
  | Recovery string

primrec wallet_error_to_string :: "wallet_error \<Rightarrow> string" where
  "wallet_error_to_string (Crypto e) = ''Cryptographic error: '' @ e"
| "wallet_error_to_string (InsufficientEntropy r a) =
     ''Insufficient entropy: required '' @ r @ '', got '' @ a"
| "wallet_error_to_string SeedExpired = ''Seed handle expired''"
| "wallet_error_to_string InvalidPassphrase = ''Invalid passphrase''"
| "wallet_error_to_string (Encryption e) = ''Encryption failed: '' @ e"
| "wallet_error_to_string (Decryption e) = ''Decryption failed: '' @ e"
| "wallet_error_to_string (InvalidAddress e) = ''Invalid address: '' @ e"
| "wallet_error_to_string (Transaction e) = ''Transaction error: '' @ e"
| "wallet_error_to_string (AccountNotFound e) = ''Account not found: '' @ e"
| "wallet_error_to_string (Io e) = ''IO error: '' @ e"
| "wallet_error_to_string (Serialization e) = ''Serialization error: '' @ e"
| "wallet_error_to_string (KeyDerivation e) = ''Key derivation failed: '' @ e"
| "wallet_error_to_string (Network e) = ''Stoa network error: '' @ e"
| "wallet_error_to_string (Backup e) = ''Backup error: '' @ e"
| "wallet_error_to_string (Recovery e) = ''Recovery error: '' @ e"

datatype network = Mainnet | Testnet
datatype address_type = Bech32 | Bech32m | Base58Check

record address =
  pubkey_hash :: bytes
  addr_type :: address_type
  addr_network :: network

definition from_hash :: "bytes \<Rightarrow> address_type \<Rightarrow> network \<Rightarrow> address" where
  "from_hash h ty net = \<lparr>pubkey_hash = h, addr_type = ty, addr_network = net\<rparr>"

definition hrp :: "address \<Rightarrow> string" where
  "hrp a = (case addr_network a of Mainnet \<Rightarrow> ''origin'' | Testnet \<Rightarrow> ''torigin'')"

definition to_bech32 :: "env \<Rightarrow> address \<Rightarrow> wallet_error + string" where
  "to_bech32 E a = (case bech32m E (hrp a) (pubkey_hash a) of
     Inl e \<Rightarrow> Inl (InvalidAddress e) | Inr s \<Rightarrow> Inr s)"

definition from_bech32 :: "env \<Rightarrow> string \<Rightarrow> wallet_error + address" where
  "from_bech32 E s = (case bech32_decode E s of
       Inl e \<Rightarrow> Inl (InvalidAddress e)
     | Inr (h, data) \<Rightarrow>
         if length data \<noteq> 20 then Inl (InvalidAddress ''Invalid data length'')
         else if h = ''origin'' then Inr (from_hash data Bech32m Mainnet)
         else if h = ''torigin'' then Inr (from_hash data Bech32m Testnet)
         else Inl (InvalidAddress (''Unknown HRP: '' @ h)))"

definition ok_or_default :: "'e + 'a list \<Rightarrow> 'a list" where
  "ok_or_default r = (case r of Inl _ \<Rightarrow> [] | Inr x \<Rightarrow> x)"

section \<open>Accounts, policy, wallet\<close>

record account =
  acc_name :: string
  acc_index :: nat
  ed25519_sk :: bytes
  falcon_sk :: bytes
  acc_address :: address
  acc_balance :: nat
  acc_nonce :: nat
  stealth_master :: "bytes option"

definition account_new :: "string \<Rightarrow> nat \<Rightarrow> bytes \<Rightarrow> bytes \<Rightarrow> address \<Rightarrow> account" where
  "account_new name index ed falcon addr =
     \<lparr>acc_name = name, acc_index = index, ed25519_sk = ed, falcon_sk = falcon,
      acc_address = addr, acc_balance = 0, acc_nonce = 0, stealth_master = None\<rparr>"

record spend_policy =
  per_tx :: "nat option"
  per_day :: "nat option"
  per_month :: "nat option"

record spend_buckets =
  day_key :: nat
  day_spent :: nat
  month_key :: nat
  month_spent :: nat

definition spend_buckets_default :: spend_buckets where
  "spend_buckets_default = \<lparr>day_key = u64_max, day_spent = 0, month_key = u64_max, month_spent = 0\<rparr>"

record wallet_metadata =
  wm_name :: string
  wm_created_at :: nat
  wm_modified_at :: nat
  wm_version :: nat

record wallet =
  w_seed :: bytes
  accounts :: "account list"
  history :: mmr_state
  metadata :: wallet_metadata
  policy :: spend_policy
  buckets :: spend_buckets

record wstate = clock +
  wal :: wallet
  wfile :: "bytes option"

definition secs :: "int \<Rightarrow> nat" where
  "secs t = as_u64 (t div 1000000000)"

definition set_modified :: "nat \<Rightarrow> wallet \<Rightarrow> wallet" where
  "set_modified t w = w\<lparr>metadata := (metadata w)\<lparr>wm_modified_at := t\<rparr>\<rparr>"

definition touch :: "env \<Rightarrow> ('c wstate_scheme, 'f, unit) M" where
  "touch E = bnd (utc_now E) (\<lambda>t. modify (\<lambda>s. s\<lparr>wal := set_modified (secs t) (wal s)\<rparr>))"

definition set_spend_policy :: "env \<Rightarrow> spend_policy \<Rightarrow> ('c wstate_scheme, 'f, unit) M" where
  "set_spend_policy E p = seqM (modify (\<lambda>s. s\<lparr>wal := (wal s)\<lparr>policy := p\<rparr>\<rparr>)) (touch E)"

definition roll_buckets :: "env \<Rightarrow> int \<Rightarrow> spend_buckets \<Rightarrow> spend_buckets" where
  "roll_buckets E now b =
     (let day = secs now div 86400;
          b1 = (if day \<noteq> day_key b then b\<lparr>day_key := day, day_spent := 0\<rparr> else b);
          month = (case civil_month E now of (y, m0) \<Rightarrow> as_u64 (y * 12 + m0))
      in if month \<noteq> month_key b1 then b1\<lparr>month_key := month, month_spent := 0\<rparr> else b1)"

definition roll_spend_windows :: "env \<Rightarrow> ('c wstate_scheme, 'f, unit) M" where
  "roll_spend_windows E = bnd (utc_now E) (\<lambda>now.
     modify (\<lambda>s. s\<lparr>wal := (wal s)\<lparr>buckets := roll_buckets E now (buckets (wal s))\<rparr>\<rparr>))"

definition section_mark :: string where
  "section_mark = [CHR 0xC2, CHR 0xA7]"

definition spec_ref :: string where
  "spec_ref = '' (SPEC '' @ section_mark @ ''10.2)''"

definition over_cap :: "nat option \<Rightarrow> nat \<Rightarrow> bool" where
  "over_cap cap v = (case cap of None \<Rightarrow> False | Some c \<Rightarrow> c < v)"

definition check_spend :: "env \<Rightarrow> nat \<Rightarrow> ('c wstate_scheme, wallet_error, unit) M" where
  "check_spend E amount = seqM (roll_spend_windows E) (bnd (gets wal) (\<lambda>w.
     let p = policy w; b = buckets w; day = sat_add_u64 (day_spent b) amount;
         month = sat_add_u64 (month_spent b) amount in
     if over_cap (per_tx p) amount then
       fail (Transaction (''amount '' @ dec amount @ '' exceeds the per-transaction spend cap '' @
         dec (the (per_tx p)) @ spec_ref))
     else if over_cap (per_day p) day then
       fail (Transaction (''day spend would reach '' @ dec day @ '', exceeding the per-day cap '' @
         dec (the (per_day p)) @ spec_ref))
     else if over_cap (per_month p) month then
       fail (Transaction (''month spend would reach '' @ dec month @
         '', exceeding the per-month cap '' @ dec (the (per_month p)) @ spec_ref))
     else ret ()))"

definition record_spend :: "env \<Rightarrow> nat \<Rightarrow> ('c wstate_scheme, 'f, unit) M" where
  "record_spend E amount = seqM (roll_spend_windows E) (seqM
     (modify (\<lambda>s. s\<lparr>wal := (wal s)\<lparr>buckets := (buckets (wal s))
        \<lparr>day_spent := sat_add_u64 (day_spent (buckets (wal s))) amount,
         month_spent := sat_add_u64 (month_spent (buckets (wal s))) amount\<rparr>\<rparr>\<rparr>))
     (touch E))"

definition spend_usage :: "env \<Rightarrow> ('c wstate_scheme, 'f, spend_buckets \<times> nat \<times> nat) M" where
  "spend_usage E = seqM (roll_spend_windows E)
     (gets (\<lambda>s. (buckets (wal s), day_spent (buckets (wal s)), month_spent (buckets (wal s)))))"

fun set_first_balance :: "nat \<Rightarrow> nat \<Rightarrow> account list \<Rightarrow> account list" where
  "set_first_balance i b [] = []"
| "set_first_balance i b (a # as) =
     (if acc_index a = i then a\<lparr>acc_balance := b\<rparr> # as else a # set_first_balance i b as)"

definition find_account :: "nat \<Rightarrow> wallet \<Rightarrow> account option" where
  "find_account i w = List.find (\<lambda>a. acc_index a = i) (accounts w)"

definition update_balance :: "env \<Rightarrow> nat \<Rightarrow> nat \<Rightarrow> ('c wstate_scheme, wallet_error, unit) M" where
  "update_balance E i b = bnd (gets wal) (\<lambda>w.
     case find_account i w of
       None \<Rightarrow> fail (AccountNotFound (''Account '' @ dec i))
     | Some _ \<Rightarrow> seqM
         (modify (\<lambda>s. s\<lparr>wal := (wal s)\<lparr>accounts := set_first_balance i b (accounts (wal s))\<rparr>\<rparr>))
         (touch E))"

definition get_balance :: "nat \<Rightarrow> wallet \<Rightarrow> wallet_error + nat" where
  "get_balance i w = (case find_account i w of
     None \<Rightarrow> Inl (AccountNotFound (''Account '' @ dec i)) | Some a \<Rightarrow> Inr (acc_balance a))"

definition total_balance :: "wallet \<Rightarrow> nat" where
  "total_balance w = sum_list (map acc_balance (accounts w)) mod 2 ^ 64"

section \<open>Transactions\<close>

record transaction =
  tx_hash_id :: bytes
  tx_from :: address
  tx_to :: address
  tx_amount :: nat
  tx_fee :: nat
  tx_nonce :: nat
  tx_signature :: bytes
  tx_timestamp :: nat
  tx_memo :: "bytes option"

definition transaction_id :: "env \<Rightarrow> address \<Rightarrow> address \<Rightarrow> nat \<Rightarrow> nat \<Rightarrow> nat \<Rightarrow> bytes" where
  "transaction_id E from to amount fee nonce =
     sha2_256 E (str_bytes (ok_or_default (to_bech32 E from)) @ str_bytes (ok_or_default (to_bech32 E to)) @
       le_bytes 8 amount @ le_bytes 8 fee @ le_bytes 8 nonce)"

definition transaction_new ::
  "env \<Rightarrow> address \<Rightarrow> address \<Rightarrow> nat \<Rightarrow> nat \<Rightarrow> nat \<Rightarrow> ('c clock_scheme, 'f, transaction) M" where
  "transaction_new E from to amount fee nonce = bnd (utc_now E) (\<lambda>t. ret
     \<lparr>tx_hash_id = transaction_id E from to amount fee nonce, tx_from = from, tx_to = to,
      tx_amount = amount, tx_fee = fee, tx_nonce = nonce, tx_signature = [],
      tx_timestamp = secs t, tx_memo = None\<rparr>)"

definition to_sign_bytes :: "env \<Rightarrow> transaction \<Rightarrow> bytes" where
  "to_sign_bytes E tx =
     str_bytes (ok_or_default (to_bech32 E (tx_from tx))) @
     str_bytes (ok_or_default (to_bech32 E (tx_to tx))) @
     le_bytes 8 (tx_amount tx) @ le_bytes 8 (tx_fee tx) @ le_bytes 8 (tx_nonce tx) @
     le_bytes 8 (tx_timestamp tx) @ (case tx_memo tx of None \<Rightarrow> [] | Some m \<Rightarrow> m)"

definition recompute_id :: "env \<Rightarrow> transaction \<Rightarrow> transaction" where
  "recompute_id E tx = tx\<lparr>tx_hash_id :=
     transaction_id E (tx_from tx) (tx_to tx) (tx_amount tx) (tx_fee tx) (tx_nonce tx)\<rparr>"

definition address_json :: "address \<Rightarrow> json" where
  "address_json a = JArr [JBytes (pubkey_hash a),
     JNum (case addr_type a of Bech32 \<Rightarrow> 0 | Bech32m \<Rightarrow> 1 | Base58Check \<Rightarrow> 2),
     JNum (case addr_network a of Mainnet \<Rightarrow> 0 | Testnet \<Rightarrow> 1)]"

definition transaction_json :: "transaction \<Rightarrow> json" where
  "transaction_json tx = JArr [JBytes (tx_hash_id tx), address_json (tx_from tx),
     address_json (tx_to tx), JNum (int (tx_amount tx)), JNum (int (tx_fee tx)),
     JNum (int (tx_nonce tx)), JBytes (tx_signature tx), JNum (int (tx_timestamp tx)),
     JOpt JBytes (tx_memo tx)]"

definition add_transaction :: "env \<Rightarrow> transaction \<Rightarrow> ('c wstate_scheme, wallet_error, unit) M" where
  "add_transaction E tx =
     bnd (or_err Serialization (result (bincode E (transaction_json tx)))) (\<lambda>tx_bytes.
     bnd (gets wal) (\<lambda>w.
     bnd (unwrap (append_hash (blake3 E) (history w) (sha2_256 E tx_bytes))) (\<lambda>h.
     modify (\<lambda>s. s\<lparr>wal := (wal s)\<lparr>history := h\<rparr>\<rparr>))))"

definition transaction_count :: "wallet \<Rightarrow> nat" where
  "transaction_count w = leaf_count (history w)"

definition prove_transaction :: "wallet \<Rightarrow> nat \<Rightarrow> (wallet_error + membership_proof) option" where
  "prove_transaction w leaf_index =
     (if leaf_count (history w) \<le> leaf_index
      then Some (Inl (Transaction (''Leaf index '' @ dec leaf_index @ '' out of range ('' @
             dec (leaf_count (history w)) @ '' leaves)'')))
      else map_option (\<lambda>r. case r of Inl e \<Rightarrow> Inl (Transaction e) | Inr p \<Rightarrow> Inr p)
             (mmr_prove (history w) leaf_index))"

definition verify_transaction_proof :: "env \<Rightarrow> wallet \<Rightarrow> membership_proof \<Rightarrow> bool option" where
  "verify_transaction_proof E w pf =
     do { root \<leftarrow> mmr_root (blake3 E) (history w); verify_proof (blake3 E) pf root }"

section \<open>The native rail\<close>

record native_pay_params =
  np_to :: string
  np_amount :: nat
  np_memo :: bytes
  np_spend_cap :: "nat option"
  np_credit :: "nat option"

record native_receipt =
  nr_to :: string
  nr_amount :: nat
  nr_memo_hex :: string
  nr_tx_id :: string
  nr_timestamp :: string

definition native_receipt_json :: "native_receipt \<Rightarrow> json" where
  "native_receipt_json r = JArr [JStr (nr_to r), JNum (int (nr_amount r)), JStr (nr_memo_hex r),
     JStr (nr_tx_id r), JStr (nr_timestamp r)]"

definition receipt_to_bytes :: "env \<Rightarrow> native_receipt \<Rightarrow> wallet_error + bytes" where
  "receipt_to_bytes E r = (case bincode E (native_receipt_json r) of
     Inl e \<Rightarrow> Inl (Transaction e) | Inr b \<Rightarrow> Inr b)"

definition recipient_address :: "env \<Rightarrow> string \<Rightarrow> address" where
  "recipient_address E to = from_hash (take 20 (sha2_256 E (str_bytes to))) Bech32 Mainnet"

text \<open>\<open>LocalNativeRail::pay_sync\<close>: the debit, the record, and the whole payment.\<close>

definition pay_debit :: "env \<Rightarrow> native_pay_params \<Rightarrow> ('c wstate_scheme, wallet_error, unit) M" where
  "pay_debit E p =
     bnd (bnd (gets wal) (\<lambda>w. result (get_balance 0 w))) (\<lambda>bal.
     seqM (guard (np_amount p \<le> bal)
       (Transaction (''insufficient funds: account 0 has '' @ dec bal @ '', need '' @ dec (np_amount p))))
     (update_balance E 0 (bal - np_amount p)))"

definition pay_record :: "env \<Rightarrow> native_pay_params \<Rightarrow> ('c wstate_scheme, wallet_error, native_receipt) M" where
  "pay_record E p =
     bnd (gets wal) (\<lambda>w.
     bnd (ok_or (case accounts w of [] \<Rightarrow> None | a # _ \<Rightarrow> Some (acc_address a))
       (AccountNotFound ''account 0 for native rail'')) (\<lambda>from.
     bnd (transaction_new E from (recipient_address E (np_to p)) (np_amount p) 0 (transaction_count w)) (\<lambda>tx.
     seqM (add_transaction E tx)
     (seqM (record_spend E (np_amount p))
     (bnd (or_err Transaction (result (bincode E (transaction_json tx)))) (\<lambda>b.
     bnd (now_rfc3339 E) (\<lambda>ts.
     ret \<lparr>nr_to = np_to p, nr_amount = np_amount p, nr_memo_hex = hex_encode (np_memo p),
          nr_tx_id = hex_encode (sha2_256 E b), nr_timestamp = ts\<rparr>)))))))"

definition pay_sync :: "env \<Rightarrow> native_pay_params \<Rightarrow> ('c wstate_scheme, wallet_error, native_receipt) M" where
  "pay_sync E p =
     seqM (guard (\<not> over_cap (np_spend_cap p) (np_amount p))
       (Transaction (''amount '' @ dec (np_amount p) @ '' exceeds spend cap '' @
          dec (the (np_spend_cap p)) @ '' (policy refusal)'')))
     (seqM (check_spend E (np_amount p)) (seqM (pay_debit E p) (pay_record E p)))"

section \<open>Persistence\<close>

text \<open>
  \<open>Wallet::open\<close> and \<open>Wallet::save\<close>. Argon2id, XChaCha20-Poly1305, the bincode format of
  the two structs and the seed handle's time to live are the record \<open>codec\<close>.
\<close>

record account_data =
  ad_name :: string
  ad_index :: nat
  ad_ed25519_sk :: bytes
  ad_falcon_sk :: bytes
  ad_address_bech32 :: string
  ad_balance :: nat
  ad_nonce :: nat

record wallet_payload =
  wp_seed :: bytes
  wp_accounts :: "account_data list"
  wp_history :: mmr_state
  wp_metadata :: wallet_metadata
  wp_spend_policy :: spend_policy
  wp_spend_buckets :: spend_buckets

record wallet_envelope =
  we_version :: nat
  we_argon2_salt :: bytes
  we_nonce :: bytes
  we_ciphertext :: bytes

record codec =
  argon2id :: "bytes \<Rightarrow> bytes \<Rightarrow> string + bytes"
  aead_encrypt :: "bytes \<Rightarrow> bytes \<Rightarrow> bytes \<Rightarrow> string + bytes"
  aead_decrypt :: "bytes \<Rightarrow> bytes \<Rightarrow> bytes \<Rightarrow> string + bytes"
  ser_payload :: "wallet_payload \<Rightarrow> string + bytes"
  de_payload :: "bytes \<Rightarrow> string + wallet_payload"
  ser_envelope :: "wallet_envelope \<Rightarrow> string + bytes"
  de_envelope :: "bytes \<Rightarrow> string + wallet_envelope"
  seed_live :: "nat \<Rightarrow> bool"

definition WALLET_FORMAT_VERSION :: nat where
  "WALLET_FORMAT_VERSION = 2"

fun fault_text :: "fault \<Rightarrow> string" where
  "fault_text (OpenErr e) = e"
| "fault_text (WriteErr e) = e"
| "fault_text (FlushErr e) = e"
| "fault_text (Corrupt i e) = e"

definition account_of_data :: "env \<Rightarrow> account_data \<Rightarrow> wallet_error + account" where
  "account_of_data E d = (case from_bech32 E (ad_address_bech32 d) of
       Inl e \<Rightarrow> Inl e
     | Inr addr \<Rightarrow> Inr ((account_new (ad_name d) (ad_index d) (ad_ed25519_sk d) (ad_falcon_sk d) addr)
         \<lparr>acc_balance := ad_balance d, acc_nonce := ad_nonce d\<rparr>))"

definition data_of_account :: "env \<Rightarrow> account \<Rightarrow> account_data" where
  "data_of_account E a =
     \<lparr>ad_name = acc_name a, ad_index = acc_index a, ad_ed25519_sk = ed25519_sk a,
      ad_falcon_sk = falcon_sk a, ad_address_bech32 = ok_or_default (to_bech32 E (acc_address a)),
      ad_balance = acc_balance a, ad_nonce = acc_nonce a\<rparr>"

fun map_result :: "('a \<Rightarrow> 'e + 'b) \<Rightarrow> 'a list \<Rightarrow> 'e + 'b list" where
  "map_result f [] = Inr []"
| "map_result f (x # xs) = (case f x of Inl e \<Rightarrow> Inl e | Inr y \<Rightarrow>
     (case map_result f xs of Inl e \<Rightarrow> Inl e | Inr ys \<Rightarrow> Inr (y # ys)))"

definition read_wallet_file :: "env \<Rightarrow> ('c wstate_scheme, wallet_error, bytes) M" where
  "read_wallet_file E = bnd (next_fault E) (\<lambda>z. case z of
      Some f \<Rightarrow> fail (Io (fault_text f))
    | None \<Rightarrow> bnd (gets wfile) (\<lambda>d. ok_or d (Io ''No such file or directory (os error 2)'')))"

definition wallet_open :: "env \<Rightarrow> codec \<Rightarrow> string \<Rightarrow> ('c wstate_scheme, wallet_error, wallet) M" where
  "wallet_open E C passphrase =
     bnd (read_wallet_file E) (\<lambda>data.
     bnd (or_err Serialization (result (de_envelope C data))) (\<lambda>state.
     seqM (guard (we_version state = WALLET_FORMAT_VERSION)
       (Decryption (''Unsupported wallet format version '' @ dec (we_version state))))
     (bnd (or_err Crypto (result (argon2id C (str_bytes passphrase) (we_argon2_salt state)))) (\<lambda>key.
     bnd (or_err Crypto (result (aead_decrypt C key (we_nonce state) (we_ciphertext state)))) (\<lambda>plain.
     bnd (or_err Serialization (result (de_payload C plain))) (\<lambda>payload.
     bnd (result (map_result (account_of_data E) (wp_accounts payload))) (\<lambda>accs.
     ret \<lparr>w_seed = wp_seed payload, accounts = accs, history = wp_history payload,
          metadata = wp_metadata payload, policy = wp_spend_policy payload,
          buckets = wp_spend_buckets payload\<rparr>)))))))"

definition payload_of :: "env \<Rightarrow> wallet \<Rightarrow> wallet_payload" where
  "payload_of E w = \<lparr>wp_seed = w_seed w, wp_accounts = map (data_of_account E) (accounts w),
     wp_history = history w, wp_metadata = metadata w, wp_spend_policy = policy w,
     wp_spend_buckets = buckets w\<rparr>"

definition write_wallet_file :: "env \<Rightarrow> bytes \<Rightarrow> ('c wstate_scheme, wallet_error, unit) M" where
  "write_wallet_file E data = bnd (next_fault E) (\<lambda>z. case z of
      Some f \<Rightarrow> fail (Io (fault_text f))
    | None \<Rightarrow> modify (\<lambda>s. s\<lparr>wfile := Some data\<rparr>))"

definition wallet_save :: "env \<Rightarrow> codec \<Rightarrow> string \<Rightarrow> ('c wstate_scheme, wallet_error, unit) M" where
  "wallet_save E C passphrase =
     bnd (fill_random E 32) (\<lambda>salt_bytes.
     bnd (or_err Crypto (result (argon2id C (str_bytes passphrase) (take 16 salt_bytes)))) (\<lambda>key.
     bnd (gets (\<lambda>s. seed_live C (n_time s))) (\<lambda>live.
     seqM (guard live SeedExpired)
     (bnd (gets wal) (\<lambda>w.
     bnd (or_err Serialization (result (ser_payload C (payload_of E w)))) (\<lambda>plain.
     bnd (fill_random E 24) (\<lambda>nonce.
     bnd (or_err Crypto (result (aead_encrypt C key nonce plain))) (\<lambda>ciphertext.
     bnd (or_err Serialization (result (ser_envelope C
       \<lparr>we_version = WALLET_FORMAT_VERSION, we_argon2_salt = take 16 salt_bytes,
        we_nonce = nonce, we_ciphertext = ciphertext\<rparr>))) (\<lambda>data.
     write_wallet_file E data)))))))))"

section \<open>What each operation does\<close>

lemma sat_add_mono: "a \<le> b \<Longrightarrow> sat_add_u64 a c \<le> sat_add_u64 b c"
  by (simp add: sat_add_u64_def)

lemma sat_add_le: "sat_add_u64 a c \<le> u64_max"
  by (simp add: sat_add_u64_def)

lemma over_cap_mono: "\<not> over_cap c v \<Longrightarrow> u \<le> v \<Longrightarrow> \<not> over_cap c u"
  by (auto simp: over_cap_def split: option.splits)

lemma roll_buckets_le:
  "day_spent (roll_buckets E now b) \<le> day_spent b" "month_spent (roll_buckets E now b) \<le> month_spent b"
  by (simp_all add: roll_buckets_def Let_def)

lemma touch_run [simp]: "touch E s = (Inr (), s\<lparr>n_time := n_time s + 1,
    wal := set_modified (secs (env_time E (n_time s))) (wal s)\<rparr>)"
  by (simp add: touch_def bnd_def modify_def)

lemma roll_spend_windows_run [simp]: "roll_spend_windows E s = (Inr (), s\<lparr>n_time := n_time s + 1,
    wal := (wal s)\<lparr>buckets := roll_buckets E (env_time E (n_time s)) (buckets (wal s))\<rparr>\<rparr>)"
  by (simp add: roll_spend_windows_def bnd_def modify_def)

definition spent_buckets :: "env \<Rightarrow> int \<Rightarrow> nat \<Rightarrow> spend_buckets \<Rightarrow> spend_buckets" where
  "spent_buckets E now amount b = (roll_buckets E now b)
     \<lparr>day_spent := sat_add_u64 (day_spent (roll_buckets E now b)) amount,
      month_spent := sat_add_u64 (month_spent (roll_buckets E now b)) amount\<rparr>"

lemma record_spend_run [simp]: "record_spend E amount s = (Inr (), s\<lparr>n_time := n_time s + 2,
    wal := set_modified (secs (env_time E (n_time s + 1)))
      ((wal s)\<lparr>buckets := spent_buckets E (env_time E (n_time s)) amount (buckets (wal s))\<rparr>)\<rparr>)"
  by (simp add: record_spend_def seqM_def bnd_def modify_def spent_buckets_def)

text \<open>\<open>within p b amount\<close>: paying \<open>amount\<close> with totals \<open>b\<close> respects the policy \<open>p\<close>.\<close>

definition within :: "spend_policy \<Rightarrow> spend_buckets \<Rightarrow> nat \<Rightarrow> bool" where
  "within p b amount \<longleftrightarrow> \<not> over_cap (per_tx p) amount \<and>
     \<not> over_cap (per_day p) (sat_add_u64 (day_spent b) amount) \<and>
     \<not> over_cap (per_month p) (sat_add_u64 (month_spent b) amount)"

abbreviation rolled :: "env \<Rightarrow> 'c wstate_scheme \<Rightarrow> spend_buckets" where
  "rolled E s \<equiv> roll_buckets E (env_time E (n_time s)) (buckets (wal s))"

lemma check_spend_run:
  "check_spend E amount s =
     (if within (policy (wal s)) (rolled E s) amount then Inr ()
      else fst (check_spend E amount s),
      s\<lparr>n_time := n_time s + 1, wal := (wal s)\<lparr>buckets := rolled E s\<rparr>\<rparr>)"
  by (simp add: check_spend_def seqM_def bnd_def gets_def Let_def ret_def within_def)

lemma check_spend_Inr: "check_spend E amount s = (Inr x, t) \<longleftrightarrow>
    within (policy (wal s)) (rolled E s) amount \<and>
    t = s\<lparr>n_time := n_time s + 1, wal := (wal s)\<lparr>buckets := rolled E s\<rparr>\<rparr>"
  by (auto simp: check_spend_def seqM_def bnd_def gets_def Let_def ret_def within_def split: if_splits)

lemma check_spend_not_panic: "fst (check_spend E amount s) \<noteq> Inl Panic"
  by (simp add: check_spend_def seqM_def bnd_def gets_def Let_def ret_def)

lemma update_balance_Inr: "update_balance E i b s = (Inr x, t) \<longleftrightarrow> find_account i (wal s) \<noteq> None \<and>
    t = s\<lparr>n_time := n_time s + 1, wal := set_modified (secs (env_time E (n_time s)))
      ((wal s)\<lparr>accounts := set_first_balance i b (accounts (wal s))\<rparr>)\<rparr>"
  by (auto simp: update_balance_def bnd_def gets_def seqM_def modify_def split: option.splits)

lemma add_transaction_Inr: "add_transaction E tx s = (Inr x, t) \<longleftrightarrow>
    (\<exists>b h. bincode E (transaction_json tx) = Inr b \<and>
       append_hash (blake3 E) (history (wal s)) (sha2_256 E b) = Some h \<and>
       t = s\<lparr>wal := (wal s)\<lparr>history := h\<rparr>\<rparr>)"
  by (auto simp: add_transaction_def M_Inr)

lemma transaction_new_run [simp]: "transaction_new E f g a fee n s =
    (Inr \<lparr>tx_hash_id = transaction_id E f g a fee n, tx_from = f, tx_to = g,
      tx_amount = a, tx_fee = fee, tx_nonce = n, tx_signature = [],
      tx_timestamp = secs (env_time E (n_time s)), tx_memo = None\<rparr>, s\<lparr>n_time := n_time s + 1\<rparr>)"
  by (simp add: transaction_new_def bnd_def ret_def)

lemma set_modified_simps [simp]:
  "accounts (set_modified m w) = accounts w" "history (set_modified m w) = history w"
  "policy (set_modified m w) = policy w" "buckets (set_modified m w) = buckets w"
  "w_seed (set_modified m w) = w_seed w"
  by (simp_all add: set_modified_def)

lemma hd_set_first_balance [simp]:
  "as \<noteq> [] \<Longrightarrow> acc_address (hd (set_first_balance i b as)) = acc_address (hd as)"
  "set_first_balance i b as = [] \<longleftrightarrow> as = []"
  by (cases as; simp)+

lemma get_balance_nonempty: "get_balance i w = Inr b \<Longrightarrow> accounts w \<noteq> []"
  by (auto simp: get_balance_def find_account_def split: option.splits)

text \<open>The transaction that a payment records.\<close>

definition payment_tx :: "env \<Rightarrow> native_pay_params \<Rightarrow> 'c wstate_scheme \<Rightarrow> transaction" where
  "payment_tx E p s = (let from = acc_address (hd (accounts (wal s))); to = recipient_address E (np_to p)
     in \<lparr>tx_hash_id = transaction_id E from to (np_amount p) 0 (transaction_count (wal s)),
         tx_from = from, tx_to = to, tx_amount = np_amount p, tx_fee = 0,
         tx_nonce = transaction_count (wal s), tx_signature = [],
         tx_timestamp = secs (env_time E (n_time s)), tx_memo = None\<rparr>)"

lemma pay_debit_Inr: "pay_debit E p s = (Inr x, t) \<longleftrightarrow>
    (\<exists>bal. get_balance 0 (wal s) = Inr bal \<and> np_amount p \<le> bal \<and>
      t = s\<lparr>n_time := n_time s + 1, wal := set_modified (secs (env_time E (n_time s)))
        ((wal s)\<lparr>accounts := set_first_balance 0 (bal - np_amount p) (accounts (wal s))\<rparr>)\<rparr>)"
  by (auto simp: pay_debit_def M_Inr update_balance_Inr get_balance_def split: option.splits)

lemma pay_record_Inr: "pay_record E p s = (Inr r, t) \<longleftrightarrow>
    accounts (wal s) \<noteq> [] \<and>
    (\<exists>b h. bincode E (transaction_json (payment_tx E p s)) = Inr b \<and>
      append_hash (blake3 E) (history (wal s)) (sha2_256 E b) = Some h \<and>
      r = \<lparr>nr_to = np_to p, nr_amount = np_amount p, nr_memo_hex = hex_encode (np_memo p),
          nr_tx_id = hex_encode (sha2_256 E b), nr_timestamp = rfc3339 E (env_time E (n_time s + 3))\<rparr> \<and>
      t = s\<lparr>n_time := n_time s + 4, wal := set_modified (secs (env_time E (n_time s + 2)))
        ((wal s)\<lparr>history := h,
           buckets := spent_buckets E (env_time E (n_time s + 1)) (np_amount p) (buckets (wal s))\<rparr>)\<rparr>)"
  by (cases "accounts (wal s)")
    (auto simp: pay_record_def M_Inr add_transaction_Inr payment_tx_def Let_def eval_nat_numeral)

text \<open>A completed payment, in full.\<close>

lemma pay_sync_paid:
  assumes "pay_sync E p s = (Inr r, t)"
  shows "\<not> over_cap (np_spend_cap p) (np_amount p)"
    and "within (policy (wal s)) (rolled E s) (np_amount p)"
    and "\<exists>bal. get_balance 0 (wal s) = Inr bal \<and> np_amount p \<le> bal \<and>
        accounts (wal t) = set_first_balance 0 (bal - np_amount p) (accounts (wal s))"
    and "\<exists>tx b. tx_amount tx = np_amount p \<and> tx_to tx = recipient_address E (np_to p) \<and>
        bincode E (transaction_json tx) = Inr b \<and>
        append_hash (blake3 E) (history (wal s)) (sha2_256 E b) = Some (history (wal t)) \<and>
        nr_tx_id r = hex_encode (sha2_256 E b)"
    and "policy (wal t) = policy (wal s)"
    and "buckets (wal t) = spent_buckets E (env_time E (n_time s + 3)) (np_amount p) (rolled E s)"
    and "nr_to r = np_to p" "nr_amount r = np_amount p" "nr_memo_hex r = hex_encode (np_memo p)"
proof -
  have run: "\<not> over_cap (np_spend_cap p) (np_amount p)"
    "within (policy (wal s)) (rolled E s) (np_amount p)"
    "\<exists>u. pay_debit E p (s\<lparr>n_time := n_time s + 1, wal := (wal s)\<lparr>buckets := rolled E s\<rparr>\<rparr>) = (Inr (), u) \<and>
       pay_record E p u = (Inr r, t)"
    using assms by (auto simp: pay_sync_def M_Inr check_spend_Inr)
  then obtain u where
    u: "pay_debit E p (s\<lparr>n_time := n_time s + 1, wal := (wal s)\<lparr>buckets := rolled E s\<rparr>\<rparr>) = (Inr (), u)"
    "pay_record E p u = (Inr r, t)" by blast
  from u(1) obtain bal where bal: "get_balance 0 (wal s) = Inr bal" "np_amount p \<le> bal"
    "accounts (wal u) = set_first_balance 0 (bal - np_amount p) (accounts (wal s))"
    "history (wal u) = history (wal s)" "policy (wal u) = policy (wal s)"
    "buckets (wal u) = rolled E s" "n_time u = n_time s + 2"
    by (auto simp: pay_debit_Inr get_balance_def find_account_def)
  from u(2) obtain b h where rec: "bincode E (transaction_json (payment_tx E p u)) = Inr b"
    "append_hash (blake3 E) (history (wal u)) (sha2_256 E b) = Some h"
    "r = \<lparr>nr_to = np_to p, nr_amount = np_amount p, nr_memo_hex = hex_encode (np_memo p),
          nr_tx_id = hex_encode (sha2_256 E b), nr_timestamp = rfc3339 E (env_time E (n_time u + 3))\<rparr>"
    "t = u\<lparr>n_time := n_time u + 4, wal := set_modified (secs (env_time E (n_time u + 2)))
        ((wal u)\<lparr>history := h,
           buckets := spent_buckets E (env_time E (n_time u + 1)) (np_amount p) (buckets (wal u))\<rparr>)\<rparr>"
    unfolding pay_record_Inr by blast
  note parts = bal rec
  show "\<exists>bal. get_balance 0 (wal s) = Inr bal \<and> np_amount p \<le> bal \<and>
      accounts (wal t) = set_first_balance 0 (bal - np_amount p) (accounts (wal s))"
    using parts by simp
  show "\<exists>tx b. tx_amount tx = np_amount p \<and> tx_to tx = recipient_address E (np_to p) \<and>
      bincode E (transaction_json tx) = Inr b \<and>
      append_hash (blake3 E) (history (wal s)) (sha2_256 E b) = Some (history (wal t)) \<and>
      nr_tx_id r = hex_encode (sha2_256 E b)"
    using parts by (intro exI [of _ "payment_tx E p u"] exI [of _ b]) (simp add: payment_tx_def Let_def)
  show "policy (wal t) = policy (wal s)" using parts by simp
  show "buckets (wal t) = spent_buckets E (env_time E (n_time s + 3)) (np_amount p) (rolled E s)"
    using parts by (simp add: eval_nat_numeral)
  show "nr_to r = np_to p" "nr_amount r = np_amount p" "nr_memo_hex r = hex_encode (np_memo p)"
    using parts by simp_all
  show "\<not> over_cap (np_spend_cap p) (np_amount p)"
    "within (policy (wal s)) (rolled E s) (np_amount p)" using run by simp_all
qed

section \<open>Refusals leave the money alone\<close>

text \<open>The state in which a payment cannot get stuck after the debit.\<close>

definition serializes :: "env \<Rightarrow> bool" where
  "serializes E \<longleftrightarrow> (\<forall>j. \<exists>b. bincode E j = Inr b)"

definition rail_ok :: "env \<Rightarrow> wallet \<Rightarrow> bool" where
  "rail_ok E w \<longleftrightarrow> digests32 E \<and> serializes E \<and> (\<exists>ls. mmr_holds (blake3 E) (history w) ls)"

definition balance0 :: "wallet \<Rightarrow> nat" where
  "balance0 w = (case find_account 0 w of None \<Rightarrow> 0 | Some a \<Rightarrow> acc_balance a)"

lemma rail_ok_append:
  assumes "rail_ok E w"
  obtains h where "append_hash (blake3 E) (history w) (sha2_256 E b) = Some h"
    "rail_ok E (w'\<lparr>history := h\<rparr>)"
proof -
  obtain ls where ls: "mmr_holds (blake3 E) (history w) ls" using assms by (auto simp: rail_ok_def)
  have "length (sha2_256 E b) = 32" using assms by (simp add: rail_ok_def digests32_def)
  then obtain h where "append_hash (blake3 E) (history w) (sha2_256 E b) = Some h"
    "mmr_holds (blake3 E) h (ls @ [sha2_256 E b])"
    using append_hash_holds [OF ls] by blast
  with assms show thesis by (intro that [of h]) (auto simp: rail_ok_def)
qed

lemma pay_record_total:
  assumes "rail_ok E (wal s)" "accounts (wal s) \<noteq> []"
  obtains r t where "pay_record E p s = (Inr r, t)"
proof -
  obtain b where "bincode E (transaction_json (payment_tx E p s)) = Inr b"
    using assms by (auto simp: rail_ok_def serializes_def)
  moreover obtain h where "append_hash (blake3 E) (history (wal s)) (sha2_256 E b) = Some h"
    using rail_ok_append [OF assms(1)] by blast
  ultimately show thesis
    using that assms(2) pay_record_Inr [of E p s] by blast
qed

lemma pay_debit_Inl: "pay_debit E p s = (Inl e, t) \<Longrightarrow> t = s \<and> e \<noteq> Panic"
  by (auto simp: pay_debit_def bnd_Inl seqM_def M_Inr update_balance_def guard_def result_def
      get_balance_def gets_def bnd_def modify_def ret_def split: option.splits sum.splits if_splits)

lemma pay_sync_refused:
  assumes "rail_ok E (wal s)" "pay_sync E p s = (Inl e, t)"
  shows "e \<noteq> Panic" "accounts (wal t) = accounts (wal s)" "history (wal t) = history (wal s)"
    "policy (wal t) = policy (wal s)" "wal t = wal s \<or> buckets (wal t) = rolled E s"
proof -
  let ?s1 = "s\<lparr>n_time := n_time s + 1, wal := (wal s)\<lparr>buckets := rolled E s\<rparr>\<rparr>"
  consider (cap) "t = s" "e \<noteq> Panic"
    | (refused) "check_spend E (np_amount p) s = (Inl e, t)"
    | (debit) "pay_debit E p ?s1 = (Inl e, t)"
    | (landed) u where "pay_debit E p ?s1 = (Inr (), u)" "pay_record E p u = (Inl e, t)"
    using assms(2) by (auto simp: pay_sync_def seqM_def bnd_Inl M_Inr guard_def ret_def check_spend_Inr
        split: if_splits)
  then have "e \<noteq> Panic \<and> accounts (wal t) = accounts (wal s) \<and> history (wal t) = history (wal s) \<and>
    policy (wal t) = policy (wal s) \<and> (wal t = wal s \<or> buckets (wal t) = rolled E s)"
  proof cases
    case refused
    then show ?thesis using check_spend_run [of E "np_amount p" s]
        check_spend_not_panic [of E "np_amount p" s] by auto
  next
    case debit
    then show ?thesis by (auto dest: pay_debit_Inl)
  next
    case landed
    from landed(1) have "accounts (wal u) \<noteq> []" "history (wal u) = history (wal s)"
      by (auto simp: pay_debit_Inr dest: get_balance_nonempty)
    then have "rail_ok E (wal u)" using assms(1) by (simp add: rail_ok_def)
    then show ?thesis using landed(2) \<open>accounts (wal u) \<noteq> []\<close> by (metis pay_record_total prod.inject sum.distinct(1))
  qed auto
  then show "e \<noteq> Panic" "accounts (wal t) = accounts (wal s)" "history (wal t) = history (wal s)"
    "policy (wal t) = policy (wal s)" "wal t = wal s \<or> buckets (wal t) = rolled E s" by blast+
qed

section \<open>The contract of a native rail\<close>

fun pay_all :: "(native_pay_params \<Rightarrow> ('s, wallet_error, native_receipt) M) \<Rightarrow>
    native_pay_params list \<Rightarrow> 's \<Rightarrow> native_receipt list \<times> 's" where
  "pay_all pay [] s = ([], s)"
| "pay_all pay (p # ps) s = (case pay p s of
       (Inr r, t) \<Rightarrow> (case pay_all pay ps t of (rs, u) \<Rightarrow> (r # rs, u))
     | (Inl _, t) \<Rightarrow> pay_all pay ps t)"

locale native_rail =
  fixes pay :: "native_pay_params \<Rightarrow> ('s, wallet_error, native_receipt) M"
    and funds :: "'s \<Rightarrow> nat"
    and ok :: "'s \<Rightarrow> bool"
  assumes pay_returns: "ok s \<Longrightarrow> pay p s = (Inr r, t) \<Longrightarrow>
      ok t \<and> nr_to r = np_to p \<and> nr_amount r = np_amount p \<and> funds s = funds t + np_amount p"
    and pay_refuses: "ok s \<Longrightarrow> pay p s = (Inl e, t) \<Longrightarrow> ok t \<and> e \<noteq> Panic \<and> funds t = funds s"
    and pay_cap: "pay p s = (Inr r, t) \<Longrightarrow> \<not> over_cap (np_spend_cap p) (np_amount p)"
begin

lemma conservation:
  "ok s \<Longrightarrow> pay_all pay ps s = (rs, t) \<Longrightarrow> ok t \<and> funds s = funds t + sum_list (map nr_amount rs)"
proof (induction ps arbitrary: s rs)
  case (Cons p ps)
  obtain q u where pay: "pay p s = (q, u)" by (cases "pay p s")
  show ?case
  proof (cases q)
    case (Inl e)
    with Cons pay pay_refuses [of s p e u] show ?thesis by auto
  next
    case (Inr r)
    obtain rs' where rest: "pay_all pay ps u = (rs', t)" "rs = r # rs'"
      using Cons.prems(2) pay Inr by (auto split: prod.splits)
    with Cons pay Inr pay_returns [of s p r u] show ?thesis by auto
  qed
qed auto

end

lemma find_set_first_balance:
  "List.find (\<lambda>a. acc_index a = i) as = Some a \<Longrightarrow>
   List.find (\<lambda>a. acc_index a = i) (set_first_balance i b as) = Some (a\<lparr>acc_balance := b\<rparr>)"
  by (induction as) (auto split: if_splits)

lemma balance0_debit:
  assumes "get_balance 0 w = Inr bal" "accounts w' = set_first_balance 0 (bal - n) (accounts w)" "n \<le> bal"
  shows "balance0 w = balance0 w' + n"
proof -
  obtain a where a: "find_account 0 w = Some a" "acc_balance a = bal"
    using assms(1) by (auto simp: get_balance_def split: option.splits)
  then have "find_account 0 w' = Some (a\<lparr>acc_balance := bal - n\<rparr>)"
    using assms(2) by (simp add: find_account_def find_set_first_balance)
  with a assms(3) show ?thesis by (simp add: balance0_def)
qed

lemma pay_sync_rail_ok:
  assumes "rail_ok E (wal s)" "pay_sync E p s = (Inr r, t)"
  shows "rail_ok E (wal t)"
proof -
  obtain b where "append_hash (blake3 E) (history (wal s)) (sha2_256 E b) = Some (history (wal t))"
    using pay_sync_paid(4) [OF assms(2)] by blast
  then have "rail_ok E ((wal t)\<lparr>history := history (wal t)\<rparr>)"
    using rail_ok_append [OF assms(1), of b "wal t"] by fastforce
  then show ?thesis by simp
qed

interpretation local_rail: native_rail "pay_sync E" "\<lambda>s. balance0 (wal s)" "\<lambda>s. rail_ok E (wal s)" for E
proof unfold_locales
  fix s p r and t :: "'a wstate_scheme"
  assume ok: "rail_ok E (wal s)" and run: "pay_sync E p s = (Inr r, t)"
  obtain bal where "get_balance 0 (wal s) = Inr bal" "np_amount p \<le> bal"
    "accounts (wal t) = set_first_balance 0 (bal - np_amount p) (accounts (wal s))"
    using pay_sync_paid(3) [OF run] by blast
  then have "balance0 (wal s) = balance0 (wal t) + np_amount p" by (intro balance0_debit)
  then show "rail_ok E (wal t) \<and> nr_to r = np_to p \<and> nr_amount r = np_amount p \<and>
      balance0 (wal s) = balance0 (wal t) + np_amount p"
    using pay_sync_rail_ok [OF ok run] pay_sync_paid(7,8) [OF run] by simp
next
  fix s p e and t :: "'a wstate_scheme"
  assume "rail_ok E (wal s)" "pay_sync E p s = (Inl e, t)"
  then show "rail_ok E (wal t) \<and> e \<noteq> Panic \<and> balance0 (wal t) = balance0 (wal s)"
    using pay_sync_refused(1-3) [of E s p e t] by (simp add: rail_ok_def balance0_def find_account_def)
next
  fix s p r and t :: "'a wstate_scheme"
  assume "pay_sync E p s = (Inr r, t)"
  then show "\<not> over_cap (np_spend_cap p) (np_amount p)" by (rule pay_sync_paid(1))
qed

section \<open>The daily limit\<close>

text \<open>\<open>spent_on d b\<close>: what the buckets record as spent on day \<open>d\<close>.\<close>

definition spent_on :: "nat \<Rightarrow> spend_buckets \<Rightarrow> nat" where
  "spent_on d b = (if day_key b = d then day_spent b else 0)"

lemma spent_on_roll: "secs now div 86400 = d \<Longrightarrow> spent_on d (roll_buckets E now b) = spent_on d b"
  by (simp add: spent_on_def roll_buckets_def Let_def)

lemma day_key_roll: "secs now div 86400 = d \<Longrightarrow> day_key (roll_buckets E now b) = d"
  by (auto simp: roll_buckets_def Let_def)

lemma pay_day:
  assumes "\<forall>n. secs (env_time E n) div 86400 = d" "pay_sync E p s = (Inr r, t)"
    and "per_day (policy (wal s)) = Some c" "c < u64_max"
  shows "spent_on d (buckets (wal t)) = spent_on d (buckets (wal s)) + np_amount p"
    and "spent_on d (buckets (wal t)) \<le> c"
proof -
  let ?b = "rolled E s" and ?n = "env_time E (n_time s + 3)"
  have d: "day_key ?b = d" using assms(1) by (simp add: day_key_roll)
  have b: "spent_on d (roll_buckets E ?n ?b) = spent_on d (buckets (wal s))"
    using assms(1) by (simp add: spent_on_roll)
  have "sat_add_u64 (day_spent ?b) (np_amount p) \<le> c"
    using pay_sync_paid(2) [OF assms(2)] assms(3) by (auto simp: within_def over_cap_def)
  moreover have "spent_on d ?b = spent_on d (buckets (wal s))"
    using assms(1) by (simp add: spent_on_roll)
  then have "day_spent ?b = spent_on d (buckets (wal s))" using d by (simp add: spent_on_def [of d ?b])
  ultimately have le: "spent_on d (buckets (wal s)) + np_amount p \<le> c"
    using assms(4) by (auto simp: sat_add_u64_def min_def split: if_splits)
  have key: "day_key (roll_buckets E ?n ?b) = d" using assms(1) by (simp add: day_key_roll)
  have "spent_on d (buckets (wal t)) = sat_add_u64 (spent_on d (roll_buckets E ?n ?b)) (np_amount p)"
    using key unfolding pay_sync_paid(6) [OF assms(2)] by (simp add: spent_buckets_def spent_on_def)
  then show "spent_on d (buckets (wal t)) = spent_on d (buckets (wal s)) + np_amount p"
    "spent_on d (buckets (wal t)) \<le> c"
    using b le assms(4) by (simp_all add: sat_add_u64_def)
qed

lemma refused_day:
  assumes "\<forall>n. secs (env_time E n) div 86400 = d" "rail_ok E (wal s)" "pay_sync E p s = (Inl e, t)"
  shows "spent_on d (buckets (wal t)) = spent_on d (buckets (wal s))"
  using pay_sync_refused(5) [OF assms(2,3)] assms(1) by (auto simp: spent_on_roll)

lemma pay_all_day:
  assumes day: "\<forall>n. secs (env_time E n) div 86400 = d" and c: "c < u64_max"
  shows "rail_ok E (wal s) \<Longrightarrow> per_day (policy (wal s)) = Some c \<Longrightarrow>
    spent_on d (buckets (wal s)) \<le> c \<Longrightarrow> pay_all (pay_sync E) ps s = (rs, t) \<Longrightarrow>
    spent_on d (buckets (wal s)) + sum_list (map nr_amount rs) \<le> c"
proof (induction ps arbitrary: s rs)
  case (Cons p ps)
  obtain q u where run: "pay_sync E p s = (q, u)" by (cases "pay_sync E p s")
  show ?case
  proof (cases q)
    case (Inl e)
    have "rail_ok E (wal u)" "policy (wal u) = policy (wal s)"
      "spent_on d (buckets (wal u)) = spent_on d (buckets (wal s))"
      using local_rail.pay_refuses [OF Cons.prems(1)] pay_sync_refused(4) [OF Cons.prems(1)]
        refused_day [OF day Cons.prems(1)] run Inl by auto
    with Cons.IH [of u rs] Cons.prems run Inl show ?thesis by simp
  next
    case (Inr r)
    with run have run: "pay_sync E p s = (Inr r, u)" by simp
    obtain rs' where rest: "pay_all (pay_sync E) ps u = (rs', t)" "rs = r # rs'"
      using Cons.prems(4) run by (auto split: prod.splits)
    note facts = pay_day [OF day run Cons.prems(2) c] pay_sync_paid(5,8) [OF run]
      pay_sync_rail_ok [OF Cons.prems(1) run]
    with Cons.IH [of u rs'] Cons.prems(2) rest show ?thesis by simp
  qed
qed simp

section \<open>Receipts and proofs\<close>

lemma payment_provable_aux:
  assumes "rail_ok E (wal s)" "pay_sync E p s = (Inr r, t)"
  shows "\<exists>pf. prove_transaction (wal t) (transaction_count (wal s)) = Some (Inr pf) \<and>
    mp_leaf_hash pf = nr_tx_id r \<and> verify_transaction_proof E (wal t) pf = Some True"
proof -
  obtain ls where ls: "mmr_holds (blake3 E) (history (wal s)) ls" using assms(1) by (auto simp: rail_ok_def)
  obtain b where b: "append_hash (blake3 E) (history (wal s)) (sha2_256 E b) = Some (history (wal t))"
    "nr_tx_id r = hex_encode (sha2_256 E b)" using pay_sync_paid(4) [OF assms(2)] by blast
  have "length (sha2_256 E b) = 32" using assms(1) by (simp add: rail_ok_def digests32_def)
  with append_hash_holds [OF ls] b(1)
  have holds: "mmr_holds (blake3 E) (history (wal t)) (ls @ [sha2_256 E b])" by fastforce
  have cnt: "transaction_count (wal s) = length ls" using ls by (simp add: transaction_count_def mmr_holds_def)
  obtain pf root where "mmr_prove (history (wal t)) (length ls) = Some (Inr pf)"
    "mmr_root (blake3 E) (history (wal t)) = Some root"
    "mp_leaf_hash pf = hex_encode (sha2_256 E b)" "verify_proof (blake3 E) pf root = Some True"
    using prove_holds [OF holds, of "length ls"] by auto
  then show ?thesis
    using b(2) cnt holds by (auto simp: prove_transaction_def verify_transaction_proof_def mmr_holds_def)
qed

section \<open>Saving and opening\<close>

definition codec_ok :: "codec \<Rightarrow> wallet_payload \<Rightarrow> bool" where
  "codec_ok C p \<longleftrightarrow> (\<forall>b. ser_payload C p = Inr b \<longrightarrow> de_payload C b = Inr p) \<and>
     (\<forall>k n m c. aead_encrypt C k n m = Inr c \<longrightarrow> aead_decrypt C k n c = Inr m) \<and>
     (\<forall>salt nonce ct b. length salt = 16 \<longrightarrow> length nonce = 24 \<longrightarrow>
        ser_envelope C \<lparr>we_version = 2, we_argon2_salt = salt, we_nonce = nonce, we_ciphertext = ct\<rparr> = Inr b \<longrightarrow>
        de_envelope C b = Inr \<lparr>we_version = 2, we_argon2_salt = salt, we_nonce = nonce, we_ciphertext = ct\<rparr>)"

definition bech32_ok :: "env \<Rightarrow> bool" where
  "bech32_ok E \<longleftrightarrow> (\<forall>d. \<forall>h \<in> {''origin'', ''torigin''}. length d = 20 \<longrightarrow> (\<exists>s. bech32m E h d = Inr s \<and> bech32_decode E s = Inr (h, d)))"

text \<open>What survives a save: the stealth keys are gone and every address is Bech32m.\<close>

definition stored_account :: "account \<Rightarrow> account" where
  "stored_account a = a\<lparr>acc_address := (acc_address a)\<lparr>addr_type := Bech32m\<rparr>, stealth_master := None\<rparr>"

definition stored_form :: "wallet \<Rightarrow> wallet" where
  "stored_form w = w\<lparr>accounts := map stored_account (accounts w)\<rparr>"

lemma account_roundtrip:
  assumes "bech32_ok E" "length (pubkey_hash (acc_address a)) = 20"
  shows "account_of_data E (data_of_account E a) = Inr (stored_account a)"
proof -
  obtain s where "bech32m E (hrp (acc_address a)) (pubkey_hash (acc_address a)) = Inr s"
    "bech32_decode E s = Inr (hrp (acc_address a), pubkey_hash (acc_address a))"
    using assms by (cases "addr_network (acc_address a)") (auto simp: bech32_ok_def hrp_def)
  then show ?thesis
    using assms(2) by (cases "addr_network (acc_address a)")
      (simp_all add: account_of_data_def data_of_account_def to_bech32_def from_bech32_def hrp_def
        ok_or_default_def account_new_def stored_account_def from_hash_def)
qed

lemma accounts_roundtrip:
  "bech32_ok E \<Longrightarrow> \<forall>a \<in> set as. length (pubkey_hash (acc_address a)) = 20 \<Longrightarrow>
   map_result (account_of_data E) (map (data_of_account E) as) = Inr (map stored_account as)"
  by (induction as) (simp_all add: account_roundtrip)

lemma open_save_aux:
  assumes "no_faults E" "codec_ok C (payload_of E (wal s))" "bech32_ok E"
    and "\<forall>a \<in> set (accounts (wal s)). length (pubkey_hash (acc_address a)) = 20"
    and "wallet_save E C passphrase s = (Inr (), t)"
  shows "\<exists>u. wallet_open E C passphrase t = (Inr (stored_form (wal s)), u)"
proof -
  define salt nonce where "salt = take 16 (random_bytes E 32 (n_rand s))"
    and "nonce = random_bytes E 24 (Suc (n_rand s))"
  then have len: "length salt = 16" "length nonce = 24" by simp_all
  obtain key plain ct data where save:
    "argon2id C (str_bytes passphrase) salt = Inr key"
    "ser_payload C (payload_of E (wal s)) = Inr plain"
    "aead_encrypt C key nonce plain = Inr ct"
    "ser_envelope C \<lparr>we_version = 2, we_argon2_salt = salt, we_nonce = nonce, we_ciphertext = ct\<rparr> = Inr data"
    "wfile t = Some data"
    using assms(1,5) by (auto simp: wallet_save_def M_Inr write_wallet_file_def no_faults_def
        WALLET_FORMAT_VERSION_def salt_def nonce_def)
  then have "de_envelope C data = Inr \<lparr>we_version = 2, we_argon2_salt = salt, we_nonce = nonce, we_ciphertext = ct\<rparr>"
    "aead_decrypt C key nonce ct = Inr plain" "de_payload C plain = Inr (payload_of E (wal s))"
    using assms(2) len by (auto simp: codec_ok_def)
  with save show ?thesis
    using assms(1,3,4)
    by (simp add: wallet_open_def read_wallet_file_def bnd_def gets_def seqM_def guard_def ret_def result_def
        or_err_def map_err_def ok_or_def no_faults_def WALLET_FORMAT_VERSION_def accounts_roundtrip
        payload_of_def stored_form_def)
qed

section \<open>Properties\<close>

definition example_account :: account where
  "example_account = (account_new ''a'' 0 [] [] (from_hash (replicate 20 1) Bech32 Mainnet))\<lparr>acc_balance := 100\<rparr>"

definition example_wallet :: wallet where
  "example_wallet = \<lparr>w_seed = [], accounts = [example_account], history = mmr_new,
     metadata = \<lparr>wm_name = [], wm_created_at = 0, wm_modified_at = 0, wm_version = 1\<rparr>,
     policy = \<lparr>per_tx = None, per_day = Some 50, per_month = None\<rparr>, buckets = spend_buckets_default\<rparr>"

definition example_wstate :: wstate where
  "example_wstate = \<lparr>n_time = 0, n_uuid = 0, n_rand = 0, n_io = 0, n_net = 0, wal = example_wallet, wfile = None\<rparr>"

definition example_payment :: "nat \<Rightarrow> native_pay_params" where
  "example_payment n = \<lparr>np_to = ''bob'', np_amount = n, np_memo = [], np_spend_cap = Some n, np_credit = None\<rparr>"

lemma example_rail_ok: "rail_ok example_env (wal example_wstate)"
proof -
  have "hash32 (blake3 example_env)" using example_env_digests by (simp add: digests32_def hash32_def)
  then show ?thesis
    using mmr_new_holds [of "blake3 example_env"] example_env_digests
    by (auto simp: rail_ok_def serializes_def example_wstate_def example_wallet_def example_env_def)
qed

text \<open>
  C6: Money is conserved on the offline native rail: over any sequence of payments,
  accepted and refused ones mixed, account 0 goes down by exactly the sum of the amounts
  on the receipts that were returned.
\<close>

theorem native_rail_conserves:
  assumes "rail_ok E (wal s)" "pay_all (pay_sync E) ps s = (rs, t)"
  shows "balance0 (wal s) = balance0 (wal t) + sum_list (map nr_amount rs)"
  using local_rail.conservation [OF assms] by simp

theorem native_rail_conserves_witness:
  "balance0 (wal example_wstate) =
     balance0 (wal (snd (pay_all (pay_sync example_env) (map example_payment [30, 40, 20]) example_wstate))) +
     sum_list (map nr_amount (fst (pay_all (pay_sync example_env) (map example_payment [30, 40, 20]) example_wstate)))"
  by (rule native_rail_conserves [OF example_rail_ok]) (rule prod.collapse [symmetric])

text \<open>
  The per-day cap of the standing policy holds for whole sequences: payments made
  while the clock stays within one calendar day never add up, with what was spent
  before, to more than the cap.
\<close>

theorem day_cap_respected:
  assumes "\<forall>n. secs (env_time E n) div 86400 = d" "rail_ok E (wal s)"
    and "per_day (policy (wal s)) = Some c" "c < u64_max" "spent_on d (buckets (wal s)) \<le> c"
    and "pay_all (pay_sync E) ps s = (rs, t)"
  shows "spent_on d (buckets (wal s)) + sum_list (map nr_amount rs) \<le> c"
  using assms pay_all_day by blast

definition still_env :: env where
  "still_env = example_env\<lparr>env_time := (\<lambda>n. 0)\<rparr>"

theorem day_cap_respected_witness:
  "spent_on 0 (buckets (wal example_wstate)) + sum_list (map nr_amount
     (fst (pay_all (pay_sync still_env) (map example_payment [30, 40, 20]) example_wstate))) \<le> 50"
proof (rule day_cap_respected)
  show "\<forall>n. secs (env_time still_env n) div 86400 = 0" by (simp add: still_env_def secs_def as_u64_def)
  show "rail_ok still_env (wal example_wstate)"
    using example_rail_ok by (simp add: rail_ok_def still_env_def digests32_def serializes_def)
  show "per_day (policy (wal example_wstate)) = Some 50" "(50 :: nat) < u64_max"
    "spent_on 0 (buckets (wal example_wstate)) \<le> 50"
    by (simp_all add: example_wstate_def example_wallet_def u64_max_def spent_on_def spend_buckets_default_def)
  show "pay_all (pay_sync still_env) (map example_payment [30, 40, 20]) example_wstate =
    (fst (pay_all (pay_sync still_env) (map example_payment [30, 40, 20]) example_wstate),
     snd (pay_all (pay_sync still_env) (map example_payment [30, 40, 20]) example_wstate))" by simp
qed

text \<open>
  Every accepted payment is provable: the transaction id on its receipt is the leaf
  of a membership proof that the wallet produces for the next history position and
  that verifies against the wallet's current root.
\<close>

theorem payment_provable:
  assumes "rail_ok E (wal s)" "pay_sync E p s = (Inr r, t)"
  shows "\<exists>pf. prove_transaction (wal t) (transaction_count (wal s)) = Some (Inr pf) \<and>
    mp_leaf_hash pf = nr_tx_id r \<and> verify_transaction_proof E (wal t) pf = Some True"
  using assms by (rule payment_provable_aux)

lemma example_payment_accepted:
  "\<exists>r t. pay_sync example_env (example_payment 30) example_wstate = (Inr r, t)"
proof -
  let ?s = "example_wstate" and ?p = "example_payment 30"
  let ?s1 = "?s\<lparr>n_time := n_time ?s + 1, wal := (wal ?s)\<lparr>buckets := rolled example_env ?s\<rparr>\<rparr>"
  have ok: "\<not> over_cap (np_spend_cap ?p) (np_amount ?p)"
    "within (policy (wal ?s)) (rolled example_env ?s) (np_amount ?p)"
    by (simp_all add: example_payment_def over_cap_def within_def example_wstate_def example_wallet_def
        roll_buckets_def spend_buckets_default_def sat_add_u64_def u64_max_def Let_def secs_def as_u64_def
        example_env_def)
  obtain u where u: "pay_debit example_env ?p ?s1 = (Inr (), u)"
    by (simp add: pay_debit_Inr get_balance_def find_account_def example_wstate_def example_wallet_def
        example_account_def account_new_def example_payment_def)
  then have "accounts (wal u) \<noteq> []" "rail_ok example_env (wal u)"
    using example_rail_ok by (auto simp: pay_debit_Inr rail_ok_def dest: get_balance_nonempty)
  then obtain r t where "pay_record example_env ?p u = (Inr r, t)" using pay_record_total by blast
  with u ok show ?thesis
    by (auto simp: pay_sync_def M_Inr check_spend_Inr simp del: One_nat_def)
qed

theorem payment_provable_witness:
  "\<exists>r t pf. pay_sync example_env (example_payment 30) example_wstate = (Inr r, t) \<and>
    prove_transaction (wal t) (transaction_count (wal example_wstate)) = Some (Inr pf) \<and>
    mp_leaf_hash pf = nr_tx_id r \<and> verify_transaction_proof example_env (wal t) pf = Some True"
  using example_payment_accepted payment_provable [OF example_rail_ok] by metis

text \<open>
  \<open>open\<close> after \<open>save\<close> with the same passphrase gives back the seed, the history, the
  metadata, the spend policy and the spend windows unchanged, and every account with its
  keys, balance and nonce; the stealth master keys are lost and the address encoding
  becomes Bech32m.
\<close>

theorem wallet_open_save:
  assumes "no_faults E" "codec_ok C (payload_of E (wal s))" "bech32_ok E"
    and "\<forall>a \<in> set (accounts (wal s)). length (pubkey_hash (acc_address a)) = 20"
    and "wallet_save E C passphrase s = (Inr (), t)"
  shows "\<exists>u. wallet_open E C passphrase t = (Inr (stored_form (wal s)), u)"
  using assms by (rule open_save_aux)

definition bech_env :: env where
  "bech_env = example_env\<lparr>bech32m := (\<lambda>h d. Inr (h @ CHR 0x3A # map (\<lambda>b. char_of (unat b)) d)),
     bech32_decode := (\<lambda>s. Inr (takeWhile (\<lambda>c. c \<noteq> CHR 0x3A) s,
        map (\<lambda>c. of_nat (of_char c)) (tl (dropWhile (\<lambda>c. c \<noteq> CHR 0x3A) s))))\<rparr>"

definition example_codec :: codec where
  "example_codec = \<lparr>argon2id = (\<lambda>p s. Inr p), aead_encrypt = (\<lambda>k n m. Inr m), aead_decrypt = (\<lambda>k n m. Inr m),
     ser_payload = (\<lambda>p. Inr []), de_payload = (\<lambda>b. Inr (payload_of bech_env (wal example_wstate))),
     ser_envelope = (\<lambda>e. Inr (we_argon2_salt e @ we_nonce e @ we_ciphertext e)),
     de_envelope = (\<lambda>b. Inr \<lparr>we_version = 2, we_argon2_salt = take 16 b, we_nonce = take 24 (drop 16 b),
        we_ciphertext = drop 40 b\<rparr>), seed_live = (\<lambda>t. True)\<rparr>"

lemma bech_env_ok: "bech32_ok bech_env"
proof -
  have "unat b mod 256 = unat b" for b :: byte using unsigned_less [of b, where 'a = nat] by simp
  then have "map (\<lambda>b :: byte. word_of_nat (unat b mod 256)) d = d" for d by (simp add: map_idI)
  then show ?thesis by (simp add: bech32_ok_def bech_env_def comp_def)
qed

lemma example_codec_ok: "codec_ok example_codec (payload_of bech_env (wal example_wstate))"
  by (simp add: codec_ok_def example_codec_def)

theorem wallet_open_save_witness:
  "\<exists>t u. wallet_save bech_env example_codec ''pw'' example_wstate = (Inr (), t) \<and>
    wallet_open bech_env example_codec ''pw'' t = (Inr (stored_form (wal example_wstate)), u)"
proof -
  have nf: "no_faults bech_env" using example_env_no_faults by (simp add: no_faults_def bech_env_def)
  then obtain t where t: "wallet_save bech_env example_codec ''pw'' example_wstate = (Inr (), t)"
    by (simp add: wallet_save_def bnd_def gets_def seqM_def guard_def ret_def result_def or_err_def
        map_err_def example_codec_def write_wallet_file_def no_faults_def modify_def)
  have "\<forall>a \<in> set (accounts (wal example_wstate)). length (pubkey_hash (acc_address a)) = 20"
    by (simp add: example_wstate_def example_wallet_def example_account_def account_new_def from_hash_def)
  from wallet_open_save [OF nf example_codec_ok bech_env_ok this t] t show ?thesis by blast
qed

end
