(* ===== verification/Payment_Store.thy ===== *)
theory Payment_Store
  imports Orders Wallet
begin

text \<open>
  \<open>origin-payments/src/store.rs\<close>: the payments root. Every JSONL file is the list of its
  records, in file order; the other files are optional values. One record \<open>world\<close> holds
  them all, on top of the wallet state. \<open>append_jsonl\<close>, \<open>read_jsonl\<close> and \<open>write_file\<close> are
  the only primitives that touch a file; each may fail as \<open>env_faults\<close> says.
  The record types of \<open>journal.rs\<close>, \<open>audit.rs\<close> and \<open>settle.rs\<close> that the files hold are
  declared here too.
\<close>

section \<open>Records\<close>

record retry_policy =
  rp_base_ms :: nat
  rp_factor :: nat
  rp_cap_ms :: nat
  rp_max_attempts :: nat

definition retry_policy_default :: retry_policy where
  "retry_policy_default = \<lparr>rp_base_ms = 1000, rp_factor = 2, rp_cap_ms = 300000, rp_max_attempts = 5\<rparr>"

datatype settlement_preference = Hold | OffRamp | SplitPref

record payments_config =
  cfg_version :: nat
  cfg_currency :: string
  cfg_enabled_rails :: "string list"
  cfg_retry :: retry_policy
  cfg_per_tx_cap :: "string option"
  cfg_executing_ttl_secs :: nat
  cfg_deferred_enabled :: bool
  cfg_settlement_preference :: settlement_preference
  cfg_split_pct :: nat

definition payments_config_default :: payments_config where
  "payments_config_default =
     \<lparr>cfg_version = 1, cfg_currency = ''USD'', cfg_enabled_rails = [''native''],
      cfg_retry = retry_policy_default, cfg_per_tx_cap = None, cfg_executing_ttl_secs = 300,
      cfg_deferred_enabled = False, cfg_settlement_preference = Hold, cfg_split_pct = 50\<rparr>"

record retry_job =
  rj_order :: string
  rj_attempt :: nat
  rj_next_retry_at :: string
  rj_backoff_ms :: nat
  rj_last_error :: string

record dlq_record =
  dl_order :: string
  dl_reason :: string
  dl_evidence :: json
  dl_created_at :: string

record notification =
  nt_id :: string
  nt_order :: string
  nt_event :: string
  nt_created_at :: string

datatype leg_account = Debit | Credit

record ledger_posting =
  lp_id :: string
  lp_batch :: string
  lp_order :: string
  lp_account :: leg_account
  lp_amount :: string
  lp_currency :: string
  lp_ts :: string
  lp_prev_hash :: bytes
  lp_signature :: "bytes option"
  lp_signer :: "order_signer option"
  lp_fx_rate :: "fx_rate option"

record audit_record =
  ar_prev_hash :: bytes
  ar_seq :: nat
  ar_entry_type :: nat
  ar_payload_hash :: bytes
  ar_payload :: json
  ar_timestamp :: nat
  ar_signature :: "bytes option"

record deferred_item =
  di_order :: string
  di_amount :: string
  di_currency :: string
  di_signed_payload :: bytes
  di_resource_url :: string

record deferred_batch =
  db_id :: string
  db_date :: string
  db_created_at :: string
  db_items :: "deferred_item list"
  db_content_hash :: bytes
  db_total_minor :: int

record receipt_hash =
  rh_order :: string
  rh_hash :: string
  rh_recorded_at :: string

record world = wstate +
  f_orders :: "payment_order list"
  f_events :: "payment_event list"
  f_journal :: "ledger_posting list"
  f_retry :: "retry_job list"
  f_dlq :: "dlq_record list"
  f_notifications :: "notification list"
  f_deferred :: "deferred_item list"
  f_batches :: "deferred_batch list"
  f_audit :: "audit_record list"
  f_receipts :: "receipt_hash list"
  f_config :: "payments_config option"
  f_mmr :: "mmr_state option"
  f_secrets :: "(string \<times> bytes) list"
  f_facilitators :: "(string \<times> string) list"

type_synonym ('c, 'a) W = "('c world_scheme, error, 'a) M"

section \<open>Files\<close>

definition path_of :: "env \<Rightarrow> string \<Rightarrow> string" where
  "path_of E name = store_root E @ ''/'' @ name"

definition append_line :: "env \<Rightarrow> string \<Rightarrow> string \<Rightarrow> ('c world_scheme \<Rightarrow> 'c world_scheme) \<Rightarrow> ('c, unit) W" where
  "append_line E serializing name f = bnd (next_fault E) (\<lambda>z. case z of
      None \<Rightarrow> modify f
    | Some (Corrupt i e) \<Rightarrow> fail (StoreCorrupted (serializing @ '': '' @ e))
    | Some (OpenErr e) \<Rightarrow> fail (IoError (''opening '' @ path_of E name @ '': '' @ e))
    | Some (WriteErr e) \<Rightarrow> fail (IoError (''appending to '' @ path_of E name @ '': '' @ e))
    | Some (FlushErr e) \<Rightarrow>
        seqM (modify f) (fail (IoError (''flushing '' @ path_of E name @ '': '' @ e))))"

definition append_jsonl :: "env \<Rightarrow> string \<Rightarrow> ('c world_scheme \<Rightarrow> 'c world_scheme) \<Rightarrow> ('c, unit) W" where
  "append_jsonl E name f = append_line E (''serializing record for '' @ path_of E name) name f"

definition read_jsonl :: "env \<Rightarrow> string \<Rightarrow> ('c world_scheme \<Rightarrow> 'a) \<Rightarrow> ('c, 'a) W" where
  "read_jsonl E name f = bnd (next_fault E) (\<lambda>z. case z of
      None \<Rightarrow> gets f
    | Some (Corrupt i e) \<Rightarrow> fail (StoreCorrupted (path_of E name @ '' line '' @ dec i @ '': '' @ e))
    | Some (OpenErr e) \<Rightarrow> fail (IoError (''reading '' @ path_of E name @ '': '' @ e))
    | Some (WriteErr e) \<Rightarrow> fail (IoError (''reading '' @ path_of E name @ '': '' @ e))
    | Some (FlushErr e) \<Rightarrow> fail (IoError (''reading '' @ path_of E name @ '': '' @ e)))"

text \<open>A whole file read at once; \<open>parsing\<close> is the text of a decoding error.\<close>

definition read_whole :: "env \<Rightarrow> string \<Rightarrow> string \<Rightarrow> ('c world_scheme \<Rightarrow> 'a) \<Rightarrow> ('c, 'a) W" where
  "read_whole E parsing name f = bnd (next_fault E) (\<lambda>z. case z of
      None \<Rightarrow> gets f
    | Some (Corrupt i e) \<Rightarrow> fail (StoreCorrupted (parsing @ '': '' @ e))
    | Some (OpenErr e) \<Rightarrow> fail (IoError (''reading '' @ path_of E name @ '': '' @ e))
    | Some (WriteErr e) \<Rightarrow> fail (IoError (''reading '' @ path_of E name @ '': '' @ e))
    | Some (FlushErr e) \<Rightarrow> fail (IoError (''reading '' @ path_of E name @ '': '' @ e)))"

text \<open>Temporary file, then rename: a failure leaves the target as it was.\<close>

definition write_file ::
  "env \<Rightarrow> string \<Rightarrow> string \<Rightarrow> string \<Rightarrow> ('c world_scheme \<Rightarrow> 'c world_scheme) \<Rightarrow> ('c, unit) W" where
  "write_file E serializing tmp name f = bnd (next_fault E) (\<lambda>z. case z of
      None \<Rightarrow> modify f
    | Some (Corrupt i e) \<Rightarrow> fail (StoreCorrupted (serializing @ '': '' @ e))
    | Some (OpenErr e) \<Rightarrow> fail (IoError (''writing '' @ path_of E tmp @ '': '' @ e))
    | Some (WriteErr e) \<Rightarrow> fail (IoError (''writing '' @ path_of E tmp @ '': '' @ e))
    | Some (FlushErr e) \<Rightarrow>
        fail (IoError (''renaming '' @ path_of E tmp @ '' -> '' @ path_of E name @ '': '' @ e)))"

section \<open>Receipt dedupe and configuration\<close>

definition record_receipt_hash :: "env \<Rightarrow> string \<Rightarrow> bytes \<Rightarrow> ('c, unit) W" where
  "record_receipt_hash E order_id h = bnd (now_rfc3339 E) (\<lambda>now.
     append_line E ''serializing receipt dedupe'' ''receipt_dedupe.jsonl''
       (\<lambda>s. s\<lparr>f_receipts := f_receipts s @
          [\<lparr>rh_order = order_id, rh_hash = hex_encode h, rh_recorded_at = now\<rparr>]\<rparr>))"

text \<open>A line that does not parse is skipped.\<close>

definition drop_line :: "nat \<Rightarrow> 'a list \<Rightarrow> 'a list" where
  "drop_line i xs = take (i - 1) xs @ drop i xs"

definition is_receipt_settled :: "env \<Rightarrow> bytes \<Rightarrow> ('c, bool) W" where
  "is_receipt_settled E h =
     (let hit = (\<lambda>rs. list_ex (\<lambda>r. rh_hash r = hex_encode h) rs);
          reading = ''reading '' @ path_of E ''receipt_dedupe.jsonl'' @ '': '' in
      bnd (next_fault E) (\<lambda>z. case z of
         None \<Rightarrow> gets (\<lambda>s. hit (f_receipts s))
       | Some (Corrupt i e) \<Rightarrow> gets (\<lambda>s. hit (drop_line i (f_receipts s)))
       | Some (OpenErr e) \<Rightarrow> fail (IoError (reading @ e))
       | Some (WriteErr e) \<Rightarrow> fail (IoError (reading @ e))
       | Some (FlushErr e) \<Rightarrow> fail (IoError (reading @ e))))"

definition write_config :: "env \<Rightarrow> payments_config \<Rightarrow> ('c, unit) W" where
  "write_config E cfg = bnd (gets f_config) (\<lambda>old.
     seqM (guard (old = None) (AlreadyInitialized (path_of E ''config.toml'')))
     (write_file E ''serializing config'' ''config.toml.tmp'' ''config.toml''
        (\<lambda>s. s\<lparr>f_config := Some cfg\<rparr>)))"

definition load_config :: "env \<Rightarrow> ('c, payments_config) W" where
  "load_config E = bnd (gets f_config) (\<lambda>z. case z of
      None \<Rightarrow> ret payments_config_default
    | Some cfg \<Rightarrow> read_whole E ''parsing config'' ''config.toml'' (\<lambda>_. cfg))"

section \<open>Events and orders\<close>

definition append_event :: "env \<Rightarrow> payment_event \<Rightarrow> ('c, unit) W" where
  "append_event E ev = append_jsonl E ''payment_events.jsonl'' (\<lambda>s. s\<lparr>f_events := f_events s @ [ev]\<rparr>)"

definition events :: "env \<Rightarrow> ('c, payment_event list) W" where
  "events E = read_jsonl E ''payment_events.jsonl'' f_events"

definition latest_event :: "env \<Rightarrow> string \<Rightarrow> ('c, payment_event) W" where
  "latest_event E event_id = bnd (events E) (\<lambda>evs.
     ok_or (find_last (\<lambda>e. ev_id e = event_id) evs) (EventNotFound event_id))"

definition update_event :: "env \<Rightarrow> payment_event \<Rightarrow> ('c, unit) W" where
  "update_event E ev = append_event E ev"

definition append_order :: "env \<Rightarrow> payment_order \<Rightarrow> ('c, unit) W" where
  "append_order E x = append_jsonl E ''payment_orders.jsonl'' (\<lambda>s. s\<lparr>f_orders := f_orders s @ [x]\<rparr>)"

definition orders :: "env \<Rightarrow> ('c, payment_order list) W" where
  "orders E = read_jsonl E ''payment_orders.jsonl'' f_orders"

datatype insert_outcome = Inserted | Replay payment_order

definition insert_order :: "env \<Rightarrow> payment_order \<Rightarrow> ('c, insert_outcome) W" where
  "insert_order E x = bnd (orders E) (\<lambda>os.
     case List.find (\<lambda>y. po_id y = po_id x) os of
       Some y \<Rightarrow> ret (Replay y)
     | None \<Rightarrow> seqM (append_order E x) (ret Inserted))"

definition get_order :: "env \<Rightarrow> string \<Rightarrow> ('c, payment_order) W" where
  "get_order E oid = bnd (orders E) (\<lambda>os.
     ok_or (find_last (\<lambda>x. po_id x = oid) os) (OrderNotFound oid))"

text \<open>A \<open>HashMap\<close> from id to the last snapshot, listed in an arbitrary order.\<close>

definition latest_of :: "payment_order list \<Rightarrow> string \<Rightarrow> payment_order" where
  "latest_of os oid = the (find_last (\<lambda>x. po_id x = oid) os)"

definition latest_orders :: "env \<Rightarrow> ('c, payment_order list) W" where
  "latest_orders E = bnd (orders E) (\<lambda>os. bnd (gets n_io) (\<lambda>n.
     ret (map (latest_of os) (env_shuffle E n (remdups (map po_id os))))))"

definition orders_with_status :: "env \<Rightarrow> order_status \<Rightarrow> ('c, payment_order list) W" where
  "orders_with_status E st = bnd (latest_orders E) (\<lambda>os. ret (filter (\<lambda>x. po_status x = st) os))"

definition update_order :: "env \<Rightarrow> payment_order \<Rightarrow> ('c, unit) W" where
  "update_order E x = append_order E x"

section \<open>The other logs\<close>

definition append_posting :: "env \<Rightarrow> ledger_posting \<Rightarrow> ('c, unit) W" where
  "append_posting E p = append_jsonl E ''journal.jsonl'' (\<lambda>s. s\<lparr>f_journal := f_journal s @ [p]\<rparr>)"

definition postings :: "env \<Rightarrow> ('c, ledger_posting list) W" where
  "postings E = read_jsonl E ''journal.jsonl'' f_journal"

definition append_retry_job :: "env \<Rightarrow> retry_job \<Rightarrow> ('c, unit) W" where
  "append_retry_job E j = append_jsonl E ''retry_queue.jsonl'' (\<lambda>s. s\<lparr>f_retry := f_retry s @ [j]\<rparr>)"

definition retry_jobs :: "env \<Rightarrow> ('c, retry_job list) W" where
  "retry_jobs E = read_jsonl E ''retry_queue.jsonl'' f_retry"

definition append_dlq :: "env \<Rightarrow> dlq_record \<Rightarrow> ('c, unit) W" where
  "append_dlq E r = append_jsonl E ''dlq.jsonl'' (\<lambda>s. s\<lparr>f_dlq := f_dlq s @ [r]\<rparr>)"

definition dlq_records :: "env \<Rightarrow> ('c, dlq_record list) W" where
  "dlq_records E = read_jsonl E ''dlq.jsonl'' f_dlq"

definition dlq_record :: "env \<Rightarrow> string \<Rightarrow> ('c, dlq_record) W" where
  "dlq_record E oid = bnd (dlq_records E) (\<lambda>rs.
     ok_or (find_last (\<lambda>r. dl_order r = oid) rs) (OrderNotFound oid))"

definition append_notification :: "env \<Rightarrow> notification \<Rightarrow> ('c, unit) W" where
  "append_notification E n = append_jsonl E ''notifications.jsonl''
     (\<lambda>s. s\<lparr>f_notifications := f_notifications s @ [n]\<rparr>)"

definition notifications :: "env \<Rightarrow> ('c, notification list) W" where
  "notifications E = read_jsonl E ''notifications.jsonl'' f_notifications"

definition append_deferred_commitment :: "env \<Rightarrow> deferred_item \<Rightarrow> ('c, unit) W" where
  "append_deferred_commitment E i = append_jsonl E ''deferred_commitments.jsonl''
     (\<lambda>s. s\<lparr>f_deferred := f_deferred s @ [i]\<rparr>)"

definition deferred_commitments :: "env \<Rightarrow> ('c, deferred_item list) W" where
  "deferred_commitments E = read_jsonl E ''deferred_commitments.jsonl'' f_deferred"

definition clear_deferred_commitments :: "env \<Rightarrow> ('c, unit) W" where
  "clear_deferred_commitments E = bnd (next_fault E) (\<lambda>z. case z of
      None \<Rightarrow> modify (\<lambda>s. s\<lparr>f_deferred := []\<rparr>)
    | Some f \<Rightarrow> fail (IoError (''clearing '' @ path_of E ''deferred_commitments.jsonl'' @ '': '' @ fault_text f)))"

definition append_audit_record :: "env \<Rightarrow> audit_record \<Rightarrow> ('c, unit) W" where
  "append_audit_record E r = append_jsonl E ''audit.jsonl'' (\<lambda>s. s\<lparr>f_audit := f_audit s @ [r]\<rparr>)"

definition audit_records :: "env \<Rightarrow> ('c, audit_record list) W" where
  "audit_records E = read_jsonl E ''audit.jsonl'' f_audit"

section \<open>The checkpoint range\<close>

definition load_mmr :: "env \<Rightarrow> ('c, mmr_state) W" where
  "load_mmr E = bnd (gets f_mmr) (\<lambda>z. case z of
      None \<Rightarrow> ret mmr_new
    | Some m \<Rightarrow> read_whole E (''parsing '' @ path_of E ''mmr.json'') ''mmr.json'' (\<lambda>_. m))"

definition save_mmr :: "env \<Rightarrow> mmr_state \<Rightarrow> ('c, unit) W" where
  "save_mmr E m = write_file E ''serializing mmr'' ''mmr.toml.tmp'' ''mmr.json'' (\<lambda>s. s\<lparr>f_mmr := Some m\<rparr>)"

definition checkpoint_mmr :: "env \<Rightarrow> bytes \<Rightarrow> ('c, bytes) W" where
  "checkpoint_mmr E leaf_hash =
     bnd (load_mmr E) (\<lambda>m.
     bnd (unwrap (append_hash (blake3 E) m leaf_hash)) (\<lambda>m'.
     bnd (unwrap (mmr_root (blake3 E) m')) (\<lambda>root.
     seqM (save_mmr E m') (ret root))))"

section \<open>Runs of the primitives\<close>

lemma append_line_run:
  assumes "append_line E m name f s = (r, t)"
  shows "(r = Inr () \<and> t = f (s\<lparr>n_io := n_io s + 1\<rparr>)) \<or>
    (\<exists>e. r = Inl (Err e) \<and> (t = s\<lparr>n_io := n_io s + 1\<rparr> \<or> t = f (s\<lparr>n_io := n_io s + 1\<rparr>)))"
  using assms by (auto simp: append_line_def bnd_def seqM_def modify_def split: option.splits fault.splits)

lemma append_line_no_fault:
  "no_faults E \<Longrightarrow> append_line E m name f s = (Inr (), f (s\<lparr>n_io := n_io s + 1\<rparr>))"
  by (simp add: append_line_def bnd_def modify_def no_faults_def)

lemma append_jsonl_no_fault:
  "no_faults E \<Longrightarrow> append_jsonl E name f s = (Inr (), f (s\<lparr>n_io := n_io s + 1\<rparr>))"
  by (simp add: append_jsonl_def append_line_no_fault)

lemma append_jsonl_run:
  "append_jsonl E name f s = (r, t) \<Longrightarrow> (r = Inr () \<and> t = f (s\<lparr>n_io := n_io s + 1\<rparr>)) \<or>
    (\<exists>e. r = Inl (Err e) \<and> (t = s\<lparr>n_io := n_io s + 1\<rparr> \<or> t = f (s\<lparr>n_io := n_io s + 1\<rparr>)))"
  unfolding append_jsonl_def by (rule append_line_run)

lemma append_jsonl_Inr:
  "append_jsonl E name f s = (Inr x, t) \<Longrightarrow> t = f (s\<lparr>n_io := n_io s + 1\<rparr>)"
  by (drule append_jsonl_run) auto

lemma read_jsonl_run:
  assumes "read_jsonl E name f s = (r, t)"
  shows "t = s\<lparr>n_io := n_io s + 1\<rparr> \<and> (r = Inr (f t) \<or> (\<exists>e. r = Inl (Err e)))"
  using assms by (auto simp: read_jsonl_def bnd_def gets_def split: option.splits fault.splits)

lemma read_jsonl_Inr:
  "read_jsonl E name f s = (Inr x, t) \<Longrightarrow> t = s\<lparr>n_io := n_io s + 1\<rparr> \<and> x = f t"
  by (drule read_jsonl_run) auto

lemma read_jsonl_no_fault:
  "no_faults E \<Longrightarrow> read_jsonl E name f s = (Inr (f (s\<lparr>n_io := n_io s + 1\<rparr>)), s\<lparr>n_io := n_io s + 1\<rparr>)"
  by (simp add: read_jsonl_def bnd_def gets_def no_faults_def)

lemmas append_defs = append_event_def update_event_def append_order_def update_order_def
  append_posting_def append_retry_job_def append_dlq_def append_notification_def
  append_deferred_commitment_def append_audit_record_def

lemmas read_defs = events_def orders_def postings_def retry_jobs_def dlq_records_def
  notifications_def deferred_commitments_def audit_records_def

section \<open>Relations kept by the store\<close>

lemmas preorders [keeps_rules] = same_rel.state_preorder_axioms ext_rel.state_preorder_axioms
  inv_rel.state_preorder_axioms

text \<open>A file that an operation does not mention stays as it is.\<close>

lemma clock_ok_fields [keeps_rules]:
  "clock_ok (\<lambda>s t. f_orders t = f_orders s)"
  "clock_ok (\<lambda>s t. f_events t = f_events s)"
  "clock_ok (\<lambda>s t. f_journal t = f_journal s)"
  "clock_ok (\<lambda>s t. f_retry t = f_retry s)"
  "clock_ok (\<lambda>s t. f_dlq t = f_dlq s)"
  "clock_ok (\<lambda>s t. f_notifications t = f_notifications s)"
  "clock_ok (\<lambda>s t. f_deferred t = f_deferred s)"
  "clock_ok (\<lambda>s t. f_batches t = f_batches s)"
  "clock_ok (\<lambda>s t. f_audit t = f_audit s)"
  "clock_ok (\<lambda>s t. f_receipts t = f_receipts s)"
  "clock_ok (\<lambda>s t. f_config t = f_config s)"
  "clock_ok (\<lambda>s t. f_mmr t = f_mmr s)"
  "clock_ok (\<lambda>s t. f_secrets t = f_secrets s)"
  "clock_ok (\<lambda>s t. f_facilitators t = f_facilitators s)"
  "clock_ok (\<lambda>s t. wal t = wal s)"
  "clock_ok (\<lambda>s t. wfile t = wfile s)"
  by (simp_all add: clock_ok_def)

lemma clock_ok_extends [keeps_rules]:
  "clock_ok (\<lambda>s t. prefix (f_orders s) (f_orders t))"
  "clock_ok (\<lambda>s t. prefix (f_events s) (f_events t))"
  "clock_ok (\<lambda>s t. prefix (f_journal s) (f_journal t))"
  "clock_ok (\<lambda>s t. prefix (f_retry s) (f_retry t))"
  "clock_ok (\<lambda>s t. prefix (f_dlq s) (f_dlq t))"
  "clock_ok (\<lambda>s t. prefix (f_notifications s) (f_notifications t))"
  "clock_ok (\<lambda>s t. prefix (f_audit s) (f_audit t))"
  "clock_ok (\<lambda>s t. prefix (f_receipts s) (f_receipts t))"
  by (simp_all add: clock_ok_def)

lemma io_step:
  assumes "state_preorder R" "clock_ok R" "\<And>s. R s (f s)"
    and "t = s\<lparr>n_io := n_io s + 1\<rparr> \<or> t = f (s\<lparr>n_io := n_io s + 1\<rparr>)"
  shows "R s t"
proof -
  have "R s (s\<lparr>n_io := n_io s + 1\<rparr>)" using assms(2) by (simp add: clock_ok_def)
  with assms(4) show ?thesis
    by (elim disjE) (simp, simp, rule state_preorder.rel_trans [OF assms(1)], assumption, rule assms(3))
qed

lemma append_line_keeps [keeps_rules]:
  assumes "state_preorder R" "clock_ok R" "\<And>s. R s (f s)"
  shows "keeps R (append_line E m name f)"
proof (rule keepsI)
  fix s r t
  assume "append_line E m name f s = (r, t)"
  then have "t = s\<lparr>n_io := n_io s + 1\<rparr> \<or> t = f (s\<lparr>n_io := n_io s + 1\<rparr>)"
    by (auto dest: append_line_run)
  then show "R s t" by (rule io_step [OF assms])
qed

lemma append_jsonl_keeps [keeps_rules]:
  "state_preorder R \<Longrightarrow> clock_ok R \<Longrightarrow> (\<And>s. R s (f s)) \<Longrightarrow> keeps R (append_jsonl E name f)"
  unfolding append_jsonl_def by (rule append_line_keeps)

lemma read_jsonl_keeps [keeps_rules]: "clock_ok R \<Longrightarrow> keeps R (read_jsonl E name f)"
  by (rule keepsI) (auto simp: clock_ok_def dest: read_jsonl_run)

lemma read_whole_keeps [keeps_rules]: "clock_ok R \<Longrightarrow> keeps R (read_whole E m name f)"
  by (rule keepsI) (auto simp: clock_ok_def read_whole_def bnd_def gets_def split: option.splits fault.splits)

lemma write_file_keeps [keeps_rules]:
  assumes "state_preorder R" "clock_ok R" "\<And>s. R s (f s)"
  shows "keeps R (write_file E m tmp name f)"
proof (rule keepsI)
  fix s r t
  assume "write_file E m tmp name f s = (r, t)"
  then have "t = s\<lparr>n_io := n_io s + 1\<rparr> \<or> t = f (s\<lparr>n_io := n_io s + 1\<rparr>)"
    by (auto simp: write_file_def bnd_def modify_def split: option.splits fault.splits)
  then show "R s t" by (rule io_step [OF assms])
qed

lemma append_event_keeps [keeps_rules]:
  "state_preorder R \<Longrightarrow> clock_ok R \<Longrightarrow> (\<And>s. R s (s\<lparr>f_events := f_events s @ [ev]\<rparr>)) \<Longrightarrow> keeps R (append_event E ev)"
  unfolding append_defs by (rule append_jsonl_keeps)

lemma update_event_keeps [keeps_rules]:
  "state_preorder R \<Longrightarrow> clock_ok R \<Longrightarrow> (\<And>s. R s (s\<lparr>f_events := f_events s @ [ev]\<rparr>)) \<Longrightarrow> keeps R (update_event E ev)"
  unfolding append_defs by (rule append_jsonl_keeps)

lemma append_order_keeps [keeps_rules]:
  "state_preorder R \<Longrightarrow> clock_ok R \<Longrightarrow> (\<And>s. R s (s\<lparr>f_orders := f_orders s @ [x]\<rparr>)) \<Longrightarrow> keeps R (append_order E x)"
  unfolding append_defs by (rule append_jsonl_keeps)

lemma update_order_keeps [keeps_rules]:
  "state_preorder R \<Longrightarrow> clock_ok R \<Longrightarrow> (\<And>s. R s (s\<lparr>f_orders := f_orders s @ [x]\<rparr>)) \<Longrightarrow> keeps R (update_order E x)"
  unfolding append_defs by (rule append_jsonl_keeps)

lemma append_posting_keeps [keeps_rules]:
  "state_preorder R \<Longrightarrow> clock_ok R \<Longrightarrow> (\<And>s. R s (s\<lparr>f_journal := f_journal s @ [p]\<rparr>)) \<Longrightarrow> keeps R (append_posting E p)"
  unfolding append_defs by (rule append_jsonl_keeps)

lemma append_retry_job_keeps [keeps_rules]:
  "state_preorder R \<Longrightarrow> clock_ok R \<Longrightarrow> (\<And>s. R s (s\<lparr>f_retry := f_retry s @ [j]\<rparr>)) \<Longrightarrow> keeps R (append_retry_job E j)"
  unfolding append_defs by (rule append_jsonl_keeps)

lemma append_dlq_keeps [keeps_rules]:
  "state_preorder R \<Longrightarrow> clock_ok R \<Longrightarrow> (\<And>s. R s (s\<lparr>f_dlq := f_dlq s @ [r]\<rparr>)) \<Longrightarrow> keeps R (append_dlq E r)"
  unfolding append_defs by (rule append_jsonl_keeps)

lemma append_notification_keeps [keeps_rules]:
  "state_preorder R \<Longrightarrow> clock_ok R \<Longrightarrow> (\<And>s. R s (s\<lparr>f_notifications := f_notifications s @ [n]\<rparr>)) \<Longrightarrow> keeps R (append_notification E n)"
  unfolding append_defs by (rule append_jsonl_keeps)

lemma append_deferred_commitment_keeps [keeps_rules]:
  "state_preorder R \<Longrightarrow> clock_ok R \<Longrightarrow> (\<And>s. R s (s\<lparr>f_deferred := f_deferred s @ [i]\<rparr>)) \<Longrightarrow> keeps R (append_deferred_commitment E i)"
  unfolding append_defs by (rule append_jsonl_keeps)

lemma append_audit_record_keeps [keeps_rules]:
  "state_preorder R \<Longrightarrow> clock_ok R \<Longrightarrow> (\<And>s. R s (s\<lparr>f_audit := f_audit s @ [r]\<rparr>)) \<Longrightarrow> keeps R (append_audit_record E r)"
  unfolding append_defs by (rule append_jsonl_keeps)

lemma reads_keep [keeps_rules]:
  "clock_ok R \<Longrightarrow> keeps R (events E)"
  "clock_ok R \<Longrightarrow> keeps R (orders E)"
  "clock_ok R \<Longrightarrow> keeps R (postings E)"
  "clock_ok R \<Longrightarrow> keeps R (retry_jobs E)"
  "clock_ok R \<Longrightarrow> keeps R (dlq_records E)"
  "clock_ok R \<Longrightarrow> keeps R (notifications E)"
  "clock_ok R \<Longrightarrow> keeps R (deferred_commitments E)"
  "clock_ok R \<Longrightarrow> keeps R (audit_records E)"
  unfolding read_defs by (rule read_jsonl_keeps, assumption)+

section \<open>Latest line wins\<close>

text \<open>
  The contract shared by the order log, the event log and the dead-letter log: an update
  appends a snapshot, a lookup returns the last snapshot with the key.
\<close>

locale latest_wins =
  fixes put :: "'a \<Rightarrow> ('s, error, unit) M"
    and get :: "'k \<Rightarrow> ('s, error, 'a) M"
    and key :: "'a \<Rightarrow> 'k"
    and log :: "'s \<Rightarrow> 'a list"
  assumes put_ok: "put x s = (Inr u, t) \<Longrightarrow> log t = log s @ [x]"
    and put_err: "put x s = (Inl e, t) \<Longrightarrow> log t = log s \<or> log t = log s @ [x]"
    and get_ok: "get k s = (Inr x, t) \<Longrightarrow> log t = log s \<and> find_last (\<lambda>y. key y = k) (log s) = Some x"
    and get_err: "get k s = (Inl e, t) \<Longrightarrow> log t = log s"
begin

lemma get_after_put:
  assumes "put x s = (Inr u, t)" "get (key x) t = (Inr y, v)"
  shows "y = x"
  using get_ok [OF assms(2)] put_ok [OF assms(1)] by simp

lemma get_other_after_put:
  assumes "put x s = (r, t)" "k \<noteq> key x" "get k t = (Inr y, v)"
  shows "find_last (\<lambda>z. key z = k) (log s) = Some y"
proof -
  have "log t = log s \<or> log t = log s @ [x]"
    using assms(1) put_ok [of x s _ t] put_err [of x s _ t] by (cases r) auto
  then show ?thesis using get_ok [OF assms(3)] assms(2) by auto
qed

lemma get_sound: "get k s = (Inr x, t) \<Longrightarrow> x \<in> set (log s) \<and> key x = k"
  using get_ok [of k s x t] by (auto dest: find_last_Some)

end

lemma put_log_rules:
  "update_order E x s = (Inr u, t) \<Longrightarrow> f_orders t = f_orders s @ [x]"
  "update_order E x s = (Inl e, t) \<Longrightarrow> f_orders t = f_orders s \<or> f_orders t = f_orders s @ [x]"
  "update_event E ev s = (Inr u, t) \<Longrightarrow> f_events t = f_events s @ [ev]"
  "update_event E ev s = (Inl e, t) \<Longrightarrow> f_events t = f_events s \<or> f_events t = f_events s @ [ev]"
  "append_dlq E d s = (Inr u, t) \<Longrightarrow> f_dlq t = f_dlq s @ [d]"
  "append_dlq E d s = (Inl e, t) \<Longrightarrow> f_dlq t = f_dlq s \<or> f_dlq t = f_dlq s @ [d]"
  unfolding append_defs by (drule append_jsonl_run; auto)+

lemma get_log_rules:
  "get_order E k s = (Inr x, t) \<Longrightarrow> f_orders t = f_orders s \<and> find_last (\<lambda>y. po_id y = k) (f_orders s) = Some x"
  "latest_event E k s = (Inr ev, t) \<Longrightarrow> f_events t = f_events s \<and> find_last (\<lambda>y. ev_id y = k) (f_events s) = Some ev"
  "dlq_record E k s = (Inr d, t) \<Longrightarrow> f_dlq t = f_dlq s \<and> find_last (\<lambda>y. dl_order y = k) (f_dlq s) = Some d"
  by (auto simp: get_order_def latest_event_def dlq_record_def read_defs M_Inr dest!: read_jsonl_Inr)

lemma get_keeps [keeps_rules]:
  assumes "state_preorder R" "clock_ok R"
  shows "keeps R (get_order E k)" "keeps R (latest_event E k)" "keeps R (dlq_record E k)"
  unfolding get_order_def latest_event_def dlq_record_def
  by (intro state_preorder.bnd_ok state_preorder.ok_or_ok reads_keep assms)+

lemma get_same:
  "get_order E k s = (r, t) \<Longrightarrow> f_orders t = f_orders s"
  "latest_event E k s = (r', t) \<Longrightarrow> f_events t = f_events s"
  "dlq_record E k s = (r'', t) \<Longrightarrow> f_dlq t = f_dlq s"
  by (erule keepsD [rotated], intro keeps_rules)+

interpretation order_log: latest_wins "update_order E" "get_order E" po_id f_orders for E
  by unfold_locales (fact put_log_rules(1) put_log_rules(2) get_log_rules(1) get_same(1))+

interpretation event_log: latest_wins "update_event E" "latest_event E" ev_id f_events for E
  by unfold_locales (fact put_log_rules(3) put_log_rules(4) get_log_rules(2) get_same(2))+

interpretation dlq_log: latest_wins "append_dlq E" "dlq_record E" dl_order f_dlq for E
  by unfold_locales (fact put_log_rules(5) put_log_rules(6) get_log_rules(3) get_same(3))+

section \<open>Idempotent insertion and the latest snapshots\<close>

lemma insert_order_keeps [keeps_rules]:
  assumes "state_preorder R" "clock_ok R" "\<And>s. R s (s\<lparr>f_orders := f_orders s @ [x]\<rparr>)"
  shows "keeps R (insert_order E x)"
  unfolding insert_order_def
  by (intro state_preorder.bnd_ok state_preorder.seqM_ok state_preorder.ret_ok reads_keep
      append_order_keeps keeps_option assms)

lemma insert_order_Inr:
  assumes "insert_order E x s = (Inr r, t)"
  shows "case List.find (\<lambda>y. po_id y = po_id x) (f_orders s) of
      Some y \<Rightarrow> r = Replay y \<and> f_orders t = f_orders s
    | None \<Rightarrow> r = Inserted \<and> f_orders t = f_orders s @ [x]"
  using assms
  by (auto simp: insert_order_def M_Inr orders_def append_order_def split: option.splits
      dest!: read_jsonl_Inr append_jsonl_Inr)

lemma insert_order_known:
  assumes "z \<in> set (f_orders s)" "po_id z = po_id x" "insert_order E x s = (q, t)"
  shows "f_orders t = f_orders s"
proof -
  obtain y where "List.find (\<lambda>y. po_id y = po_id x) (f_orders s) = Some y"
    using assms(1,2) by (cases "List.find (\<lambda>y. po_id y = po_id x) (f_orders s)") (auto simp: find_None_iff)
  moreover obtain r u where run: "orders E s = (r, u)" by (cases "orders E s")
  moreover have "f_orders u = f_orders s" "\<And>os. r = Inr os \<Longrightarrow> os = f_orders s"
    using run unfolding orders_def by (auto dest: read_jsonl_run)
  ultimately show ?thesis
    using assms(3) by (cases r) (auto simp: insert_order_def bnd_def ret_def)
qed

definition shuffle_ok :: "env \<Rightarrow> bool" where
  "shuffle_ok E \<longleftrightarrow> (\<forall>n ks. distinct ks \<longrightarrow> distinct (env_shuffle E n ks) \<and> set (env_shuffle E n ks) = set ks)"

lemma latest_of_id: "oid \<in> set (map po_id os) \<Longrightarrow>
    po_id (latest_of os oid) = oid \<and> find_last (\<lambda>x. po_id x = oid) os = Some (latest_of os oid)"
  by (cases "find_last (\<lambda>x. po_id x = oid) os")
    (auto simp: latest_of_def find_last_None dest: find_last_Some)

lemma latest_orders_run:
  assumes "latest_orders E s = (Inr os, t)"
  shows "\<exists>n. os = map (latest_of (f_orders s)) (env_shuffle E n (remdups (map po_id (f_orders s))))"
    "t = s\<lparr>n_io := n_io s + 1\<rparr>"
  using assms by (auto simp: latest_orders_def M_Inr orders_def dest!: read_jsonl_Inr)

lemma latest_orders_spec:
  assumes "shuffle_ok E" "latest_orders E s = (Inr os, t)"
  shows "distinct (map po_id os)" "set (map po_id os) = set (map po_id (f_orders s))"
    "x \<in> set os \<Longrightarrow> find_last (\<lambda>y. po_id y = po_id x) (f_orders s) = Some x"
proof -
  let ?ids = "remdups (map po_id (f_orders s))"
  obtain n where os: "os = map (latest_of (f_orders s)) (env_shuffle E n ?ids)"
    using latest_orders_run [OF assms(2)] by blast
  have sh: "distinct (env_shuffle E n ?ids)" "set (env_shuffle E n ?ids) = set (map po_id (f_orders s))"
    using assms(1) by (auto simp: shuffle_ok_def)
  have ids: "map po_id os = env_shuffle E n ?ids"
    unfolding os map_map by (rule map_idI) (use sh(2) latest_of_id in auto)
  show "distinct (map po_id os)" "set (map po_id os) = set (map po_id (f_orders s))"
    unfolding ids by (rule sh)+
  show "x \<in> set os \<Longrightarrow> find_last (\<lambda>y. po_id y = po_id x) (f_orders s) = Some x"
    using sh(2) latest_of_id [of _ "f_orders s"] by (auto simp: os)
qed

lemma latest_orders_keeps [keeps_rules]:
  assumes "state_preorder R" "clock_ok R"
  shows "keeps R (latest_orders E)" "keeps R (orders_with_status E st)"
  unfolding latest_orders_def orders_with_status_def
  by (intro state_preorder.bnd_ok state_preorder.gets_ok state_preorder.ret_ok reads_keep assms)+

section \<open>Properties\<close>

definition empty_world :: world where
  "empty_world = \<lparr>n_time = 0, n_uuid = 0, n_rand = 0, n_io = 0, n_net = 0, wal = example_wallet, wfile = None,
     f_orders = [], f_events = [], f_journal = [], f_retry = [], f_dlq = [], f_notifications = [],
     f_deferred = [], f_batches = [], f_audit = [], f_receipts = [], f_config = None, f_mmr = None,
     f_secrets = [], f_facilitators = []\<rparr>"

text \<open>
  The order id is an idempotency key. Once an insertion has succeeded, every later
  insertion under the same id, after any further growth of the order log and even when
  file operations fail, writes no order; if it returns, it reports the replay.
\<close>

theorem insert_order_idempotent:
  assumes "insert_order E x s = (Inr r, t)" "prefix (f_orders t) (f_orders u)"
    and "po_id y = po_id x" "insert_order E y u = (q, v)"
  shows "f_orders v = f_orders u \<and> (\<forall>out. q = Inr out \<longrightarrow> (\<exists>z. out = Replay z \<and> po_id z = po_id x))"
proof -
  obtain z where z: "z \<in> set (f_orders t)" "po_id z = po_id x"
    using insert_order_Inr [OF assms(1)] by (auto split: option.splits dest: find_SomeD)
  then have u: "z \<in> set (f_orders u)" using assms(2) by (meson in_mono set_mono_prefix)
  have "f_orders v = f_orders u"
    by (rule insert_order_known [OF u _ assms(4)]) (simp add: z(2) assms(3))
  moreover have "\<exists>w. out = Replay w \<and> po_id w = po_id x" if "q = Inr out" for out
  proof -
    have "List.find (\<lambda>w. po_id w = po_id y) (f_orders u) \<noteq> None"
      using u z(2) assms(3) by (auto simp: find_None_iff)
    then show ?thesis
      using insert_order_Inr [of E y u out v] that assms(3,4) by (auto dest: find_SomeD)
  qed
  ultimately show ?thesis by blast
qed

theorem insert_order_idempotent_witness:
  "\<exists>t v z. insert_order example_env example_order empty_world = (Inr Inserted, t) \<and>
     insert_order example_env example_order t = (Inr (Replay z), v) \<and> f_orders v = f_orders t \<and> po_id z = ''o1''"
proof -
  let ?run = "insert_order example_env example_order"
  have nf: "no_faults example_env" by (rule example_env_no_faults)
  obtain t where t: "?run empty_world = (Inr Inserted, t)"
    by (simp add: insert_order_def orders_def append_order_def bnd_def seqM_def ret_def
        read_jsonl_no_fault [OF nf] append_jsonl_no_fault [OF nf] empty_world_def)
  moreover obtain q v where v: "?run t = (q, v)" by (cases "?run t")
  moreover have "\<exists>out. q = Inr out"
    using v by (auto simp: insert_order_def orders_def append_order_def bnd_def seqM_def ret_def
        read_jsonl_no_fault [OF nf] append_jsonl_no_fault [OF nf] split: option.splits)
  ultimately show ?thesis
    using insert_order_idempotent [OF t _ refl v] by (auto simp: example_order_def)
qed

text \<open>
  A replayed insertion reports the oldest snapshot of the order, not the current
  one: it returns the first line under the id, while a lookup returns the last.
\<close>

theorem replay_reports_first_snapshot:
  assumes "no_faults E" "f_orders s = x # mid @ [y]" "po_id y = po_id x" "po_id z = po_id x"
  shows "\<exists>t u. insert_order E z s = (Inr (Replay x), t) \<and> get_order E (po_id z) s = (Inr y, u)"
proof -
  have "find_last (\<lambda>w. po_id w = po_id x) (x # mid @ [y]) = Some y"
    using find_last_snoc [of "\<lambda>w. po_id w = po_id x" "x # mid" y] assms(3) by simp
  with assms show ?thesis
    by (simp add: insert_order_def get_order_def orders_def bnd_def ret_def ok_or_def
        read_jsonl_no_fault [OF assms(1)])
qed

theorem replay_reports_first_snapshot_witness:
  "\<exists>t u. insert_order example_env example_order
       (empty_world\<lparr>f_orders := [example_order, example_order\<lparr>po_status := Success\<rparr>]\<rparr>) =
     (Inr (Replay example_order), t) \<and>
   get_order example_env ''o1'' (empty_world\<lparr>f_orders := [example_order, example_order\<lparr>po_status := Success\<rparr>]\<rparr>) =
     (Inr (example_order\<lparr>po_status := Success\<rparr>), u)"
  using replay_reports_first_snapshot [OF example_env_no_faults, of
      "empty_world\<lparr>f_orders := [example_order, example_order\<lparr>po_status := Success\<rparr>]\<rparr>"
      example_order "[]" "example_order\<lparr>po_status := Success\<rparr>" example_order]
  by (simp add: example_order_def)

text \<open>
  \<open>latest_orders\<close> lists every order id of the log exactly once, each with its last
  snapshot, in whatever order the hash map yields them.
\<close>

theorem latest_orders_exact:
  assumes "shuffle_ok E" "latest_orders E s = (Inr os, t)"
  shows "distinct (map po_id os) \<and> set (map po_id os) = set (map po_id (f_orders s)) \<and>
    (\<forall>x \<in> set os. find_last (\<lambda>y. po_id y = po_id x) (f_orders s) = Some x)"
  using latest_orders_spec [OF assms] by blast

theorem latest_orders_exact_witness:
  "\<exists>os t. latest_orders example_env
      (empty_world\<lparr>f_orders := [example_order, example_order\<lparr>po_status := Failed\<rparr>]\<rparr>) = (Inr os, t) \<and>
    set (map po_id os) = {''o1''}"
proof -
  let ?w = "empty_world\<lparr>f_orders := [example_order, example_order\<lparr>po_status := Failed\<rparr>]\<rparr>"
  obtain os t where "latest_orders example_env ?w = (Inr os, t)"
    by (simp add: latest_orders_def orders_def bnd_def gets_def ret_def read_jsonl_no_fault [OF example_env_no_faults])
  moreover have "shuffle_ok example_env" by (simp add: shuffle_ok_def example_env_def)
  ultimately show ?thesis
    using latest_orders_exact [of example_env ?w os t] by (simp add: example_order_def)
qed

end
