(* ===== verification/Journal.thy ===== *)
theory Journal
  imports Payment_Store "HOL-Library.List_Lexorder" "HOL-Library.Char_ord"
begin

text \<open>
  \<open>origin-payments/src/journal.rs\<close>: the double-entry journal. Amount parsing and
  formatting are in \<open>Money\<close>; here are the batches (plain and with a currency
  conversion), the hash chain over the postings, their signatures, and the nets per
  currency. Sums are \<open>i128\<close> and wrap.
\<close>

section \<open>Postings\<close>

definition GENESIS_HASH :: bytes where
  "GENESIS_HASH = replicate 32 0"

definition account_str :: "leg_account \<Rightarrow> string" where
  "account_str a = (case a of Debit \<Rightarrow> ''debit'' | Credit \<Rightarrow> ''credit'')"

definition account_from_str :: "string \<Rightarrow> string + leg_account" where
  "account_from_str s =
     (let l = to_ascii_lowercase s in
      if l = ''debit'' then Inr Debit else if l = ''credit'' then Inr Credit
      else Inl (''unknown account: '' @ s @ '' (expected debit|credit)''))"

definition fx_json :: "fx_rate \<Rightarrow> json" where
  "fx_json fx = JObj [(''from'', JStr (fx_from fx)), (''to'', JStr (fx_to fx)),
     (''rate'', JStr (fx_rate_str fx)), (''markup_bps'', JNum (int (fx_markup_bps fx)))]"

definition posting_json :: "ledger_posting \<Rightarrow> json" where
  "posting_json p = JArr [JStr (lp_id p), JStr (lp_batch p), JStr (lp_order p),
     JStr (account_str (lp_account p)), JStr (lp_amount p), JStr (lp_currency p), JStr (lp_ts p),
     JBytes (lp_prev_hash p), JOpt fx_json (lp_fx_rate p)]"

definition posting_canonical :: "env \<Rightarrow> ledger_posting \<Rightarrow> bytes" where
  "posting_canonical E p = json_to_vec E (posting_json p)"

definition posting_hash :: "env \<Rightarrow> ledger_posting \<Rightarrow> bytes" where
  "posting_hash E p = sha3_256 E (posting_canonical E p)"

definition sign_posting :: "env \<Rightarrow> operator_keys option \<Rightarrow> ledger_posting \<Rightarrow> error + ledger_posting" where
  "sign_posting E signer p = (case signer of
       None \<Rightarrow> Inr p
     | Some K \<Rightarrow> (case sign_hybrid E (ok_secret K) (posting_canonical E p) of
           Inl e \<Rightarrow> Inl (CryptoError e)
         | Inr sig \<Rightarrow> Inr (p\<lparr>lp_signature := Some sig, lp_signer := Some (signer_of K)\<rparr>)))"

definition verify_posting_signature :: "env \<Rightarrow> ledger_posting \<Rightarrow> error + bool" where
  "verify_posting_signature E p = (case (lp_signature p, lp_signer p) of
       (Some sig, Some sg) \<Rightarrow>
         (case verify_hybrid E sig (sg_ed_pk sg) (sg_falcon_pk sg) (posting_canonical E p) of
            Inl e \<Rightarrow> Inl (CryptoError (''decoding posting signature: '' @ e))
          | Inr b \<Rightarrow> Inr b)
     | _ \<Rightarrow> Inr True)"

definition journal_head :: "env \<Rightarrow> ('c, bytes) W" where
  "journal_head E = bnd (postings E) (\<lambda>ps.
     ret (if ps = [] then GENESIS_HASH else posting_hash E (last ps)))"

section \<open>Batches\<close>

definition signed_minor :: "leg_account \<Rightarrow> int \<Rightarrow> int" where
  "signed_minor a m = (case a of Debit \<Rightarrow> m | Credit \<Rightarrow> i128 (- m))"

fun legs_sum :: "int \<Rightarrow> (leg_account \<times> string) list \<Rightarrow> error + int" where
  "legs_sum acc [] = Inr acc"
| "legs_sum acc ((a, amount) # legs) = (case parse_amount amount of
     Inl e \<Rightarrow> Inl e | Inr m \<Rightarrow> legs_sum (i128 (acc + signed_minor a m)) legs)"

text \<open>The loop that writes the postings, each chained to the one before.\<close>

fun append_postings :: "env \<Rightarrow> operator_keys option \<Rightarrow> (string \<Rightarrow> bytes \<Rightarrow> 'l \<Rightarrow> ledger_posting) \<Rightarrow>
    bytes \<Rightarrow> 'l list \<Rightarrow> ('c, unit) W" where
  "append_postings E signer mk prev [] = ret ()"
| "append_postings E signer mk prev (leg # legs) =
     bnd (new_uuid E) (\<lambda>pid.
     bnd (result (sign_posting E signer (mk pid prev leg))) (\<lambda>p.
     seqM (append_posting E p) (append_postings E signer mk (posting_hash E p) legs)))"

definition mk_posting :: "string \<Rightarrow> string \<Rightarrow> string \<Rightarrow> string \<Rightarrow> string \<Rightarrow> bytes \<Rightarrow> leg_account \<times> string \<Rightarrow> ledger_posting" where
  "mk_posting batch order currency ts pid prev leg =
     \<lparr>lp_id = pid, lp_batch = batch, lp_order = order, lp_account = fst leg, lp_amount = snd leg,
      lp_currency = currency, lp_ts = ts, lp_prev_hash = prev, lp_signature = None, lp_signer = None,
      lp_fx_rate = None\<rparr>"

definition append_batch ::
  "env \<Rightarrow> string \<Rightarrow> string \<Rightarrow> (leg_account \<times> string) list \<Rightarrow> operator_keys option \<Rightarrow> ('c, string) W" where
  "append_batch E order currency legs signer =
     seqM (guard (2 \<le> length legs) (JournalNotBalanced ''a batch must have at least 2 legs''))
     (bnd (result (legs_sum 0 legs)) (\<lambda>sum.
     seqM (guard (sum = 0) (JournalNotBalanced (''sum = '' @ fmt_amount sum)))
     (bnd (new_uuid E) (\<lambda>batch. bnd (now_rfc3339 E) (\<lambda>ts. bnd (journal_head E) (\<lambda>prev.
     seqM (append_postings E signer (mk_posting batch order currency ts) prev legs) (ret batch)))))))"

record currency_leg =
  cl_account :: leg_account
  cl_amount :: string
  cl_currency :: string

fun fx_nets :: "fx_rate \<Rightarrow> int \<Rightarrow> int \<Rightarrow> currency_leg list \<Rightarrow> error + int \<times> int" where
  "fx_nets rate from_net to_net [] = Inr (from_net, to_net)"
| "fx_nets rate from_net to_net (l # legs) = (case parse_amount (cl_amount l) of
     Inl e \<Rightarrow> Inl e
   | Inr m \<Rightarrow>
       if cl_currency l = fx_from rate
       then fx_nets rate (i128 (from_net + signed_minor (cl_account l) m)) to_net legs
       else if cl_currency l = fx_to rate
       then fx_nets rate from_net (i128 (to_net + signed_minor (cl_account l) m)) legs
       else Inl (JournalNotBalanced (''leg in unexpected currency '' @ cl_currency l @ '' (batch is '' @
              fx_from rate @ '' -> '' @ fx_to rate @ '')'')))"

definition convert :: "int \<Rightarrow> int \<Rightarrow> int" where
  "convert minor rate_minor = tdiv (i128 (minor * rate_minor)) (10 ^ RATE_SCALE)"

definition check_fx :: "fx_rate \<Rightarrow> int \<Rightarrow> int \<Rightarrow> error + unit" where
  "check_fx rate from_net to_net =
     (if from_net = 0 \<or> to_net = 0
      then Inl (JournalNotBalanced ''FX batch must move money in both currencies'')
      else if (0 < from_net) = (0 < to_net)
      then Inl (JournalNotBalanced ''FX legs must move in opposite directions (from -> to)'')
      else case parse_rate (fx_rate_str rate) of
        Inl e \<Rightarrow> Inl e
      | Inr rate_minor \<Rightarrow>
          if rate_minor \<le> 0 then Inl (JournalNotBalanced ''FX rate must be positive'')
          else let converted = convert (i128 \<bar>from_net\<bar>) rate_minor; expected = i128 \<bar>to_net\<bar> in
            if 1 < \<bar>converted - expected\<bar>
            then Inl (JournalNotBalanced (''FX rate '' @ fx_from rate @ ''/'' @ fx_to rate @
                   '' does not balance the batch (converted '' @ dec_int converted @ '' vs '' @
                   dec_int expected @ '')''))
            else Inr ())"

definition mk_fx_posting :: "string \<Rightarrow> string \<Rightarrow> fx_rate \<Rightarrow> string \<Rightarrow> string \<Rightarrow> bytes \<Rightarrow> currency_leg \<Rightarrow> ledger_posting" where
  "mk_fx_posting batch order rate ts pid prev leg =
     \<lparr>lp_id = pid, lp_batch = batch, lp_order = order, lp_account = cl_account leg,
      lp_amount = cl_amount leg, lp_currency = cl_currency leg, lp_ts = ts, lp_prev_hash = prev,
      lp_signature = None, lp_signer = None, lp_fx_rate = Some rate\<rparr>"

definition append_fx_batch ::
  "env \<Rightarrow> string \<Rightarrow> currency_leg list \<Rightarrow> fx_rate \<Rightarrow> operator_keys option \<Rightarrow> ('c, string) W" where
  "append_fx_batch E order legs rate signer =
     seqM (guard (2 \<le> length legs) (JournalNotBalanced ''an FX batch must have at least 2 legs''))
     (bnd (result (fx_nets rate 0 0 legs)) (\<lambda>(from_net, to_net).
     seqM (result (check_fx rate from_net to_net))
     (bnd (new_uuid E) (\<lambda>batch. bnd (now_rfc3339 E) (\<lambda>ts. bnd (journal_head E) (\<lambda>prev.
     seqM (append_postings E signer (mk_fx_posting batch order rate ts) prev legs) (ret batch)))))))"

definition append_order_batch ::
  "env \<Rightarrow> string \<Rightarrow> string \<Rightarrow> string \<Rightarrow> fx_rate option \<Rightarrow> operator_keys option \<Rightarrow> ('c, string) W" where
  "append_order_batch E order amount currency fx signer = (case fx of
       Some rate \<Rightarrow>
         bnd (result (parse_amount amount)) (\<lambda>from_minor.
         bnd (result (parse_rate (fx_rate_str rate))) (\<lambda>rate_minor.
         append_fx_batch E order
           [\<lparr>cl_account = Debit, cl_amount = amount, cl_currency = fx_from rate\<rparr>,
            \<lparr>cl_account = Credit, cl_amount = fmt_amount (convert from_minor rate_minor),
             cl_currency = fx_to rate\<rparr>]
           rate signer))
     | None \<Rightarrow> append_batch E order currency [(Debit, amount), (Credit, amount)] signer)"

section \<open>Nets\<close>

text \<open>A \<open>BTreeMap\<close> entry that is created with 0 and then added to.\<close>

fun net_entry :: "string \<Rightarrow> int \<Rightarrow> (string \<times> int) list \<Rightarrow> (string \<times> int) list" where
  "net_entry k v [] = [(k, i128 (0 + v))]"
| "net_entry k v ((k', n) # kvs) =
     (if k = k' then (k', i128 (n + v)) # kvs
      else if k < k' then (k, i128 (0 + v)) # (k', n) # kvs
      else (k', n) # net_entry k v kvs)"

fun net_loop :: "(string \<times> int) list \<Rightarrow> ledger_posting list \<Rightarrow> (string \<times> int) list" where
  "net_loop nets [] = nets"
| "net_loop nets (p # ps) = (case parse_amount (lp_amount p) of
     Inl e \<Rightarrow> net_loop nets ps
   | Inr m \<Rightarrow> net_loop (net_entry (lp_currency p) (signed_minor (lp_account p) m) nets) ps)"

definition net_by_currency :: "ledger_posting list \<Rightarrow> (string \<times> int) list" where
  "net_by_currency ps = net_loop [] ps"

definition balance :: "env \<Rightarrow> leg_account option \<Rightarrow> ('c, (string \<times> int) list) W" where
  "balance E account = bnd (postings E) (\<lambda>ps. ret (case account of
      None \<Rightarrow> net_by_currency ps
    | Some want \<Rightarrow> net_by_currency (filter (\<lambda>p. lp_account p = want) ps)))"

section \<open>The chain\<close>

abbreviation journal_chain :: "env \<Rightarrow> ledger_posting list \<Rightarrow> bool" where
  "journal_chain E ps \<equiv> chain_from (posting_hash E) lp_prev_hash GENESIS_HASH ps"

definition signed_form :: "ledger_posting \<Rightarrow> ledger_posting \<Rightarrow> bool" where
  "signed_form p q \<longleftrightarrow> (\<exists>sig sg. q = p\<lparr>lp_signature := sig, lp_signer := sg\<rparr>)"

lemma sign_posting_form: "sign_posting E signer p = Inr q \<Longrightarrow> signed_form p q"
proof (cases signer)
  case None
  assume "sign_posting E signer p = Inr q"
  with None have "q = p" by (simp add: sign_posting_def)
  moreover have "signed_form p p"
    unfolding signed_form_def by (intro exI [of _ "lp_signature p"] exI [of _ "lp_signer p"]) simp
  ultimately show ?thesis by simp
qed (auto simp: sign_posting_def signed_form_def split: sum.splits)

lemma signed_form_simps:
  assumes "signed_form p q"
  shows "lp_prev_hash q = lp_prev_hash p" "lp_account q = lp_account p" "lp_amount q = lp_amount p"
    "lp_currency q = lp_currency p" "lp_order q = lp_order p" "lp_fx_rate q = lp_fx_rate p"
    "posting_json q = posting_json p"
  using assms by (auto simp: signed_form_def posting_json_def)

text \<open>\<open>wrote mk legs ps\<close>: the postings \<open>ps\<close> are those of the legs, in order.\<close>

definition wrote :: "(string \<Rightarrow> bytes \<Rightarrow> 'l \<Rightarrow> ledger_posting) \<Rightarrow> 'l list \<Rightarrow> ledger_posting list \<Rightarrow> bool" where
  "wrote mk legs ps \<longleftrightarrow> list_all2 (\<lambda>l p. \<exists>pid prev. signed_form (mk pid prev l) p) legs ps"

lemma append_posting_run:
  "append_posting E p s = (r, t) \<Longrightarrow>
   (r = Inr () \<and> f_journal t = f_journal s @ [p]) \<or>
   (\<exists>e. r = Inl (Err e) \<and> (f_journal t = f_journal s \<or> f_journal t = f_journal s @ [p]))"
  unfolding append_posting_def by (drule append_jsonl_run) auto

lemma append_postings_run:
  assumes "\<And>pid h l. lp_prev_hash (mk pid h l) = h"
  shows "append_postings E signer mk prev legs s = (r, t) \<Longrightarrow>
    \<exists>ps. f_journal t = f_journal s @ ps \<and> chain_from (posting_hash E) lp_prev_hash prev ps \<and>
      wrote mk (take (length ps) legs) ps \<and> (r = Inr () \<longrightarrow> length ps = length legs) \<and> r \<noteq> Inl Panic"
proof (induction legs arbitrary: prev s)
  case Nil
  then show ?case by (auto simp: ret_def wrote_def)
next
  case (Cons leg legs)
  let ?p = "mk (env_uuid E (n_uuid s)) prev leg" and ?s1 = "s\<lparr>n_uuid := n_uuid s + 1\<rparr>"
  show ?case
  proof (cases "sign_posting E signer ?p")
    case (Inl e)
    with Cons.prems show ?thesis
      by (intro exI [of _ "[]"]) (auto simp: bnd_def result_def wrote_def)
  next
    case (Inr q)
    then have form: "signed_form ?p q" by (rule sign_posting_form)
    then have link: "lp_prev_hash q = prev" by (simp add: signed_form_simps assms)
    obtain r1 s2 where app: "append_posting E q ?s1 = (r1, s2)" by (cases "append_posting E q ?s1")
    show ?thesis
    proof (cases r1)
      case (Inl e)
      with app Cons.prems Inr have "r = Inl e" "t = s2" by (auto simp: bnd_def result_def ret_def seqM_def)
      moreover have "e \<noteq> Panic" "f_journal s2 = f_journal s \<or> f_journal s2 = f_journal s @ [q]"
        using append_posting_run [OF app] Inl by auto
      ultimately show ?thesis
        using link form by (elim disjE) (rule exI [of _ "[]"], simp add: wrote_def,
            rule exI [of _ "[q]"], auto simp: wrote_def)
    next
      case (Inr u)
      with app Cons.prems \<open>sign_posting E signer ?p = Inr q\<close>
      have "append_postings E signer mk (posting_hash E q) legs s2 = (r, t)"
        by (auto simp: bnd_def result_def ret_def seqM_def)
      from Cons.IH [OF this] obtain ps where ps: "f_journal t = f_journal s2 @ ps"
        "chain_from (posting_hash E) lp_prev_hash (posting_hash E q) ps"
        "wrote mk (take (length ps) legs) ps" "r = Inr () \<longrightarrow> length ps = length legs" "r \<noteq> Inl Panic"
        by blast
      have "f_journal s2 = f_journal s @ [q]" using append_posting_run [OF app] Inr by auto
      with ps link form show ?thesis by (intro exI [of _ "q # ps"]) (auto simp: wrote_def)
    qed
  qed
qed

lemma append_postings_keeps [keeps_rules]:
  assumes "state_preorder R" "clock_ok R" "\<And>s p. R s (s\<lparr>f_journal := f_journal s @ [p]\<rparr>)"
  shows "keeps R (append_postings E signer mk prev legs)"
proof (induction legs arbitrary: prev)
  case (Cons leg legs)
  then show ?case unfolding append_postings.simps
    by (intro state_preorder.bnd_ok state_preorder.seqM_ok state_preorder.result_ok new_uuid_keeps
        append_posting_keeps assms)
qed (simp add: state_preorder.ret_ok [OF assms(1)])

lemma journal_head_Inr:
  "journal_head E s = (Inr h, t) \<Longrightarrow> h = chain_head (posting_hash E) GENESIS_HASH (f_journal s) \<and>
     f_journal t = f_journal s"
  by (cases "f_journal s = []")
    (auto simp: journal_head_def M_Inr postings_def chain_head_last dest!: read_jsonl_Inr)

lemma journal_head_keeps [keeps_rules]:
  "state_preorder R \<Longrightarrow> clock_ok R \<Longrightarrow> keeps R (journal_head E)"
  unfolding journal_head_def by (intro state_preorder.bnd_ok state_preorder.ret_ok reads_keep)

text \<open>The common tail of both batch functions.\<close>

definition write_batch ::
  "env \<Rightarrow> operator_keys option \<Rightarrow> (string \<Rightarrow> string \<Rightarrow> string \<Rightarrow> bytes \<Rightarrow> 'l \<Rightarrow> ledger_posting) \<Rightarrow> 'l list \<Rightarrow> ('c, string) W" where
  "write_batch E signer mk legs = bnd (new_uuid E) (\<lambda>batch. bnd (now_rfc3339 E) (\<lambda>ts.
     bnd (journal_head E) (\<lambda>prev. seqM (append_postings E signer (mk batch ts) prev legs) (ret batch))))"

lemma write_batch_run:
  assumes "\<And>batch ts pid h l. lp_prev_hash (mk batch ts pid h l) = h"
    and "write_batch E signer mk legs s = (r, t)"
  shows "\<exists>batch ts ps. f_journal t = f_journal s @ ps \<and>
    chain_from (posting_hash E) lp_prev_hash (chain_head (posting_hash E) GENESIS_HASH (f_journal s)) ps \<and>
    wrote (mk batch ts) (take (length ps) legs) ps \<and> (\<forall>x. r = Inr x \<longrightarrow> x = batch \<and> length ps = length legs)"
proof -
  let ?b = "env_uuid E (n_uuid s)" and ?ts = "rfc3339 E (env_time E (n_time s))"
  let ?s2 = "s\<lparr>n_uuid := n_uuid s + 1, n_time := n_time s + 1\<rparr>"
  obtain q s3 where hd: "journal_head E ?s2 = (q, s3)" by (cases "journal_head E ?s2")
  have same: "f_journal s3 = f_journal s"
    using keepsD [OF journal_head_keeps [of "\<lambda>s t. f_journal t = f_journal s"] hd]
    by (simp add: clock_ok_fields same_rel.state_preorder_axioms)
  show ?thesis
  proof (cases q)
    case (Inl e)
    with hd assms(2) have "f_journal t = f_journal s" "\<And>x. r \<noteq> Inr x"
      using same by (auto simp: write_batch_def bnd_def)
    then show ?thesis by (intro exI [of _ ?b] exI [of _ ?ts] exI [of _ "[]"]) (auto simp: wrote_def)
  next
    case (Inr prev)
    have prev: "prev = chain_head (posting_hash E) GENESIS_HASH (f_journal s)"
      using journal_head_Inr [of E ?s2 prev s3] hd Inr by simp
    obtain q1 s4 where app: "append_postings E signer (mk ?b ?ts) prev legs s3 = (q1, s4)"
      by (cases "append_postings E signer (mk ?b ?ts) prev legs s3")
    have rt: "t = s4" "\<And>x. r = Inr x \<Longrightarrow> q1 = Inr () \<and> x = ?b"
      using assms(2) hd Inr app by (auto simp: write_batch_def bnd_def seqM_def ret_def split: sum.splits)
    from append_postings_run [of "mk ?b ?ts", OF assms(1) app] obtain ps where
      "f_journal s4 = f_journal s3 @ ps" "chain_from (posting_hash E) lp_prev_hash prev ps"
      "wrote (mk ?b ?ts) (take (length ps) legs) ps" "q1 = Inr () \<longrightarrow> length ps = length legs" by blast
    with rt same prev show ?thesis by (intro exI [of _ ?b] exI [of _ ?ts] exI [of _ ps]) auto
  qed
qed

lemma append_batch_write: "append_batch E order currency legs signer =
    seqM (guard (2 \<le> length legs) (JournalNotBalanced ''a batch must have at least 2 legs''))
     (bnd (result (legs_sum 0 legs)) (\<lambda>sum.
     seqM (guard (sum = 0) (JournalNotBalanced (''sum = '' @ fmt_amount sum)))
     (write_batch E signer (\<lambda>batch ts. mk_posting batch order currency ts) legs)))"
  by (simp add: append_batch_def write_batch_def)

lemma append_fx_batch_write: "append_fx_batch E order legs rate signer =
    seqM (guard (2 \<le> length legs) (JournalNotBalanced ''an FX batch must have at least 2 legs''))
     (bnd (result (fx_nets rate 0 0 legs)) (\<lambda>(from_net, to_net).
     seqM (result (check_fx rate from_net to_net))
     (write_batch E signer (\<lambda>batch ts. mk_fx_posting batch order rate ts) legs)))"
  by (simp add: append_fx_batch_def write_batch_def)

lemma append_batch_keeps [keeps_rules]:
  assumes "state_preorder R" "clock_ok R" "\<And>s p. R s (s\<lparr>f_journal := f_journal s @ [p]\<rparr>)"
  shows "keeps R (append_batch E order currency legs signer)"
    "keeps R (append_fx_batch E order clegs rate signer)"
  unfolding append_batch_def append_fx_batch_def
  by (intro state_preorder.bnd_ok state_preorder.seqM_ok state_preorder.guard_ok state_preorder.result_ok
      state_preorder.ret_ok new_uuid_keeps now_rfc3339_keeps journal_head_keeps append_postings_keeps
      keeps_prod assms)+

lemma append_order_batch_keeps [keeps_rules]:
  assumes "state_preorder R" "clock_ok R" "\<And>s p. R s (s\<lparr>f_journal := f_journal s @ [p]\<rparr>)"
  shows "keeps R (append_order_batch E order amount currency fx signer)"
  unfolding append_order_batch_def
  by (intro keeps_option state_preorder.bnd_ok state_preorder.result_ok append_batch_keeps assms)

text \<open>
  \<open>journal_ext E s t\<close>: the journal of \<open>t\<close> extends the one of \<open>s\<close> by postings chained to its
  head. Every operation of the program relates the states before and after in this way.
\<close>

definition journal_ext :: "env \<Rightarrow> 'c world_scheme \<Rightarrow> 'c world_scheme \<Rightarrow> bool" where
  "journal_ext E s t \<longleftrightarrow> (\<exists>ps. f_journal t = f_journal s @ ps \<and>
     chain_from (posting_hash E) lp_prev_hash (chain_head (posting_hash E) GENESIS_HASH (f_journal s)) ps)"

interpretation journal_ext: state_preorder "journal_ext E" for E
proof unfold_locales
  fix s t u :: "'a world_scheme"
  show "journal_ext E s s" by (simp add: journal_ext_def)
  show "journal_ext E s t \<Longrightarrow> journal_ext E t u \<Longrightarrow> journal_ext E s u"
    unfolding journal_ext_def by (auto simp: chain_from_append chain_head_append)
qed

lemma journal_ext_same: "f_journal t = f_journal s \<Longrightarrow> journal_ext E s t"
  by (simp add: journal_ext_def)

lemma journal_ext_chain: "journal_ext E s t \<Longrightarrow> journal_chain E (f_journal s) \<Longrightarrow> journal_chain E (f_journal t)"
  by (auto simp: journal_ext_def chain_from_append)

lemma journal_ext_clock [keeps_rules]: "clock_ok (journal_ext E)"
  by (simp add: clock_ok_def journal_ext_same)

lemmas journal_ext_preorder [keeps_rules] = journal_ext.state_preorder_axioms

lemma write_batch_ext:
  "(\<And>batch ts pid h l. lp_prev_hash (mk batch ts pid h l) = h) \<Longrightarrow>
   keeps (journal_ext E) (write_batch E signer mk legs)"
  by (rule keepsI) (use write_batch_run [of mk] in \<open>fastforce simp: journal_ext_def\<close>)

lemma append_batch_ext: "keeps (journal_ext E) (append_batch E order currency legs signer)"
  unfolding append_batch_write
  by (intro keeps_rules write_batch_ext) (simp add: mk_posting_def)

lemma append_fx_batch_ext: "keeps (journal_ext E) (append_fx_batch E order legs rate signer)"
  unfolding append_fx_batch_write
  by (intro keeps_rules write_batch_ext) (simp add: mk_fx_posting_def)

lemma append_order_batch_ext [keeps_rules]:
  "keeps (journal_ext E) (append_order_batch E order amount currency fx signer)"
  unfolding append_order_batch_def
  by (intro keeps_option journal_ext.bnd_ok journal_ext.result_ok append_batch_ext append_fx_batch_ext)

section \<open>Balance\<close>

definition leg_value :: "leg_account \<Rightarrow> string \<Rightarrow> int" where
  "leg_value a amount = (case parse_amount amount of Inl e \<Rightarrow> 0
     | Inr m \<Rightarrow> (case a of Debit \<Rightarrow> m | Credit \<Rightarrow> - m))"

definition posting_value :: "string \<Rightarrow> ledger_posting \<Rightarrow> int" where
  "posting_value c p = (if lp_currency p = c then leg_value (lp_account p) (lp_amount p) else 0)"

text \<open>The exact net of a currency, before wrapping.\<close>

definition raw_net :: "string \<Rightarrow> ledger_posting list \<Rightarrow> int" where
  "raw_net c ps = sum_list (map (posting_value c) ps)"

lemma raw_net_append [simp]: "raw_net c (ps @ qs) = raw_net c ps + raw_net c qs"
  by (simp add: raw_net_def)

lemma i128_signed: "i128 (acc + signed_minor a m + x) = i128 (acc + (case a of Debit \<Rightarrow> m | Credit \<Rightarrow> - m) + x)"
proof (cases a)
  case Credit
  have "i128 (acc + i128 (- m) + x) = i128 ((acc + x) + i128 (- m))" by (simp add: algebra_simps)
  also have "\<dots> = i128 (acc + (- m) + x)" by (simp only: i128_add_right) (simp add: algebra_simps)
  finally show ?thesis using Credit by (simp add: signed_minor_def)
qed (simp add: signed_minor_def)

lemma legs_sum_value:
  "legs_sum acc legs = Inr v \<Longrightarrow> in_i128 acc \<Longrightarrow>
   v = i128 (acc + sum_list (map (\<lambda>(a, amount). leg_value a amount) legs)) \<and>
   (\<forall>(a, amount) \<in> set legs. \<exists>m. parse_amount amount = Inr m)"
proof (induction acc legs rule: legs_sum.induct)
  case (2 acc a amount legs)
  then obtain m where m: "parse_amount amount = Inr m"
    "legs_sum (i128 (acc + signed_minor a m)) legs = Inr v" by (auto split: sum.splits)
  let ?rest = "sum_list (map (\<lambda>(a, amount). leg_value a amount) legs)"
  have IH: "v = i128 (i128 (acc + signed_minor a m) + ?rest)"
    "\<forall>(a, amount) \<in> set legs. \<exists>m. parse_amount amount = Inr m"
    using "2.IH" [OF m(1,2)] by auto
  have "leg_value a amount = (case a of Debit \<Rightarrow> m | Credit \<Rightarrow> - m)" by (simp add: leg_value_def m(1))
  then have "v = i128 (acc + leg_value a amount + ?rest)"
    unfolding IH(1) i128_add_left i128_signed by simp
  then show ?case using IH(2) m(1) by (simp add: algebra_simps)
qed simp

lemma plain_posting_value:
  assumes "signed_form (mk_posting batch order currency ts pid prev l) q"
  shows "posting_value c q = (if c = currency then leg_value (fst l) (snd l) else 0)"
  unfolding posting_value_def signed_form_simps [OF assms] by (auto simp: mk_posting_def)

lemma wrote_plain_net:
  assumes "wrote (mk_posting batch order currency ts) legs ps"
  shows "raw_net c ps = (if c = currency then sum_list (map (\<lambda>(a, amount). leg_value a amount) legs) else 0)"
  using assms unfolding wrote_def
proof (induction rule: list_all2_induct)
  case (Cons l legs p ps)
  then have "posting_value c p = (if c = currency then leg_value (fst l) (snd l) else 0)"
    using plain_posting_value by blast
  with Cons.IH show ?case by (cases l) (simp add: raw_net_def)
qed (simp add: raw_net_def)

lemma append_batch_Inr:
  assumes "append_batch E order currency legs signer s = (Inr b, t)"
  shows "\<exists>ts ps. f_journal t = f_journal s @ ps \<and> wrote (mk_posting b order currency ts) legs ps"
    "2 \<le> length legs" "legs_sum 0 legs = Inr 0"
proof -
  from assms have w: "write_batch E signer (\<lambda>batch ts. mk_posting batch order currency ts) legs s = (Inr b, t)"
    and "2 \<le> length legs" "legs_sum 0 legs = Inr 0"
    by (auto simp: append_batch_write M_Inr)
  then show "2 \<le> length legs" "legs_sum 0 legs = Inr 0" by blast+
  have "\<And>batch ts pid h l. lp_prev_hash (mk_posting batch order currency ts pid h l) = h"
    by (simp add: mk_posting_def)
  from write_batch_run [of "\<lambda>batch ts. mk_posting batch order currency ts", OF this w]
  show "\<exists>ts ps. f_journal t = f_journal s @ ps \<and> wrote (mk_posting b order currency ts) legs ps"
    by (auto intro: exI)
qed

lemma append_batch_nets:
  assumes "append_batch E order currency legs signer s = (Inr b, t)"
  shows "i128 (raw_net c (f_journal t)) = i128 (raw_net c (f_journal s))"
proof -
  obtain ts ps where ps: "f_journal t = f_journal s @ ps" "wrote (mk_posting b order currency ts) legs ps"
    using append_batch_Inr(1) [OF assms] by blast
  have "i128 (sum_list (map (\<lambda>(a, amount). leg_value a amount) legs)) = 0"
    using legs_sum_value [OF append_batch_Inr(3) [OF assms]] by simp
  then have "i128 (raw_net c ps) = 0" using wrote_plain_net [OF ps(2), of c] by (simp add: i128_id)
  then have "i128 (raw_net c (f_journal s) + i128 (raw_net c ps)) = i128 (raw_net c (f_journal s))" by simp
  then show ?thesis using ps(1) by (simp add: i128_add_right)
qed

section \<open>Conversions\<close>

lemma in_i128_tdiv: "in_i128 x \<Longrightarrow> 1 < d \<Longrightarrow> in_i128 (tdiv x d)"
proof -
  assume x: "in_i128 x" and d: "1 < d"
  have a: "\<bar>x\<bar> \<le> 2 ^ 127" using x by (auto simp: in_i128_def abs_le_iff)
  have "\<bar>x\<bar> div d < \<bar>x\<bar>" if "x \<noteq> 0" using that d int_div_less_self [of "\<bar>x\<bar>" d] by simp
  then have "\<bar>x\<bar> div d < 2 ^ 127" using a by (cases "x = 0") (simp, rule less_le_trans, simp_all)
  moreover have "0 \<le> \<bar>x\<bar> div d" using d by (simp add: pos_imp_zdiv_nonneg_iff)
  moreover have "\<bar>tdiv x d\<bar> = \<bar>x\<bar> div d" using d calculation(2) by (simp add: tdiv_def abs_mult sgn_if)
  ultimately have "\<bar>tdiv x d\<bar> < 2 ^ 127" by simp
  then show ?thesis unfolding in_i128_def abs_less_iff by simp
qed

lemma in_i128_convert [simp]: "in_i128 (convert m r)"
  unfolding convert_def by (rule in_i128_tdiv) (simp_all add: RATE_SCALE_def)

lemma append_fx_batch_Inr:
  assumes "append_fx_batch E order legs rate signer s = (Inr b, t)"
  shows "\<exists>ts ps. f_journal t = f_journal s @ ps \<and> wrote (mk_fx_posting b order rate ts) legs ps"
    "\<exists>fn tn. fx_nets rate 0 0 legs = Inr (fn, tn) \<and> check_fx rate fn tn = Inr ()"
proof -
  from assms have w: "write_batch E signer (\<lambda>batch ts. mk_fx_posting batch order rate ts) legs s = (Inr b, t)"
    and n: "\<exists>fn tn. fx_nets rate 0 0 legs = Inr (fn, tn) \<and> check_fx rate fn tn = Inr ()"
    by (auto simp: append_fx_batch_write M_Inr split: prod.splits)
  then show "\<exists>fn tn. fx_nets rate 0 0 legs = Inr (fn, tn) \<and> check_fx rate fn tn = Inr ()" by blast
  have "\<And>batch ts pid h l. lp_prev_hash (mk_fx_posting batch order rate ts pid h l) = h"
    by (simp add: mk_fx_posting_def)
  from write_batch_run [of "\<lambda>batch ts. mk_fx_posting batch order rate ts", OF this w]
  show "\<exists>ts ps. f_journal t = f_journal s @ ps \<and> wrote (mk_fx_posting b order rate ts) legs ps"
    by (auto intro: exI)
qed

lemma fx_posting_value:
  assumes "signed_form (mk_fx_posting batch order rate ts pid prev l) q"
  shows "posting_value c q = (if c = cl_currency l then leg_value (cl_account l) (cl_amount l) else 0)"
    "lp_fx_rate q = Some rate"
  unfolding posting_value_def signed_form_simps [OF assms] by (auto simp: mk_fx_posting_def)

lemma order_fx_batch:
  assumes "append_order_batch E order amount currency (Some rate) signer s = (Inr b, t)"
  shows "\<exists>m r p q. parse_amount amount = Inr m \<and> parse_rate (fx_rate_str rate) = Inr r \<and> 0 < r \<and>
    convert m r \<noteq> 0 \<and> fx_from rate \<noteq> fx_to rate \<and> f_journal t = f_journal s @ [p, q] \<and>
    lp_fx_rate p = Some rate \<and> lp_fx_rate q = Some rate \<and>
    (\<forall>c. raw_net c [p, q] = (if c = fx_from rate then m else if c = fx_to rate then - convert m r else 0))"
proof -
  obtain m r where mr: "parse_amount amount = Inr m" "parse_rate (fx_rate_str rate) = Inr r"
    using assms by (auto simp: append_order_batch_def M_Inr)
  let ?l1 = "\<lparr>cl_account = Debit, cl_amount = amount, cl_currency = fx_from rate\<rparr>"
  let ?l2 = "\<lparr>cl_account = Credit, cl_amount = fmt_amount (convert m r), cl_currency = fx_to rate\<rparr>"
  have run: "append_fx_batch E order [?l1, ?l2] rate signer s = (Inr b, t)"
    using assms mr by (auto simp: append_order_batch_def M_Inr)
  note fx = append_fx_batch_Inr [OF run]
  have neq: "fx_from rate \<noteq> fx_to rate"
    using fx(2) mr by (auto simp: check_fx_def)
  then have nz: "convert m r \<noteq> 0" and pos: "0 < r"
    using fx(2) mr by (auto simp: check_fx_def signed_minor_def Let_def split: if_splits)
  obtain ts ps where ps: "f_journal t = f_journal s @ ps" "wrote (mk_fx_posting b order rate ts) [?l1, ?l2] ps"
    using fx(1) by blast
  then obtain p q where pq: "ps = [p, q]"
    "\<exists>pid prev. signed_form (mk_fx_posting b order rate ts pid prev ?l1) p"
    "\<exists>pid prev. signed_form (mk_fx_posting b order rate ts pid prev ?l2) q"
    by (auto simp: wrote_def list_all2_Cons1)
  have "posting_value c p = (if c = fx_from rate then m else 0)" for c
    using pq(2) fx_posting_value(1) [of b order rate ts _ _ ?l1 p c] by (auto simp: leg_value_def mr)
  moreover have "posting_value c q = (if c = fx_to rate then - convert m r else 0)" for c
    using pq(3) fx_posting_value(1) [of b order rate ts _ _ ?l2 q c] by (auto simp: leg_value_def)
  ultimately have "raw_net c [p, q] =
      (if c = fx_from rate then m else if c = fx_to rate then - convert m r else 0)" for c
    using neq by (auto simp: raw_net_def)
  then show ?thesis using mr ps(1) pq nz pos neq fx_posting_value(2) by blast
qed

section \<open>Nets per currency\<close>

lemma net_entry_keys: "set (map fst (net_entry k v kvs)) = insert k (set (map fst kvs))"
  by (induction k v kvs rule: net_entry.induct) auto

lemma net_entry_sorted: "sorted_wrt (<) (map fst kvs) \<Longrightarrow> sorted_wrt (<) (map fst (net_entry k v kvs))"
proof (induction k v kvs rule: net_entry.induct)
  case (2 k v k' n kvs)
  have "\<forall>x \<in> set (map fst (net_entry k v kvs)). k' < x" if "k' < k"
    unfolding net_entry_keys using 2 that by auto
  with 2 show ?case by (auto simp: not_less_iff_gr_or_eq)
qed simp

lemma net_entry_lookup:
  "sorted_wrt (<) (map fst kvs) \<Longrightarrow> map_of (net_entry k v kvs) c =
    (if c = k then Some (i128 ((case map_of kvs k of None \<Rightarrow> 0 | Some n \<Rightarrow> n) + v)) else map_of kvs c)"
proof (induction k v kvs rule: net_entry.induct)
  case (2 k v k' n kvs)
  have "map_of kvs k = None" if "k < k'"
    using 2 that by (auto simp: map_of_eq_None_iff)
  with 2 show ?case by auto
qed auto

lemma net_loop_spec:
  "sorted_wrt (<) (map fst nets) \<Longrightarrow> \<forall>n \<in> snd ` set nets. in_i128 n \<Longrightarrow>
   sorted_wrt (<) (map fst (net_loop nets ps)) \<and>
   (case map_of (net_loop nets ps) c of None \<Rightarrow> 0 | Some n \<Rightarrow> n) =
     i128 ((case map_of nets c of None \<Rightarrow> 0 | Some n \<Rightarrow> n) + raw_net c ps)"
proof (induction ps arbitrary: nets)
  case Nil
  have "in_i128 (case map_of nets c of None \<Rightarrow> 0 | Some n \<Rightarrow> n)"
    using Nil.prems(2) by (auto split: option.splits dest!: map_of_SomeD)
  with Nil show ?case by (simp add: raw_net_def)
next
  case (Cons p ps)
  show ?case
  proof (cases "parse_amount (lp_amount p)")
    case (Inl e)
    with Cons show ?thesis by (simp add: raw_net_def posting_value_def leg_value_def)
  next
    case (Inr m)
    let ?v = "signed_minor (lp_account p) m" and ?n = "\<lambda>nets. case map_of nets c of None \<Rightarrow> 0 | Some n \<Rightarrow> n"
    let ?nets = "net_entry (lp_currency p) ?v nets"
    have wf: "\<forall>n \<in> snd ` set (net_entry k v kvs). in_i128 n" if "\<forall>n \<in> snd ` set kvs. in_i128 n" for k v kvs
      using that by (induction k v kvs rule: net_entry.induct) auto
    have "?n ?nets = (if c = lp_currency p then i128 (?n nets + ?v) else ?n nets)"
      using net_entry_lookup [OF Cons.prems(1), of "lp_currency p" ?v c] by auto
    then have "i128 (?n ?nets + raw_net c ps) = i128 (?n nets + raw_net c (p # ps))"
      using i128_signed [of "?n nets" "lp_account p" m "raw_net c ps"] Inr
      by (auto simp: i128_add_left i128_add_right raw_net_def posting_value_def leg_value_def algebra_simps)
    with Cons.IH [of ?nets, OF net_entry_sorted wf] Cons.prems Inr show ?thesis by simp
  qed
qed

section \<open>Tamper evidence\<close>

text \<open>What is hashed is the posting without its signature; the hash is SHA3 over its JSON text.\<close>

definition json_hash :: "env \<Rightarrow> json \<Rightarrow> bytes" where
  "json_hash E j = sha3_256 E (json_to_vec E j)"

interpretation posting_chain: hash_chain "json_hash E" posting_json lp_prev_hash "\<lambda>_. True" for E
  by unfold_locales (simp add: posting_json_def)

lemma posting_hash_json: "posting_hash E = (\<lambda>p. json_hash E (posting_json p))"
  by (simp add: fun_eq_iff posting_hash_def posting_canonical_def json_hash_def)

section \<open>Runs without faults\<close>

lemma journal_head_no_fault:
  "no_faults E \<Longrightarrow> \<exists>h. journal_head E s = (Inr h, s\<lparr>n_io := n_io s + 1\<rparr>)"
  by (simp add: journal_head_def postings_def bnd_def ret_def read_jsonl_no_fault)

definition can_sign :: "env \<Rightarrow> operator_keys option \<Rightarrow> bool" where
  "can_sign E signer \<longleftrightarrow> (case signer of None \<Rightarrow> True
     | Some K \<Rightarrow> \<forall>m. \<exists>sig. sign_hybrid E (ok_secret K) m = Inr sig)"

lemma sign_posting_total: "can_sign E signer \<Longrightarrow> \<exists>q. sign_posting E signer p = Inr q"
proof (cases signer)
  case (Some K)
  assume "can_sign E signer"
  with Some obtain sig where "sign_hybrid E (ok_secret K) (posting_canonical E p) = Inr sig"
    by (auto simp: can_sign_def)
  with Some show ?thesis by (simp add: sign_posting_def)
qed (simp add: sign_posting_def)

lemma append_postings_total:
  assumes "no_faults E" "can_sign E signer"
  shows "\<exists>t. append_postings E signer mk prev legs s = (Inr (), t)"
proof (induction legs arbitrary: prev s)
  case (Cons leg legs)
  obtain q where "sign_posting E signer (mk (env_uuid E (n_uuid s)) prev leg) = Inr q"
    using sign_posting_total [OF assms(2)] by blast
  with Cons show ?case
    by (simp add: bnd_def result_def ret_def seqM_def append_posting_def append_jsonl_no_fault [OF assms(1)])
qed (simp add: ret_def)

lemma write_batch_total:
  assumes "no_faults E" "can_sign E signer"
  shows "\<exists>b t. write_batch E signer mk legs s = (Inr b, t)"
proof -
  let ?s2 = "s\<lparr>n_uuid := n_uuid s + 1, n_time := n_time s + 1\<rparr>"
  obtain h where "journal_head E ?s2 = (Inr h, ?s2\<lparr>n_io := n_io ?s2 + 1\<rparr>)"
    using journal_head_no_fault [OF assms(1)] by blast
  then show ?thesis
    using append_postings_total [OF assms, of "mk (env_uuid E (n_uuid s)) (rfc3339 E (env_time E (n_time s)))"
        h legs "?s2\<lparr>n_io := n_io ?s2 + 1\<rparr>"]
    by (auto simp: write_batch_def bnd_def seqM_def ret_def)
qed

lemma plain_legs_sum: "parse_amount amount = Inr m \<Longrightarrow> legs_sum 0 [(Debit, amount), (Credit, amount)] = Inr 0"
proof -
  assume m: "parse_amount amount = Inr m"
  have "i128 (i128 m + i128 (- m)) = i128 (m + (- m))" by (simp only: i128_add_left i128_add_right)
  also have "\<dots> = 0" by (simp add: i128_id)
  finally show ?thesis using m by (simp add: signed_minor_def)
qed

lemma plain_order_batch_total:
  assumes "no_faults E" "can_sign E signer" "parse_amount amount = Inr m"
  shows "\<exists>b t. append_order_batch E order amount currency None signer s = (Inr b, t)"
proof -
  obtain b t where "write_batch E signer (\<lambda>batch ts. mk_posting batch order currency ts)
      [(Debit, amount), (Credit, amount)] s = (Inr b, t)" using write_batch_total [OF assms(1,2)] by blast
  then show ?thesis
    using plain_legs_sum [OF assms(3)]
    by (simp add: append_order_batch_def append_batch_write seqM_def bnd_def guard_def ret_def result_def)
qed

section \<open>Properties\<close>

text \<open>
  C8: The journal is append-only and stays chained, whatever happens: after any run of
  \<open>append_order_batch\<close>, successful, refused or interrupted by an I/O error, the old
  postings are still there in order, and if the hash chain was intact before, it is
  intact after.
\<close>

theorem journal_stays_chained:
  assumes "append_order_batch E order amount currency fx signer s = (r, t)"
    and "journal_chain E (f_journal s)"
  shows "prefix (f_journal s) (f_journal t) \<and> journal_chain E (f_journal t)"
proof -
  have "journal_ext E s t" by (rule keepsD [OF append_order_batch_ext assms(1)])
  then show ?thesis using journal_ext_chain [OF _ assms(2)] by (auto simp: journal_ext_def)
qed

theorem journal_stays_chained_witness:
  "\<exists>r t. append_order_batch example_env ''o1'' ''5.00'' ''USD'' None None empty_world = (r, t) \<and>
    journal_chain example_env (f_journal t)"
proof -
  obtain r t where run: "append_order_batch example_env ''o1'' ''5.00'' ''USD'' None None empty_world = (r, t)"
    by (cases "append_order_batch example_env ''o1'' ''5.00'' ''USD'' None None empty_world")
  have "journal_chain example_env (f_journal empty_world)" by (simp add: empty_world_def)
  from journal_stays_chained [OF run this] run show ?thesis by blast
qed

text \<open>
  C7: Double entry. A batch that \<open>append_batch\<close> accepts has at least two legs, adds
  exactly those legs to the journal under one batch id, and changes the net of no
  currency.
\<close>

theorem accepted_batch_balances:
  assumes "append_batch E order currency legs signer s = (Inr b, t)"
  shows "2 \<le> length legs \<and>
    (\<exists>ps. f_journal t = f_journal s @ ps \<and> map (\<lambda>p. (lp_account p, lp_amount p)) ps = legs \<and>
      (\<forall>p \<in> set ps. lp_batch p = b \<and> lp_order p = order \<and> lp_currency p = currency)) \<and>
    (\<forall>c. i128 (raw_net c (f_journal t)) = i128 (raw_net c (f_journal s)))"
proof -
  obtain ts ps where ps: "f_journal t = f_journal s @ ps" "wrote (mk_posting b order currency ts) legs ps"
    using append_batch_Inr(1) [OF assms] by blast
  have "map (\<lambda>p. (lp_account p, lp_amount p)) ps = legs \<and>
      (\<forall>p \<in> set ps. lp_batch p = b \<and> lp_order p = order \<and> lp_currency p = currency)"
    using ps(2) unfolding wrote_def
    by (induction rule: list_all2_induct) (auto simp: signed_form_def mk_posting_def)
  with ps(1) append_batch_Inr(2) [OF assms] append_batch_nets [OF assms] show ?thesis by blast
qed

lemma example_batch:
  "\<exists>b t. append_batch example_env ''o1'' ''USD'' [(Debit, ''5.00''), (Credit, ''5.00'')] None empty_world = (Inr b, t)"
proof -
  have "parse_amount ''5.00'' = Inr 500"
    by code_simp
  then show ?thesis
    using plain_order_batch_total [OF example_env_no_faults, of None "''5.00''" 500 "''o1''" "''USD''" empty_world]
    by (simp add: can_sign_def append_order_batch_def)
qed

theorem accepted_batch_balances_witness:
  "\<exists>b t. append_batch example_env ''o1'' ''USD'' [(Debit, ''5.00''), (Credit, ''5.00'')] None empty_world = (Inr b, t) \<and>
    (\<forall>c. i128 (raw_net c (f_journal t)) = i128 (raw_net c (f_journal empty_world)))"
  using example_batch accepted_batch_balances by blast

text \<open>
  A currency conversion is posted as one debit of the quoted amount and one credit of
  the amount converted at the declared rate, both recording the rate; it goes through
  only with a positive rate, two different currencies and a converted amount that is
  not zero.
\<close>

theorem fx_batch_converts:
  assumes "append_order_batch E order amount currency (Some rate) signer s = (Inr b, t)"
  shows "\<exists>m r p q. parse_amount amount = Inr m \<and> parse_rate (fx_rate_str rate) = Inr r \<and> 0 < r \<and>
    convert m r \<noteq> 0 \<and> fx_from rate \<noteq> fx_to rate \<and> f_journal t = f_journal s @ [p, q] \<and>
    lp_fx_rate p = Some rate \<and> lp_fx_rate q = Some rate \<and>
    (\<forall>c. raw_net c [p, q] = (if c = fx_from rate then m else if c = fx_to rate then - convert m r else 0))"
  using assms by (rule order_fx_batch)

definition example_fx :: fx_rate where
  "example_fx = \<lparr>fx_from = ''USD'', fx_to = ''EUR'', fx_rate_str = ''0.9'', fx_markup_bps = 50\<rparr>"

lemma example_fx_batch:
  "\<exists>b t. append_order_batch example_env ''o1'' ''5.00'' ''USD'' (Some example_fx) None empty_world = (Inr b, t)"
proof -
  let ?legs = "[\<lparr>cl_account = Debit, cl_amount = ''5.00'', cl_currency = ''USD''\<rparr>,
      \<lparr>cl_account = Credit, cl_amount = ''4.50'', cl_currency = ''EUR''\<rparr>]"
  have a: "parse_amount ''5.00'' = Inr 500" "parse_rate ''0.9'' = Inr 900000"
    "fmt_amount (convert 500 900000) = ''4.50''" by code_simp+
  have n: "fx_nets example_fx 0 0 ?legs = Inr (500, - 450)" "check_fx example_fx 500 (- 450) = Inr ()"
    unfolding example_fx_def by code_simp+
  have "\<exists>b t. write_batch example_env None (\<lambda>batch. mk_fx_posting batch ''o1'' example_fx) ?legs empty_world = (Inr b, t)"
    by (rule write_batch_total [OF example_env_no_faults]) (simp add: can_sign_def)
  then obtain b t where w: "write_batch example_env None (\<lambda>batch. mk_fx_posting batch ''o1'' example_fx) ?legs empty_world = (Inr b, t)"
    by blast
  have "append_fx_batch example_env ''o1'' ?legs example_fx None empty_world = (Inr b, t)"
    using n w by (simp add: append_fx_batch_write seqM_def bnd_def guard_def ret_def result_def)
  then show ?thesis
    by (simp add: append_order_batch_def example_fx_def bnd_def result_def ret_def a)
qed

theorem fx_batch_converts_witness:
  "\<exists>b t p q. append_order_batch example_env ''o1'' ''5.00'' ''USD'' (Some example_fx) None empty_world = (Inr b, t) \<and>
    f_journal t = f_journal empty_world @ [p, q]"
  using example_fx_batch fx_batch_converts by blast

text \<open>
  A conversion that rounds to zero minor units is refused by the journal with nothing
  written. The executor only reaches the journal after the rail has been paid.
\<close>

theorem fx_dust_refused:
  assumes "parse_amount amount = Inr m" "parse_rate (fx_rate_str rate) = Inr r" "convert m r = 0"
  shows "\<exists>e. append_order_batch E order amount currency (Some rate) signer s = (Inl (Err (JournalNotBalanced e)), s)"
proof -
  have "parse_amount (fmt_amount 0) = Inr 0" by simp
  with assms show ?thesis
    by (auto simp: append_order_batch_def append_fx_batch_def bnd_def seqM_def result_def guard_def ret_def
        check_fx_def signed_minor_def i128_id)
qed

theorem fx_dust_refused_witness:
  "\<exists>e. append_order_batch example_env ''o1'' ''0.01'' ''USD'' (Some example_fx) None empty_world =
    (Inl (Err (JournalNotBalanced e)), empty_world)"
proof (rule fx_dust_refused)
  show "parse_amount ''0.01'' = Inr 1" "parse_rate (fx_rate_str example_fx) = Inr 900000"
    "convert 1 900000 = 0" unfolding example_fx_def by code_simp+
qed

text \<open>
  A batch that does not balance, has fewer than two legs, or contains an amount that
  does not parse is refused before anything happens: the state is exactly the one
  before, down to the clock and the id counter.
\<close>

theorem bad_batch_refused:
  assumes "length legs < 2 \<or> legs_sum 0 legs \<noteq> Inr 0"
  shows "\<exists>e. append_batch E order currency legs signer s = (Inl (Err e), s)"
  using assms
  by (cases "legs_sum 0 legs") (auto simp: append_batch_def seqM_def bnd_def guard_def ret_def result_def)

theorem bad_batch_refused_witness:
  "\<exists>e. append_batch example_env ''o1'' ''USD'' [(Debit, ''5.00''), (Credit, ''4.99'')] None empty_world =
    (Inl (Err e), empty_world)"
proof (rule bad_batch_refused)
  have "legs_sum 0 [(Debit, ''5.00''), (Credit, ''4.99'')] = Inr 1" by code_simp
  then show "length [(Debit, ''5.00''), (Credit, ''4.99'')] < 2 \<or>
    legs_sum 0 [(Debit, ''5.00''), (Credit, ''4.99'')] \<noteq> Inr 0" by simp
qed

text \<open>
  C33: Batches are not atomic. When the write of the second posting fails, the first one
  stays in the journal: the call returns an error and the currency is off by the whole
  amount.
\<close>

theorem torn_batch_unbalances:
  assumes "parse_amount amount = Inr m"
    and "env_faults E (n_io s) = None" "env_faults E (n_io s + 1) = None"
    and "env_faults E (n_io s + 2) = Some (WriteErr e)"
  shows "\<exists>err t. append_order_batch E order amount currency None None s = (Inl (Err err), t) \<and>
    raw_net currency (f_journal t) = raw_net currency (f_journal s) + m"
  using assms plain_legs_sum [OF assms(1)]
  by (simp add: append_order_batch_def append_batch_def seqM_def bnd_def guard_def ret_def result_def
      journal_head_def postings_def read_jsonl_def gets_def sign_posting_def append_posting_def append_jsonl_def
      append_line_def modify_def raw_net_def posting_value_def mk_posting_def leg_value_def)

theorem torn_batch_unbalances_witness:
  "\<exists>err t. append_order_batch (example_env\<lparr>env_faults := (\<lambda>n. if n = 2 then Some (WriteErr ''disk full'') else None)\<rparr>)
      ''o1'' ''5.00'' ''USD'' None None empty_world = (Inl (Err err), t) \<and>
    raw_net ''USD'' (f_journal t) = raw_net ''USD'' (f_journal empty_world) + 500"
proof (rule torn_batch_unbalances)
  show "parse_amount ''5.00'' = Inr 500" by code_simp
qed (simp_all add: empty_world_def)


definition example_posting :: "string \<Rightarrow> ledger_posting" where
  "example_posting amount = mk_posting ''b1'' ''o1'' ''USD'' ''0'' ''p1'' GENESIS_HASH (Debit, amount)"


text \<open>
  \<open>net_by_currency\<close> lists the currencies in strictly increasing order, and each net is
  the exact sum of the debits minus the credits of the postings whose amount parses,
  as an \<open>i128\<close>; a currency not listed nets to zero.
\<close>

theorem net_by_currency_exact:
  "sorted_wrt (<) (map fst (net_by_currency ps)) \<and>
   (case map_of (net_by_currency ps) c of None \<Rightarrow> 0 | Some n \<Rightarrow> n) = i128 (raw_net c ps)"
  using net_loop_spec [of "[]" ps c] by (simp add: net_by_currency_def)

text \<open>
  A posting signed by \<open>sign_posting\<close> verifies with its embedded keys, and the signature
  leaves the hashed content, hence the chain, unchanged.
\<close>

theorem posting_signature_verifies:
  assumes "hybrid_ok E K" "sign_posting E (Some K) p = Inr q"
  shows "verify_posting_signature E q = Inr True \<and> posting_hash E q = posting_hash E p"
proof
  obtain sig where sig: "sign_hybrid E (ok_secret K) (posting_canonical E p) = Inr sig"
    "q = p\<lparr>lp_signature := Some sig, lp_signer := Some (signer_of K)\<rparr>"
    using assms(2) by (auto simp: sign_posting_def split: sum.splits)
  have same: "posting_json q = posting_json p" using sig(2) by (simp add: posting_json_def)
  then show "posting_hash E q = posting_hash E p" by (simp add: posting_hash_json)
  have "verify_hybrid E sig (ok_ed_pk K) (ok_falcon_pk K) (posting_canonical E p) = Inr True"
    using assms(1) sig(1) by (simp add: hybrid_ok_def)
  then show "verify_posting_signature E q = Inr True"
    using sig(2) same by (simp add: verify_posting_signature_def signer_of_def posting_canonical_def)
qed

theorem posting_signature_verifies_witness:
  "\<exists>q. sign_posting example_env (Some example_keys) (example_posting ''5.00'') = Inr q \<and>
    verify_posting_signature example_env q = Inr True"
proof -
  obtain q where "sign_posting example_env (Some example_keys) (example_posting ''5.00'') = Inr q"
    by (simp add: sign_posting_def example_env_def)
  with posting_signature_verifies [OF example_hybrid_ok this] show ?thesis by blast
qed

end
