(* ===== verification/Audit_Stream.thy ===== *)
theory Audit_Stream
  imports Journal
begin

text \<open>
  The audit stream: \<open>src/origin-attest/src/audit.rs\<close> (the in-memory hash-chained
  \<open>AuditLog\<close>) and \<open>src/origin-payments/src/audit.rs\<close> (the persisted stream of the
  payments store, its verification and its compliance export).
\<close>

section \<open>The hash-chained log\<close>

datatype attest_error =
    Crypto string
  | InvalidEndorsement string
  | ChainBroken nat
  | Expired string
  | Revoked string
  | Serialization string
  | Discovery string
  | Threshold string
  | InvalidParameter string
  | NotFound string
  | AuditBroken nat

record audit_entry =
  ae_prev_hash :: bytes
  ae_seq :: nat
  ae_entry_type :: nat
  ae_payload_hash :: bytes
  ae_timestamp :: nat
  ae_signature :: "bytes option"

definition entry_bytes :: "audit_entry \<Rightarrow> bytes" where
  "entry_bytes e = ae_prev_hash e @ be_bytes 4 (ae_seq e) @ be_bytes 1 (ae_entry_type e) @
     ae_payload_hash e @ be_bytes 8 (ae_timestamp e)"

definition entry_hash :: "env \<Rightarrow> audit_entry \<Rightarrow> bytes" where
  "entry_hash E e = sha3_256 E (entry_bytes e)"

record audit_log =
  al_entries :: "audit_entry list"
  al_root_hash :: bytes

definition audit_log_new :: audit_log where
  "audit_log_new = \<lparr>al_entries = [], al_root_hash = zeros32\<rparr>"

definition audit_log_append :: "env \<Rightarrow> audit_log \<Rightarrow> audit_entry \<Rightarrow> audit_log" where
  "audit_log_append E l e = (let e' = e\<lparr>ae_prev_hash := al_root_hash l\<rparr> in
     \<lparr>al_entries = al_entries l @ [e'], al_root_hash = entry_hash E e'\<rparr>)"

fun verify_entries :: "env \<Rightarrow> nat \<Rightarrow> bytes \<Rightarrow> audit_entry list \<Rightarrow> attest_error + bytes" where
  "verify_entries E i expected_prev [] = Inr expected_prev"
| "verify_entries E i expected_prev (e # es) =
     (if ae_prev_hash e \<noteq> expected_prev then Inl (AuditBroken i)
      else verify_entries E (i + 1) (entry_hash E e) es)"

definition verify_chain :: "env \<Rightarrow> audit_log \<Rightarrow> attest_error + bool" where
  "verify_chain E l =
     (if al_entries l = [] then Inr True
      else case verify_entries E 0 zeros32 (al_entries l) of
        Inl e \<Rightarrow> Inl e
      | Inr expected_prev \<Rightarrow>
          if al_root_hash l \<noteq> expected_prev then Inl (AuditBroken (length (al_entries l)))
          else Inr True)"

definition seqs :: "audit_log \<Rightarrow> nat list" where
  "seqs l = map ae_seq (al_entries l)"

section \<open>The persisted stream\<close>

definition AT_ORDER_CREATED :: nat where
  "AT_ORDER_CREATED = 1"

definition AT_ORDER_SETTLED :: nat where
  "AT_ORDER_SETTLED = 2"

definition AT_ORDER_FAILED :: nat where
  "AT_ORDER_FAILED = 3"

definition AT_RECONCILE :: nat where
  "AT_RECONCILE = 4"

definition AT_CUSTODY :: nat where
  "AT_CUSTODY = 5"

definition AT_ORDER_REQUEUED :: nat where
  "AT_ORDER_REQUEUED = 6"

definition AT_ORDER_FLAGGED :: nat where
  "AT_ORDER_FLAGGED = 7"

definition to_entry :: "audit_record \<Rightarrow> audit_entry" where
  "to_entry r = \<lparr>ae_prev_hash = ar_prev_hash r, ae_seq = ar_seq r, ae_entry_type = ar_entry_type r,
     ae_payload_hash = ar_payload_hash r, ae_timestamp = ar_timestamp r, ae_signature = ar_signature r\<rparr>"

text \<open>\<open>timestamp_nanos_opt().unwrap_or(0) as u64\<close>\<close>

definition nanos_u64 :: "int \<Rightarrow> nat" where
  "nanos_u64 t = (if - (2 ^ 63) \<le> t \<and> t < 2 ^ 63 then as_u64 t else 0)"

definition sign_record :: "env \<Rightarrow> operator_keys option \<Rightarrow> audit_record \<Rightarrow> error + audit_record" where
  "sign_record E keys r = (case keys of
       None \<Rightarrow> Inr r
     | Some K \<Rightarrow> (case sign_hybrid E (ok_secret K) (entry_hash E (to_entry r)) of
           Inl e \<Rightarrow> Inl (CryptoError e)
         | Inr sig \<Rightarrow> Inr (r\<lparr>ar_signature := Some sig\<rparr>)))"

definition next_record :: "env \<Rightarrow> nat \<Rightarrow> json \<Rightarrow> audit_record list \<Rightarrow> int \<Rightarrow> audit_record" where
  "next_record E entry_type payload records now =
     \<lparr>ar_prev_hash = (if records = [] then zeros32 else entry_hash E (to_entry (last records))),
      ar_seq = (if records = [] then 0 else (ar_seq (last records) + 1) mod 2 ^ 32),
      ar_entry_type = entry_type, ar_payload_hash = sha3_256 E (json_to_vec E payload),
      ar_payload = payload, ar_timestamp = nanos_u64 now, ar_signature = None\<rparr>"

definition audit :: "env \<Rightarrow> nat \<Rightarrow> json \<Rightarrow> operator_keys option \<Rightarrow> ('c, unit) W" where
  "audit E entry_type payload keys =
     bnd (audit_records E) (\<lambda>records.
     bnd (utc_now E) (\<lambda>now.
     bnd (result (sign_record E keys (next_record E entry_type payload records now))) (\<lambda>r.
     append_audit_record E r)))"

fun verify_records :: "env \<Rightarrow> bytes \<Rightarrow> audit_record list \<Rightarrow> bool" where
  "verify_records E expected_prev [] = True"
| "verify_records E expected_prev (r # rs) =
     (if ar_prev_hash r \<noteq> expected_prev then False
      else if ar_payload_hash r \<noteq> sha3_256 E (json_to_vec E (ar_payload r)) then False
      else verify_records E (entry_hash E (to_entry r)) rs)"

definition audit_verify :: "env \<Rightarrow> ('c, bool) W" where
  "audit_verify E = bnd (audit_records E) (\<lambda>records. ret (verify_records E zeros32 records))"

section \<open>Compliance export\<close>

text \<open>\<open>{:02x}\<close> of a byte.\<close>

definition hex2 :: "nat \<Rightarrow> string" where
  "hex2 n = hex_encode [of_nat n]"

definition plain_line :: "env \<Rightarrow> audit_record \<Rightarrow> string" where
  "plain_line E r = ''seq='' @ dec (ar_seq r) @ '' type=0x'' @ hex2 (ar_entry_type r) @ '' ts='' @
     dec (ar_timestamp r) @ '' payload='' @ utf8_lossy E (json_to_vec E (ar_payload r))"

definition export_entry :: "audit_record \<Rightarrow> json" where
  "export_entry r = JObj [(''seq'', JNum (int (ar_seq r))), (''entry_type'', JNum (int (ar_entry_type r))),
     (''payload'', ar_payload r), (''payload_hash'', JStr (hex_encode (ar_payload_hash r))),
     (''signed'', JBool (ar_signature r \<noteq> None))]"

text \<open>The document written to the output path.\<close>

definition export_doc :: "env \<Rightarrow> string \<Rightarrow> ('c, json) W" where
  "export_doc E format = bnd (audit_records E) (\<lambda>records.
     if format = ''plain'' then ret (JStr (join [CHR 0x0A] (map (plain_line E) records)))
     else if format = ''soc2'' \<or> format = ''pcidss'' \<or> format = ''hipaa''
     then bnd (utc_now E) (\<lambda>t. ret (JObj [(''framework'', JStr format), (''version'', JStr ''1.0''),
       (''export_date'', JStr (ymd E t)), (''entries'', JArr (map export_entry records))]))
     else fail (StoreCorrupted (''unknown export format: '' @ format)))"

section \<open>Both logs are hash chains\<close>

text \<open>Field widths of \<open>AuditEntry\<close>, given by its Rust types.\<close>

definition entry_wf :: "audit_entry \<Rightarrow> bool" where
  "entry_wf e \<longleftrightarrow> length (ae_prev_hash e) = 32 \<and> ae_seq e < 2 ^ 32 \<and> ae_entry_type e < 256 \<and>
     length (ae_payload_hash e) = 32 \<and> ae_timestamp e < 2 ^ 64"

lemma entry_bytes_inj:
  assumes "entry_wf d" "entry_wf e" "entry_bytes d = entry_bytes e"
  shows "d\<lparr>ae_signature := None\<rparr> = e\<lparr>ae_signature := None\<rparr>"
proof -
  from assms have p: "ae_prev_hash d = ae_prev_hash e"
    and q: "be_bytes 4 (ae_seq d) = be_bytes 4 (ae_seq e)"
    and r: "be_bytes 1 (ae_entry_type d) = be_bytes 1 (ae_entry_type e)"
    and s: "ae_payload_hash d = ae_payload_hash e"
    and u: "be_bytes 8 (ae_timestamp d) = be_bytes 8 (ae_timestamp e)"
    by (auto simp: entry_bytes_def entry_wf_def)
  from assms(1,2) have "ae_seq d < 256 ^ 4" "ae_seq e < 256 ^ 4" "ae_entry_type d < 256 ^ 1"
    "ae_entry_type e < 256 ^ 1" "ae_timestamp d < 256 ^ 8" "ae_timestamp e < 256 ^ 8"
    by (simp_all add: entry_wf_def)
  then have "ae_seq d = ae_seq e" "ae_entry_type d = ae_entry_type e" "ae_timestamp d = ae_timestamp e"
    using be_bytes_inj q r u by blast+
  with p s show ?thesis by simp
qed

interpretation entry_chain: hash_chain "sha3_256 E" entry_bytes ae_prev_hash entry_wf for E
proof
  fix x y assume "entry_wf x" "entry_wf y" "entry_bytes x = entry_bytes y"
  from entry_bytes_inj [OF this] show "ae_prev_hash x = ae_prev_hash y"
    by (metis audit_entry.select_convs(1) audit_entry.surjective audit_entry.update_convs(6))
qed

interpretation record_chain: hash_chain "sha3_256 E" "\<lambda>r. entry_bytes (to_entry r)" ar_prev_hash "\<lambda>r. entry_wf (to_entry r)" for E
proof
  fix x y assume "entry_wf (to_entry x)" "entry_wf (to_entry y)" "entry_bytes (to_entry x) = entry_bytes (to_entry y)"
  from entry_chain.link_in_pre [OF this] show "ar_prev_hash x = ar_prev_hash y" by (simp add: to_entry_def)
qed

lemma entry_hash_eq: "entry_hash E = (\<lambda>e. sha3_256 E (entry_bytes e))"
  by (simp add: fun_eq_iff entry_hash_def)

lemma verify_entries_Inr: "verify_entries E i h es = Inr g \<longleftrightarrow>
    chain_from (entry_hash E) ae_prev_hash h es \<and> g = chain_head (entry_hash E) h es"
  by (induction E i h es rule: verify_entries.induct) auto

lemma verify_entries_Inl: "verify_entries E i h es = Inl err \<Longrightarrow>
    \<exists>k < length es. err = AuditBroken (i + k) \<and> chain_from (entry_hash E) ae_prev_hash h (take k es) \<and>
      ae_prev_hash (es ! k) \<noteq> chain_head (entry_hash E) h (take k es)"
proof (induction E i h es rule: verify_entries.induct)
  case (2 E i h e es)
  show ?case
  proof (cases "ae_prev_hash e = h")
    case True
    with 2 obtain k where "k < length es" "err = AuditBroken (i + 1 + k)"
      "chain_from (entry_hash E) ae_prev_hash (entry_hash E e) (take k es)"
      "ae_prev_hash (es ! k) \<noteq> chain_head (entry_hash E) (entry_hash E e) (take k es)"
      by auto
    with True show ?thesis by (intro exI [of _ "Suc k"]) auto
  next
    case False
    with 2 show ?thesis by (intro exI [of _ 0]) auto
  qed
qed simp

lemma verify_chain_Inr: "verify_chain E l = Inr b \<longleftrightarrow> b \<and> (al_entries l = [] \<or>
    chain_from (entry_hash E) ae_prev_hash zeros32 (al_entries l) \<and>
    al_root_hash l = chain_head (entry_hash E) zeros32 (al_entries l))"
proof (cases "verify_entries E 0 zeros32 (al_entries l)")
  case (Inl e)
  then have "\<not> chain_from (entry_hash E) ae_prev_hash zeros32 (al_entries l)"
    using verify_entries_Inr [of E 0 zeros32 "al_entries l" "chain_head (entry_hash E) zeros32 (al_entries l)"] by simp
  with Inl show ?thesis by (auto simp: verify_chain_def)
next
  case (Inr h)
  then have "chain_from (entry_hash E) ae_prev_hash zeros32 (al_entries l)"
    "h = chain_head (entry_hash E) zeros32 (al_entries l)" by (simp_all add: verify_entries_Inr)
  with Inr show ?thesis by (auto simp: verify_chain_def)
qed

lemma verify_chain_append:
  assumes "al_root_hash l = chain_head (entry_hash E) zeros32 (al_entries l)" "verify_chain E l = Inr True"
  shows "verify_chain E (audit_log_append E l e) = Inr True \<and>
    al_root_hash (audit_log_append E l e) = chain_head (entry_hash E) zeros32 (al_entries (audit_log_append E l e))"
  using assms by (auto simp: audit_log_append_def verify_chain_Inr Let_def chain_from_append chain_head_append)

lemma verify_rebuilt:
  "verify_chain E (foldl (audit_log_append E) audit_log_new es) = Inr True \<and>
   (let l = foldl (audit_log_append E) audit_log_new es in
      al_root_hash l = chain_head (entry_hash E) zeros32 (al_entries l))"
proof (induction es rule: rev_induct)
  case Nil
  then show ?case by (simp add: audit_log_new_def verify_chain_def)
next
  case (snoc e es)
  then show ?case using verify_chain_append by (simp add: Let_def)
qed

section \<open>The persisted stream stays intact\<close>

definition payload_ok :: "env \<Rightarrow> audit_record \<Rightarrow> bool" where
  "payload_ok E r \<longleftrightarrow> ar_payload_hash r = sha3_256 E (json_to_vec E (ar_payload r))"

abbreviation record_hash :: "env \<Rightarrow> audit_record \<Rightarrow> bytes" where
  "record_hash E r \<equiv> entry_hash E (to_entry r)"

abbreviation audit_chain :: "env \<Rightarrow> audit_record list \<Rightarrow> bool" where
  "audit_chain E rs \<equiv> chain_from (record_hash E) ar_prev_hash zeros32 rs \<and> (\<forall>r \<in> set rs. payload_ok E r)"

lemma verify_records_iff: "verify_records E h rs \<longleftrightarrow>
    chain_from (record_hash E) ar_prev_hash h rs \<and> (\<forall>r \<in> set rs. payload_ok E r)"
  by (induction E h rs rule: verify_records.induct) (auto simp: payload_ok_def)

definition audit_ext :: "env \<Rightarrow> 'c world_scheme \<Rightarrow> 'c world_scheme \<Rightarrow> bool" where
  "audit_ext E s t \<longleftrightarrow> (\<exists>rs. f_audit t = f_audit s @ rs \<and> (\<forall>r \<in> set rs. payload_ok E r) \<and>
     chain_from (record_hash E) ar_prev_hash (chain_head (record_hash E) zeros32 (f_audit s)) rs)"

interpretation audit_ext: state_preorder "audit_ext E" for E
proof unfold_locales
  fix s t u :: "'a world_scheme"
  show "audit_ext E s s" by (simp add: audit_ext_def)
  assume "audit_ext E s t" "audit_ext E t u"
  then obtain xs ys where "f_audit t = f_audit s @ xs" "f_audit u = (f_audit s @ xs) @ ys"
    "\<forall>r \<in> set xs. payload_ok E r" "\<forall>r \<in> set ys. payload_ok E r"
    "chain_from (record_hash E) ar_prev_hash (chain_head (record_hash E) zeros32 (f_audit s)) xs"
    "chain_from (record_hash E) ar_prev_hash (chain_head (record_hash E) zeros32 (f_audit s @ xs)) ys"
    unfolding audit_ext_def by metis
  then show "audit_ext E s u"
    unfolding audit_ext_def by (intro exI [of _ "xs @ ys"]) (auto simp: chain_from_append chain_head_append)
qed

lemma audit_ext_same: "f_audit t = f_audit s \<Longrightarrow> audit_ext E s t"
  by (simp add: audit_ext_def)

lemma audit_ext_clock [keeps_rules]: "clock_ok (audit_ext E)"
  by (simp add: clock_ok_def audit_ext_same)

lemmas audit_ext_preorder [keeps_rules] = audit_ext.state_preorder_axioms

lemma audit_ext_chain: "audit_ext E s t \<Longrightarrow> audit_chain E (f_audit s) \<Longrightarrow> audit_chain E (f_audit t)"
  by (auto simp: audit_ext_def chain_from_append)

lemma sign_record_Inr: "sign_record E keys r = Inr q \<Longrightarrow> \<exists>sig. q = r\<lparr>ar_signature := sig\<rparr>"
  by (cases keys) (auto simp: sign_record_def split: sum.splits intro: exI [of _ "ar_signature q"])

lemma audit_run:
  assumes "audit E ty payload keys s = (r, t)"
  shows "f_audit t = f_audit s \<and> r \<noteq> Inr () \<or>
    (\<exists>now sig. f_audit t = f_audit s @ [(next_record E ty payload (f_audit s) now)\<lparr>ar_signature := sig\<rparr>])"
proof -
  define now where "now = env_time E (n_time s)"
  show ?thesis
  proof (cases "sign_record E keys (next_record E ty payload (f_audit s) now)")
    case (Inl e)
    with assms show ?thesis
      by (auto simp: audit_def bnd_def audit_records_def read_jsonl_def gets_def result_def now_def ret_def
          split: option.splits fault.splits)
  next
    case (Inr q)
    from sign_record_Inr [OF this] obtain sig where q: "q = (next_record E ty payload (f_audit s) now)\<lparr>ar_signature := sig\<rparr>"
      by blast
    have step: "f_audit v = f_audit u \<and> r \<noteq> Inr () \<or> f_audit v = f_audit u @ [q]" if "append_audit_record E q u = (r, v)" for u v :: "'a world_scheme" and r
      using append_jsonl_run [OF that [unfolded append_audit_record_def]] by auto
    from Inr assms have "f_audit t = f_audit s \<and> r \<noteq> Inr () \<or> f_audit t = f_audit s @ [q]"
      by (auto simp: audit_def bnd_def audit_records_def read_jsonl_def gets_def result_def now_def ret_def
          split: option.splits fault.splits dest!: step)
    with q show ?thesis by blast
  qed
qed

lemma audit_audit_ext [keeps_rules]: "keeps (audit_ext E) (audit E ty payload keys)"
proof (rule keepsI)
  fix s r t
  assume "audit E ty payload keys s = (r, t)"
  from audit_run [OF this] show "audit_ext E s t"
    by (auto simp: audit_ext_def next_record_def payload_ok_def chain_head_last)
qed

lemma audit_keeps [keeps_rules]:
  assumes "state_preorder R" "clock_ok R" "\<And>s r. R s (s\<lparr>f_audit := f_audit s @ [r]\<rparr>)"
  shows "keeps R (audit E ty payload keys)"
  unfolding audit_def
  by (intro state_preorder.bnd_ok [OF assms(1)] reads_keep(8) utc_now_keeps state_preorder.result_ok
      append_audit_record_keeps assms)

text \<open>Without faults and with keys that can sign, an entry is always written.\<close>

lemma audit_total:
  assumes "no_faults E" "can_sign E keys"
  shows "\<exists>t. audit E ty payload keys s = (Inr (), t)"
proof -
  have "\<exists>q. sign_record E keys r = Inr q" for r
  proof (cases keys)
    case (Some K)
    with assms(2) obtain sig where "sign_hybrid E (ok_secret K) (record_hash E r) = Inr sig"
      unfolding can_sign_def by auto
    with Some show ?thesis by (simp add: sign_record_def)
  qed (simp add: sign_record_def)
  then obtain q where "sign_record E keys (next_record E ty payload (f_audit s) (env_time E (n_time s))) = Inr q"
    by blast
  then show ?thesis
    using assms(1)
    by (auto simp: audit_def bnd_def audit_records_def read_jsonl_def gets_def result_def ret_def no_faults_def
        append_audit_record_def append_jsonl_def append_line_def modify_def split: sum.splits)
qed

section \<open>Properties\<close>

text \<open>
  Recording an audit entry, whatever fails on the way, leaves a stream that verifies:
  the log only grows, by at most one entry, and a log that verified before verifies after.
\<close>

theorem audit_stream_stays_valid:
  assumes "audit E ty payload keys s = (r, t)" "verify_records E zeros32 (f_audit s)"
  shows "verify_records E zeros32 (f_audit t) \<and> (\<exists>rs. f_audit t = f_audit s @ rs \<and> length rs \<le> 1 \<and>
    (r = Inr () \<longrightarrow> (\<exists>a. rs = [a] \<and> ar_payload a = payload \<and> ar_entry_type a = ty)))"
proof
  have "audit_ext E s t" by (rule keepsD [OF audit_audit_ext assms(1)])
  then show "verify_records E zeros32 (f_audit t)"
    using assms(2) audit_ext_chain by (simp add: verify_records_iff)
  show "\<exists>rs. f_audit t = f_audit s @ rs \<and> length rs \<le> 1 \<and>
    (r = Inr () \<longrightarrow> (\<exists>a. rs = [a] \<and> ar_payload a = payload \<and> ar_entry_type a = ty))"
    using audit_run [OF assms(1)] by (auto simp: next_record_def)
qed

theorem audit_stream_stays_valid_witness:
  "\<exists>r t. audit example_env AT_ORDER_SETTLED JNull None empty_world = (r, t) \<and> verify_records example_env zeros32 (f_audit t)"
proof -
  obtain r t where "audit example_env AT_ORDER_SETTLED JNull None empty_world = (r, t)" by fastforce
  moreover have "verify_records example_env zeros32 (f_audit empty_world)" by (simp add: empty_world_def)
  ultimately show ?thesis using audit_stream_stays_valid by blast
qed

text \<open>
  Tampering with the persisted stream shows. Two streams of the same length that
  \<open>verify\<close> accepts and that end in the same hash agree on every entry except for the
  signatures, and on the bytes of every payload, unless SHA3-256 collides on two of the
  hashed inputs. Signatures are neither hashed nor checked by \<open>verify\<close>.
\<close>

theorem audit_tamper_evident:
  assumes "length xs = length ys" "\<forall>x \<in> set (xs @ ys). entry_wf (to_entry x)"
    and "verify_records E zeros32 xs" "verify_records E zeros32 ys"
    and "chain_head (record_hash E) zeros32 xs = chain_head (record_hash E) zeros32 ys"
  shows "map (\<lambda>x. (to_entry x)\<lparr>ae_signature := None\<rparr>) xs = map (\<lambda>x. (to_entry x)\<lparr>ae_signature := None\<rparr>) ys \<and>
      map (\<lambda>x. json_to_vec E (ar_payload x)) xs = map (\<lambda>x. json_to_vec E (ar_payload x)) ys \<or>
    clash (sha3_256 E) (\<lambda>x. entry_bytes (to_entry x)) xs ys \<or>
    clash (sha3_256 E) (\<lambda>x. json_to_vec E (ar_payload x)) xs ys"
proof (rule disjCI)
  assume no: "\<not> (clash (sha3_256 E) (\<lambda>x. entry_bytes (to_entry x)) xs ys \<or>
    clash (sha3_256 E) (\<lambda>x. json_to_vec E (ar_payload x)) xs ys)"
  have same: "map (\<lambda>x. entry_bytes (to_entry x)) xs = map (\<lambda>x. entry_bytes (to_entry x)) ys"
    using record_chain.same_head_same_log [of xs ys E zeros32] assms no
    by (auto simp: verify_records_iff entry_hash_eq)
  have "(to_entry (xs ! i))\<lparr>ae_signature := None\<rparr> = (to_entry (ys ! i))\<lparr>ae_signature := None\<rparr> \<and>
    json_to_vec E (ar_payload (xs ! i)) = json_to_vec E (ar_payload (ys ! i))" if "i < length xs" for i
  proof -
    let ?x = "xs ! i" and ?y = "ys ! i"
    have i: "?x \<in> set xs" "?y \<in> set ys" using that assms(1) by simp_all
    have "entry_bytes (to_entry ?x) = entry_bytes (to_entry ?y)"
      using arg_cong [OF same, of "\<lambda>l. l ! i"] that assms(1) by simp
    then have e: "(to_entry ?x)\<lparr>ae_signature := None\<rparr> = (to_entry ?y)\<lparr>ae_signature := None\<rparr>"
      using entry_bytes_inj i assms(2) by simp
    then have "ar_payload_hash ?x = ar_payload_hash ?y" by (simp add: to_entry_def)
    then have "sha3_256 E (json_to_vec E (ar_payload ?x)) = sha3_256 E (json_to_vec E (ar_payload ?y))"
      using i assms(3,4) by (simp add: verify_records_iff payload_ok_def)
    then have "json_to_vec E (ar_payload ?x) = json_to_vec E (ar_payload ?y)"
      using no i by (auto simp: clash_def)
    with e show ?thesis by blast
  qed
  then show "map (\<lambda>x. (to_entry x)\<lparr>ae_signature := None\<rparr>) xs = map (\<lambda>x. (to_entry x)\<lparr>ae_signature := None\<rparr>) ys \<and>
      map (\<lambda>x. json_to_vec E (ar_payload x)) xs = map (\<lambda>x. json_to_vec E (ar_payload x)) ys"
    using assms(1) by (simp add: list_eq_iff_nth_eq)
qed

definition example_record :: "nat \<Rightarrow> audit_record" where
  "example_record k = next_record example_env k JNull [] 0"

lemma example_record_ok: "entry_wf (to_entry (example_record 2))" "verify_records example_env zeros32 [example_record 2]"
  by (simp_all add: example_record_def next_record_def entry_wf_def to_entry_def zeros32_def example_env_def
      nanos_u64_def as_u64_def)

theorem audit_tamper_evident_witness:
  "map (\<lambda>x. (to_entry x)\<lparr>ae_signature := None\<rparr>) [example_record 2] = map (\<lambda>x. (to_entry x)\<lparr>ae_signature := None\<rparr>) [example_record 2] \<and>
      map (\<lambda>x. json_to_vec example_env (ar_payload x)) [example_record 2] = map (\<lambda>x. json_to_vec example_env (ar_payload x)) [example_record 2] \<or>
    clash (sha3_256 example_env) (\<lambda>x. entry_bytes (to_entry x)) [example_record 2] [example_record 2] \<or>
    clash (sha3_256 example_env) (\<lambda>x. json_to_vec example_env (ar_payload x)) [example_record 2] [example_record 2]"
  by (rule audit_tamper_evident) (simp_all add: example_record_ok del: verify_records.simps)

text \<open>
  \<open>AuditLog\<close>: a log built by \<open>append\<close> verifies whatever the appended entries claimed as
  their predecessor, because \<open>append\<close> rewrites \<open>prev_hash\<close>. \<open>verify_chain\<close> accepts exactly
  the chained logs whose root is the hash of the last entry, and a reported break is at
  the first entry that does not chain, or past the end when only the root is wrong.
\<close>

theorem audit_log_verification:
  "verify_chain E (foldl (audit_log_append E) audit_log_new es) = Inr True \<and>
   (case verify_chain E l of
      Inr b \<Rightarrow> b \<and> chain_from (entry_hash E) ae_prev_hash zeros32 (al_entries l) \<and>
        (al_entries l = [] \<or> al_root_hash l = chain_head (entry_hash E) zeros32 (al_entries l))
    | Inl err \<Rightarrow> \<exists>k. err = AuditBroken k \<and> k \<le> length (al_entries l) \<and>
        chain_from (entry_hash E) ae_prev_hash zeros32 (take k (al_entries l)) \<and>
        (if k = length (al_entries l) then al_root_hash l \<noteq> chain_head (entry_hash E) zeros32 (al_entries l)
         else ae_prev_hash (al_entries l ! k) \<noteq> chain_head (entry_hash E) zeros32 (take k (al_entries l))))"
proof
  show "verify_chain E (foldl (audit_log_append E) audit_log_new es) = Inr True"
    using verify_rebuilt by blast
  show "case verify_chain E l of
      Inr b \<Rightarrow> b \<and> chain_from (entry_hash E) ae_prev_hash zeros32 (al_entries l) \<and>
        (al_entries l = [] \<or> al_root_hash l = chain_head (entry_hash E) zeros32 (al_entries l))
    | Inl err \<Rightarrow> \<exists>k. err = AuditBroken k \<and> k \<le> length (al_entries l) \<and>
        chain_from (entry_hash E) ae_prev_hash zeros32 (take k (al_entries l)) \<and>
        (if k = length (al_entries l) then al_root_hash l \<noteq> chain_head (entry_hash E) zeros32 (al_entries l)
         else ae_prev_hash (al_entries l ! k) \<noteq> chain_head (entry_hash E) zeros32 (take k (al_entries l)))"
  proof (cases "verify_entries E 0 zeros32 (al_entries l)")
    case (Inl err)
    from verify_entries_Inl [OF this] obtain k where k: "k < length (al_entries l)" "err = AuditBroken k"
      "chain_from (entry_hash E) ae_prev_hash zeros32 (take k (al_entries l))"
      "ae_prev_hash (al_entries l ! k) \<noteq> chain_head (entry_hash E) zeros32 (take k (al_entries l))"
      by auto
    then have "verify_chain E l = Inl (AuditBroken k)" using Inl by (auto simp: verify_chain_def)
    with k show ?thesis by simp
  next
    case (Inr h)
    then have "chain_from (entry_hash E) ae_prev_hash zeros32 (al_entries l)"
      "h = chain_head (entry_hash E) zeros32 (al_entries l)" by (simp_all add: verify_entries_Inr)
    with Inr show ?thesis by (simp add: verify_chain_def)
  qed
qed

end
