(* ===== verification/Retry.thy ===== *)
theory Retry
  imports Payment_Store
begin

text \<open>
  \<open>origin-payments/src/retry.rs\<close> (backoff, scheduling, which errors are retryable) and
  \<open>origin-payments/src/compliance.rs\<close> (the verdicts and the two built-in scorers).
\<close>

section \<open>Backoff\<close>

definition le_val :: "bytes \<Rightarrow> nat" where
  "le_val bs = foldr (\<lambda>b acc. unat b + 256 * acc) bs 0"

definition backoff_base :: "retry_policy \<Rightarrow> nat \<Rightarrow> nat option \<Rightarrow> nat" where
  "backoff_base pol att retry_after_ms =
     (let exp = sat_mul_u64 (rp_base_ms pol) (sat_pow_u64 (rp_factor pol) (att - 1))
      in min (case retry_after_ms of Some r \<Rightarrow> r | None \<Rightarrow> exp) (rp_cap_ms pol))"

definition jittered :: "nat \<Rightarrow> bytes \<Rightarrow> int" where
  "jittered base buf =
     (let fraction = int (le_val buf mod 51) - 25;
          delta = tdiv (i64 (i64 (int base) * fraction)) 100
      in i64 (i64 (int base) + delta))"

text \<open>\<open>clamp\<close> panics when its bounds are the wrong way round.\<close>

definition next_backoff_ms :: "env \<Rightarrow> retry_policy \<Rightarrow> nat \<Rightarrow> nat option \<Rightarrow> ('c clock_scheme, 'f, nat) M" where
  "next_backoff_ms E pol att retry_after_ms = bnd (fill_random E 8) (\<lambda>buf.
     let cap = i64 (int (rp_cap_ms pol)) in
     if cap < 1 then panic
     else ret (as_u64 (max 1 (min cap (jittered (backoff_base pol att retry_after_ms) buf)))))"

definition schedule_retry ::
  "env \<Rightarrow> payment_order \<Rightarrow> string \<Rightarrow> retry_policy \<Rightarrow> nat option \<Rightarrow> ('c, payment_order \<times> bool) W" where
  "schedule_retry E ord reason pol retry_after_ms =
     (if rp_max_attempts pol \<le> po_attempts ord then ret (ord, False)
      else bnd (next_backoff_ms E pol (po_attempts ord) retry_after_ms) (\<lambda>backoff_ms.
       bnd (utc_now E) (\<lambda>now.
       let deadline = rfc3339 E (now + int backoff_ms * 1000000) in
       bnd (transition E Failed ord) (\<lambda>ord'.
       let ord'' = ord'\<lparr>po_next_retry_at := Some deadline\<rparr> in
       seqM (update_order E ord'')
       (seqM (append_retry_job E \<lparr>rj_order = po_id ord'', rj_attempt = po_attempts ord'',
           rj_next_retry_at = deadline, rj_backoff_ms = backoff_ms, rj_last_error = reason\<rparr>)
       (ret (ord'', True)))))))"

definition is_retryable :: "error \<Rightarrow> bool" where
  "is_retryable e = (case e of RailUnavailable rail details \<Rightarrow> True | _ \<Rightarrow> False)"

section \<open>Compliance scoring\<close>

datatype compliance_verdict = Accept | Flag string | Reject string json

text \<open>A scorer is an argument of the executor; these two are built in.\<close>

type_synonym scorer = "payment_order \<Rightarrow> error + compliance_verdict"

definition accept_all :: scorer where
  "accept_all ord = Inr Accept"

record rule_based_scorer =
  flag_threshold_minor :: int
  reject_threshold_minor :: int
  allowed_counterparties :: "string list option"

definition threshold_verdict :: "rule_based_scorer \<Rightarrow> payment_order \<Rightarrow> int \<Rightarrow> compliance_verdict" where
  "threshold_verdict sc ord amount =
     (if reject_threshold_minor sc \<le> amount
      then Reject (''amount '' @ po_amount ord @ '' exceeds reject threshold '' @ dec_int (reject_threshold_minor sc))
        (JObj [(''amount'', JStr (po_amount ord)), (''reject_threshold_minor'', JNum (reject_threshold_minor sc))])
      else if flag_threshold_minor sc \<le> amount
      then Flag (''amount '' @ po_amount ord @ '' exceeds flag threshold '' @ dec_int (flag_threshold_minor sc))
      else Accept)"

definition rule_based :: "rule_based_scorer \<Rightarrow> scorer" where
  "rule_based sc ord =
     (let amount = (case parse_amount (po_amount ord) of Inr m \<Rightarrow> m | Inl e \<Rightarrow> 0) in
      Inr (case allowed_counterparties sc of
        Some allowed \<Rightarrow>
          if po_to ord \<notin> set allowed
          then Reject (''counterparty '' @ po_to ord @ '' is not in the allowlist'')
            (JObj [(''to'', JStr (po_to ord)), (''allowed'', JArr (map JStr allowed))])
          else threshold_verdict sc ord amount
      | None \<Rightarrow> threshold_verdict sc ord amount))"

section \<open>The jitter stays in range\<close>

lemma tdiv_bounds:
  assumes "0 \<le> b" "\<bar>f\<bar> \<le> 25"
  shows "\<bar>tdiv (b * f) 100\<bar> \<le> b div 4"
proof -
  have "\<bar>b * f\<bar> div 100 \<le> (b * 25) div 100"
    using assms by (intro zdiv_mono1) (simp_all add: abs_mult mult_left_mono)
  also have "(b * 25) div 100 = b div 4" by simp
  finally have "\<bar>b * f\<bar> div 100 \<le> b div 4" .
  moreover have "\<bar>tdiv (b * f) 100\<bar> = \<bar>b * f\<bar> div 100" if "b * f \<noteq> 0"
    using that by (simp add: tdiv_def abs_mult pos_imp_zdiv_nonneg_iff)
  moreover have "tdiv (b * f) 100 = 0" if "b * f = 0" unfolding that by (simp add: tdiv_def)
  ultimately show ?thesis using assms(1) by (cases "b * f = 0") auto
qed

lemma jittered_bounds:
  assumes "int b * 25 < 2 ^ 63"
  shows "int b - int b div 4 \<le> jittered b buf" "jittered b buf \<le> int b + int b div 4"
proof -
  let ?f = "int (le_val buf mod 51) - 25"
  have f: "\<bar>?f\<bar> \<le> 25" using mod_less_divisor [of 51 "le_val buf"] by simp
  have b: "i64 (int b) = int b" by (rule i64_id) (use assms in simp_all)
  have "\<bar>int b * ?f\<bar> \<le> int b * 25" using f by (simp add: abs_mult mult_left_mono)
  then have m: "i64 (int b * ?f) = int b * ?f" by (intro i64_id) (use assms in linarith)+
  have d: "\<bar>tdiv (int b * ?f) 100\<bar> \<le> int b div 4" by (rule tdiv_bounds [OF _ f]) simp
  then have "i64 (int b + tdiv (int b * ?f) 100) = int b + tdiv (int b * ?f) 100"
    by (intro i64_id) (use assms in linarith)+
  then have "jittered b buf = int b + tdiv (int b * ?f) 100" by (simp add: jittered_def Let_def b m)
  with d show "int b - int b div 4 \<le> jittered b buf" "jittered b buf \<le> int b + int b div 4" by linarith+
qed

lemma next_backoff_ms_run:
  fixes s :: "'c clock_scheme"
  assumes "0 < rp_cap_ms pol" "int (rp_cap_ms pol) * 25 < 2 ^ 63"
    and base_def: "base = backoff_base pol att ra"
  shows "\<exists>r. next_backoff_ms E pol att ra s = (Inr r, s\<lparr>n_rand := n_rand s + 1\<rparr>) \<and> 1 \<le> r \<and>
    r \<le> rp_cap_ms pol \<and> base - base div 4 \<le> r \<and> r \<le> max 1 (base + base div 4)"
proof -
  define buf where "buf = random_bytes E 8 (n_rand s)"
  define j where "j = jittered base buf"
  let ?cap = "int (rp_cap_ms pol)"
  have base: "base \<le> rp_cap_ms pol" by (simp add: base_def backoff_base_def Let_def)
  then have "int base * 25 < 2 ^ 63" using assms(2) by linarith
  from jittered_bounds [OF this, of buf]
  have j: "int base - int base div 4 \<le> j" "j \<le> int base + int base div 4" by (simp_all add: j_def)
  have cap: "i64 ?cap = ?cap" by (rule i64_id) (use assms(2) in simp_all)
  have "as_u64 (max 1 (min ?cap j)) = nat (max 1 (min ?cap j))"
    by (rule as_u64_id) (use assms(1,2) in \<open>simp_all add: max_def min_def\<close>)
  then have "next_backoff_ms E pol att ra s = (Inr (nat (max 1 (min ?cap j))), s\<lparr>n_rand := n_rand s + 1\<rparr>)"
    using assms(1) by (simp add: next_backoff_ms_def bnd_def Let_def ret_def cap j_def buf_def base_def)
  moreover have "int base - int base div 4 \<le> ?cap" using base by linarith
  ultimately show ?thesis
    using j assms(1) by (intro exI [of _ "nat (max 1 (min ?cap j))"]) (auto simp: nat_le_iff le_nat_iff)
qed

lemma next_backoff_keeps [keeps_rules]:
  "state_preorder R \<Longrightarrow> clock_ok R \<Longrightarrow> keeps R (next_backoff_ms E pol att ra)"
  unfolding next_backoff_ms_def Let_def
  by (intro state_preorder.bnd_ok fill_random_keeps keeps_if state_preorder.panic_ok state_preorder.ret_ok)

lemma schedule_retry_keeps [keeps_rules]:
  assumes "state_preorder R" "clock_ok R" "\<And>s x. R s (s\<lparr>f_orders := f_orders s @ [x]\<rparr>)"
    "\<And>s x. R s (s\<lparr>f_retry := f_retry s @ [x]\<rparr>)"
  shows "keeps R (schedule_retry E ord reason pol ra)"
  unfolding schedule_retry_def Let_def seqM_def update_order_def
  by (intro keeps_if state_preorder.bnd_ok [OF assms(1)] state_preorder.ret_ok [OF assms(1)] keeps_rules assms)

lemma schedule_retry_Inr:
  assumes "schedule_retry E ord reason pol ra s = (Inr (ord', b), t)"
  shows "if b then po_attempts ord < rp_max_attempts pol \<and> can_transition (po_status ord) Failed \<and>
      (\<exists>now delay. ord' = ord\<lparr>po_status := Failed, po_updated_at := po_updated_at ord',
          po_next_retry_at := Some (rfc3339 E (now + int delay * 1000000))\<rparr> \<and>
        f_orders t = f_orders s @ [ord'] \<and>
        f_retry t = f_retry s @ [\<lparr>rj_order = po_id ord, rj_attempt = po_attempts ord,
          rj_next_retry_at = rfc3339 E (now + int delay * 1000000), rj_backoff_ms = delay, rj_last_error = reason\<rparr>])
    else rp_max_attempts pol \<le> po_attempts ord \<and> ord' = ord \<and> t = s"
proof (cases "rp_max_attempts pol \<le> po_attempts ord")
  case True
  with assms show ?thesis by (auto simp: schedule_retry_def ret_def)
next
  case False
  then have "\<exists>delay u. next_backoff_ms E pol (po_attempts ord) ra s = (Inr delay :: error exn + nat, u)"
    using assms by (auto simp: schedule_retry_def M_Inr Let_def)
  then obtain delay u where d: "next_backoff_ms E pol (po_attempts ord) ra s = (Inr delay :: error exn + nat, u)" by blast
  then have u: "u = s\<lparr>n_rand := n_rand s + 1\<rparr>"
    by (auto simp: next_backoff_ms_def M_Inr Let_def split: if_splits)
  define dl where "dl = rfc3339 E (env_time E (n_time s) + int delay * 1000000)"
  from False d u assms have "\<exists>x v w. transition E Failed ord (u\<lparr>n_time := Suc (n_time u)\<rparr>) = (Inr x, v) \<and>
      update_order E (x\<lparr>po_next_retry_at := Some dl\<rparr>) v = (Inr (), w) \<and>
      append_retry_job E \<lparr>rj_order = po_id x, rj_attempt = po_attempts x, rj_next_retry_at = dl,
        rj_backoff_ms = delay, rj_last_error = reason\<rparr> w = (Inr (), t) \<and>
      ord' = x\<lparr>po_next_retry_at := Some dl\<rparr> \<and> b"
    by (auto simp: schedule_retry_def M_Inr Let_def dl_def)
  then obtain x v w where x: "transition E Failed ord (u\<lparr>n_time := Suc (n_time u)\<rparr>) = (Inr x, v)"
    and w: "update_order E (x\<lparr>po_next_retry_at := Some dl\<rparr>) v = (Inr (), w)"
    and t: "append_retry_job E \<lparr>rj_order = po_id x, rj_attempt = po_attempts x, rj_next_retry_at = dl,
        rj_backoff_ms = delay, rj_last_error = reason\<rparr> w = (Inr (), t)"
    and o': "ord' = x\<lparr>po_next_retry_at := Some dl\<rparr>" "b"
    by blast
  have x': "can_transition (po_status ord) Failed" "x = ord\<lparr>po_status := Failed, po_updated_at := po_updated_at x\<rparr>"
    "f_orders v = f_orders s" "f_retry v = f_retry s"
    using x u by (auto simp: transition_Inr)
  have w': "f_orders w = f_orders v @ [ord']" "f_retry w = f_retry v"
    using append_jsonl_Inr [OF w [unfolded update_order_def append_order_def]] o'(1) by simp_all
  have t': "f_orders t = f_orders w" "f_retry t = f_retry w @ [\<lparr>rj_order = po_id x, rj_attempt = po_attempts x, rj_next_retry_at = dl,
        rj_backoff_ms = delay, rj_last_error = reason\<rparr>]"
    using append_jsonl_Inr [OF t [unfolded append_retry_job_def]] by simp_all
  have "po_id x = po_id ord" "po_attempts x = po_attempts ord" by (subst x'(2), simp)+
  moreover have "ord' = ord\<lparr>po_status := Failed, po_updated_at := po_updated_at ord', po_next_retry_at := Some dl\<rparr>"
    unfolding o'(1) by (subst x'(2)) simp
  ultimately show ?thesis
    using False o'(2) x'(1,3,4) w' t' dl_def by auto
qed

section \<open>Properties\<close>

text \<open>
  The retry delay is at least one millisecond, never above the cap, and within a
  quarter of the undithered delay (the \<open>Retry-After\<close> hint or the exponential backoff,
  both capped), for every cap between one millisecond and eleven million years. With a
  cap of zero the computation panics instead.
\<close>

theorem backoff_within_cap:
  "(0 < rp_cap_ms pol \<and> int (rp_cap_ms pol) * 25 < 2 ^ 63 \<longrightarrow>
     (\<exists>r. next_backoff_ms E pol att ra s = (Inr r, s\<lparr>n_rand := n_rand s + 1\<rparr>) \<and> 1 \<le> r \<and> r \<le> rp_cap_ms pol \<and>
       backoff_base pol att ra - backoff_base pol att ra div 4 \<le> r \<and>
       r \<le> max 1 (backoff_base pol att ra + backoff_base pol att ra div 4))) \<and>
   (rp_cap_ms pol = 0 \<longrightarrow> next_backoff_ms E pol att ra s = (Inl Panic, s\<lparr>n_rand := n_rand s + 1\<rparr>))"
proof (intro conjI impI)
  assume "0 < rp_cap_ms pol \<and> int (rp_cap_ms pol) * 25 < 2 ^ 63"
  then show "\<exists>r. next_backoff_ms E pol att ra s = (Inr r, s\<lparr>n_rand := n_rand s + 1\<rparr>) \<and> 1 \<le> r \<and> r \<le> rp_cap_ms pol \<and>
       backoff_base pol att ra - backoff_base pol att ra div 4 \<le> r \<and>
       r \<le> max 1 (backoff_base pol att ra + backoff_base pol att ra div 4)"
    using next_backoff_ms_run [OF _ _ refl] by blast
next
  assume "rp_cap_ms pol = 0"
  then show "next_backoff_ms E pol att ra s = (Inl Panic, s\<lparr>n_rand := n_rand s + 1\<rparr>)"
    by (simp add: next_backoff_ms_def bnd_def Let_def i64_def)
qed

theorem backoff_within_cap_witness:
  "\<exists>r. next_backoff_ms example_env retry_policy_default 3 None empty_world =
      (Inr r, empty_world\<lparr>n_rand := n_rand empty_world + 1\<rparr>) \<and> r \<le> 300000 \<and> 3000 \<le> r \<and> r \<le> 5000"
proof -
  have b: "backoff_base retry_policy_default 3 None = 4000"
    by (simp add: backoff_base_def retry_policy_default_def sat_mul_u64_def sat_pow_u64_def u64_max_def)
  have "0 < rp_cap_ms retry_policy_default \<and> int (rp_cap_ms retry_policy_default) * 25 < 2 ^ 63"
    by (simp add: retry_policy_default_def)
  from conjunct1 [OF backoff_within_cap, THEN mp, OF this, of example_env 3 None empty_world, unfolded b]
  show ?thesis by (auto simp: retry_policy_default_def)
qed

end
