(* ===== verification/Http.thy ===== *)
theory Http
  imports Environment Payment_Errors
begin

text \<open>
  The HTTP client of \<open>origin-payments/src/x402.rs\<close>: URLs, the request that is written, the
  loop that reads the response and the parsing of what was read. The network is
  \<open>net_send\<close> of the environment: for the n-th request, an error at one of its stages or
  the chunks that successive reads deliver. The build is the default one, without the
  \<open>tls\<close> feature.
\<close>

section \<open>URLs\<close>

record parsed_url =
  pu_host :: string
  pu_port :: nat
  pu_path :: string
  pu_tls :: bool

definition split_authority :: "string \<Rightarrow> string \<times> string" where
  "split_authority rest = (case split_once (CHR ''/'') rest of
     Some (a, p) \<Rightarrow> (a, CHR ''/'' # p) | None \<Rightarrow> (rest, ''/''))"

definition parse_authority :: "string \<Rightarrow> bool \<Rightarrow> string \<Rightarrow> error + string \<times> nat" where
  "parse_authority url tls authority = (case rsplit_once (CHR '':'') authority of
       Some (h, p) \<Rightarrow> (case parse_unsigned 65535 p of
           None \<Rightarrow> Inl (RailNotConfigured ''http402'' (''bad port in '' @ url))
         | Some port \<Rightarrow> Inr (h, port))
     | None \<Rightarrow> Inr (authority, if tls then 443 else 80))"

definition parse_url :: "string \<Rightarrow> error + parsed_url" where
  "parse_url url =
     (case (case strip_prefix ''https://'' url of Some r \<Rightarrow> Some (r, True)
            | None \<Rightarrow> (case strip_prefix ''http://'' url of Some r \<Rightarrow> Some (r, False) | None \<Rightarrow> None)) of
        None \<Rightarrow> Inl (RailNotConfigured ''http402'' (''unsupported scheme in '' @ url @
          '' (the x402 client speaks http:// and https://)''))
      | Some (rest, tls) \<Rightarrow>
         (case split_authority rest of (authority, path) \<Rightarrow>
         (case parse_authority url tls authority of
            Inl e \<Rightarrow> Inl e
          | Inr (host, port) \<Rightarrow>
              if host = [] then Inl (RailNotConfigured ''http402'' (''empty host in '' @ url))
              else Inr \<lparr>pu_host = host, pu_port = port, pu_path = path, pu_tls = tls\<rparr>)))"

section \<open>Requests\<close>

definition crlf :: string where
  "crlf = [CHR 0x0D, CHR 0x0A]"

definition host_port :: "parsed_url \<Rightarrow> string" where
  "host_port u = pu_host u @ '':'' @ dec (pu_port u)"

definition request_bytes :: "string \<Rightarrow> parsed_url \<Rightarrow> bytes option \<Rightarrow> (string \<times> string) list \<Rightarrow> bytes" where
  "request_bytes method u body extra =
     str_bytes (method @ '' '' @ pu_path u @ '' HTTP/1.1'' @ crlf @ ''Host: '' @ host_port u @ crlf @
       ''User-Agent: origin-payments/x402'' @ crlf @ ''Accept: */*'' @ crlf @
       (case body of None \<Rightarrow> []
        | Some b \<Rightarrow> ''Content-Type: application/json'' @ crlf @ ''Content-Length: '' @ dec (length b) @ crlf) @
       concat (map (\<lambda>(k, v). k @ '': '' @ v @ crlf) extra) @ crlf) @
     (case body of None \<Rightarrow> [] | Some b \<Rightarrow> b)"

section \<open>Responses\<close>

text \<open>The four bytes that end the header block.\<close>

definition header_end_mark :: bytes where
  "header_end_mark = [13, 10, 13, 10]"

fun declared_length :: "string list \<Rightarrow> nat option" where
  "declared_length [] = None"
| "declared_length (line # rest) = (case split_once (CHR '':'') line of
       None \<Rightarrow> declared_length rest
     | Some (k, v) \<Rightarrow>
         if to_ascii_lowercase (trim k) = ''content-length''
         then (case parse_unsigned u64_max (trim v) of Some n \<Rightarrow> Some n | None \<Rightarrow> declared_length rest)
         else declared_length rest)"

definition response_complete :: "env \<Rightarrow> bytes \<Rightarrow> bool" where
  "response_complete E buf = (case find_sub header_end_mark buf of
       None \<Rightarrow> False
     | Some h \<Rightarrow> (case declared_length (str_lines (utf8_lossy E (take h buf))) of
           None \<Rightarrow> True
         | Some n \<Rightarrow> (h + 4 + n) mod 2 ^ 64 \<le> length buf))"

text \<open>One chunk per successful read; an empty one is the end of the stream, and so is the
  end of the list (a time-out or a reset).\<close>

fun read_response :: "env \<Rightarrow> bytes \<Rightarrow> bytes list \<Rightarrow> bytes" where
  "read_response E buf [] = buf"
| "read_response E buf (c # cs) =
     (if c = [] then buf
      else if response_complete E (buf @ c) then buf @ c
      else read_response E (buf @ c) cs)"

text \<open>Headers in arrival order; a later header replaces an earlier one of the same name.\<close>

type_synonym http_response = "nat \<times> (string \<times> string) list \<times> bytes"

definition header :: "string \<Rightarrow> (string \<times> string) list \<Rightarrow> string option" where
  "header k hs = map_option snd (find_last (\<lambda>kv. fst kv = k) hs)"

fun parse_headers :: "string list \<Rightarrow> (string \<times> string) list" where
  "parse_headers [] = []"
| "parse_headers (line # rest) = (case split_once (CHR '':'') line of
       None \<Rightarrow> parse_headers rest
     | Some (k, v) \<Rightarrow> (to_ascii_lowercase (trim k), trim v) # parse_headers rest)"

definition parse_status :: "string \<Rightarrow> nat option" where
  "parse_status line = (let ws = split_whitespace line in
     if 1 < length ws then parse_unsigned 65535 (ws ! 1) else None)"

definition parse_http_response :: "env \<Rightarrow> bytes \<Rightarrow> error + http_response" where
  "parse_http_response E buf = (case find_sub header_end_mark buf of
       None \<Rightarrow> Inl (RailUnavailable ''http402'' ''incomplete HTTP response (no header terminator)'')
     | Some h \<Rightarrow> (case str_lines (utf8_lossy E (take h buf)) of
           [] \<Rightarrow> Inl (RailUnavailable ''http402'' ''empty HTTP response'')
         | status_line # rest \<Rightarrow> (case parse_status status_line of
               None \<Rightarrow> Inl (RailUnavailable ''http402'' (''malformed status line: '' @ status_line))
             | Some status \<Rightarrow> Inr (status, parse_headers rest, drop (h + 4) buf))))"

section \<open>The request as a whole\<close>

definition next_net :: "env \<Rightarrow> string \<Rightarrow> bool \<Rightarrow> bytes \<Rightarrow> ('c clock_scheme, 'f, net_reply) M" where
  "next_net E addr tls req = (\<lambda>s. (Inr (net_send E (n_net s) addr tls req), s\<lparr>n_net := n_net s + 1\<rparr>))"

text \<open>\<open>https\<close> is refused once connected, before anything is sent.\<close>

definition tls_refused :: "parsed_url \<Rightarrow> error" where
  "tls_refused u = RailUnavailable ''http402'' (''https://'' @ pu_host u @
     '' requires the `tls` feature (origin-payments --features tls)'')"

definition http_request ::
  "env \<Rightarrow> string \<Rightarrow> string \<Rightarrow> bytes option \<Rightarrow> (string \<times> string) list \<Rightarrow> string \<Rightarrow>
   ('c clock_scheme, error, http_response) M" where
  "http_request E method url body extra rail =
     bnd (result (parse_url url)) (\<lambda>u.
     let addr = host_port u in
     bnd (next_net E addr (pu_tls u) (if pu_tls u then [] else request_bytes method u body extra)) (\<lambda>reply.
     case reply of
       ConnectErr e \<Rightarrow> fail (RailUnavailable rail (''connecting '' @ addr @ '': '' @ e))
     | TimeoutErr e \<Rightarrow> fail (IoError (''setting read timeout: '' @ e))
     | SendErr e \<Rightarrow>
         if pu_tls u then fail (tls_refused u)
         else fail (RailUnavailable ''http402'' (''sending request to '' @ addr @ '': '' @ e))
     | Received chunks \<Rightarrow>
         if pu_tls u then fail (tls_refused u)
         else result (parse_http_response E (read_response E [] chunks))))"

definition http_get :: "env \<Rightarrow> string \<Rightarrow> (string \<times> string) list \<Rightarrow> string \<Rightarrow> ('c clock_scheme, error, http_response) M" where
  "http_get E url extra rail = http_request E ''GET'' url None extra rail"

definition http_post :: "env \<Rightarrow> string \<Rightarrow> bytes \<Rightarrow> (string \<times> string) list \<Rightarrow> string \<Rightarrow> ('c clock_scheme, error, http_response) M" where
  "http_post E url body extra rail = http_request E ''POST'' url (Some body) extra rail"

section \<open>What a request does to the state\<close>

lemma next_net_run [simp]:
  "next_net E addr tls req s = (Inr (net_send E (n_net s) addr tls req), s\<lparr>n_net := n_net s + 1\<rparr>)"
  by (simp add: next_net_def)

lemma next_net_keeps [keeps_rules]: "clock_ok R \<Longrightarrow> keeps R (next_net E addr tls req)"
  by (simp add: keeps_def clock_ok_def)

lemma keeps_reply [keeps_rules]:
  "(\<And>e. keeps R (f e)) \<Longrightarrow> (\<And>e. keeps R (g e)) \<Longrightarrow> (\<And>e. keeps R (h e)) \<Longrightarrow> (\<And>c. keeps R (k c)) \<Longrightarrow>
   keeps R (case z of ConnectErr e \<Rightarrow> f e | TimeoutErr e \<Rightarrow> g e | SendErr e \<Rightarrow> h e | Received c \<Rightarrow> k c)"
  by (cases z) auto

lemma http_request_keeps [keeps_rules]:
  assumes "state_preorder R" "clock_ok R"
  shows "keeps R (http_request E meth url body extra rail)"
  unfolding http_request_def Let_def
  by (intro state_preorder.bnd_ok [OF assms(1)] state_preorder.result_ok [OF assms(1)] keeps_reply keeps_if
      state_preorder.fail_ok [OF assms(1)] next_net_keeps assms)

lemma http_get_keeps [keeps_rules]:
  "state_preorder R \<Longrightarrow> clock_ok R \<Longrightarrow> keeps R (http_get E url extra rail)"
  unfolding http_get_def by (rule http_request_keeps)

lemma http_post_keeps [keeps_rules]:
  "state_preorder R \<Longrightarrow> clock_ok R \<Longrightarrow> keeps R (http_post E url body extra rail)"
  unfolding http_post_def by (rule http_request_keeps)

section \<open>Reading a response in pieces\<close>

lemma find_sub_prefix:
  assumes "msg = buf @ r" "find_sub p msg = Some h" "find_sub p buf = Some k"
  shows "k = h"
proof -
  from find_sub_Some [OF assms(3)] have k: "k + length p \<le> length buf" "take (length p) (drop k buf) = p" by auto
  then have "take (length p) (drop k msg) = p" using assms(1) by simp
  with find_sub_occurs obtain i where "i \<le> k" "find_sub p msg = Some i" by blast
  then have hk: "h \<le> k" using assms(2) by simp
  moreover have "take (length p) (drop h buf) = p"
  proof -
    have "take (length p) (drop h msg) = p" using find_sub_Some [OF assms(2)] by simp
    then show ?thesis using assms(1) hk k(1) by simp
  qed
  ultimately show "k = h" using find_sub_least [OF assms(3), of h] by fastforce
qed

definition delimited :: "env \<Rightarrow> bytes \<Rightarrow> bool" where
  "delimited E msg \<longleftrightarrow> (case find_sub header_end_mark msg of None \<Rightarrow> False
     | Some h \<Rightarrow> declared_length (str_lines (utf8_lossy E (take h msg))) = Some (length msg - (h + 4)) \<and>
         length msg < 2 ^ 64)"

lemma complete_prefix:
  assumes "delimited E msg" "msg = buf @ r"
  shows "response_complete E buf \<longleftrightarrow> buf = msg"
proof -
  from assms(1) obtain h where h: "find_sub header_end_mark msg = Some h"
    "declared_length (str_lines (utf8_lossy E (take h msg))) = Some (length msg - (h + 4))" "length msg < 2 ^ 64"
    by (auto simp: delimited_def split: option.splits)
  have l: "h + 4 \<le> length msg" using find_sub_Some [OF h(1)] by (simp add: header_end_mark_def)
  show ?thesis
  proof (cases "find_sub header_end_mark buf")
    case None
    with h(1) show ?thesis by (auto simp: response_complete_def)
  next
    case (Some k)
    have k: "k = h" by (rule find_sub_prefix [OF assms(2) h(1) Some])
    then have "h + 4 \<le> length buf" using find_sub_Some [OF Some] by (simp add: header_end_mark_def)
    then have t: "take h buf = take h msg" using assms(2) by simp
    have "(h + 4 + (length msg - (h + 4))) mod 2 ^ 64 = length msg" using l h(3) by simp
    then have "response_complete E buf \<longleftrightarrow> length msg \<le> length buf"
      using Some k h(2) t by (simp add: response_complete_def)
    then show ?thesis using assms(2) by auto
  qed
qed

lemma read_response_delimited:
  assumes "delimited E msg" "msg = buf @ concat cs" "[] \<notin> set cs"
  shows "read_response E buf cs = msg"
  using assms(2,3)
proof (induction cs arbitrary: buf)
  case (Cons c cs)
  have "response_complete E (buf @ c) \<longleftrightarrow> buf @ c = msg"
    by (rule complete_prefix [OF assms(1)]) (use Cons.prems in simp)
  with Cons show ?case by auto
qed simp

section \<open>Properties\<close>

text \<open>
  A URL is taken apart into the parts it was built from: scheme, host, port and path,
  with \<open>/\<close> for an absent path. The host may contain colons, not slashes.
\<close>

theorem parse_url_parts:
  assumes "host \<noteq> []" "CHR ''/'' \<notin> set host" "port \<le> 65535" "path = [] \<or> hd path = CHR ''/''"
  shows "parse_url ((if tls then ''https://'' else ''http://'') @ host @ '':'' @ dec port @ path) =
    Inr \<lparr>pu_host = host, pu_port = port, pu_path = (if path = [] then ''/'' else path), pu_tls = tls\<rparr>"
proof -
  have nd: "\<not> is_digit (CHR ''/'')" "\<not> is_digit (CHR '':'')" by (simp_all add: is_digit_def)
  define auth where "auth = host @ '':'' @ dec port"
  have slash: "CHR ''/'' \<notin> set auth" using assms(2) dec_no_char [OF nd(1)] by (simp add: auth_def)
  define rest where "rest = auth @ path"
  have sp: "split_authority rest = (auth, if path = [] then ''/'' else path)"
  proof (cases path)
    case Nil
    then have "split_once (CHR ''/'') auth = None" using slash by (simp add: split_once_None)
    with Nil show ?thesis by (simp add: split_authority_def rest_def)
  next
    case (Cons c p)
    then have "split_once (CHR ''/'') (auth @ path) = Some (auth, p)" using slash assms(4) by (simp add: split_once_Some)
    with Cons assms(4) show ?thesis by (simp add: split_authority_def rest_def)
  qed
  have "rsplit_once (CHR '':'') auth = Some (host, dec port)"
    using dec_no_char [OF nd(2)] by (simp add: rsplit_once_Some auth_def)
  then have pa: "parse_authority url b auth = Inr (host, port)" for url b
    by (simp add: parse_authority_def parse_unsigned_dec assms(3))
  have "strip_prefix ''https://'' (''http://'' @ z) = None" for z by (simp add: strip_prefix_def)
  then have "parse_url ((if tls then ''https://'' else ''http://'') @ rest) =
    Inr \<lparr>pu_host = host, pu_port = port, pu_path = (if path = [] then ''/'' else path), pu_tls = tls\<rparr>"
    unfolding parse_url_def using assms(1) by (auto simp: sp pa simp del: append.simps)
  then show ?thesis by (simp add: auth_def rest_def)
qed

theorem parse_url_parts_witness:
  "parse_url ((if False then ''https://'' else ''http://'') @ ''pay.example'' @ '':'' @ dec 8080 @ ''/r/1'') =
    Inr \<lparr>pu_host = ''pay.example'', pu_port = 8080, pu_path = (if ''/r/1'' = [] then ''/'' else ''/r/1''), pu_tls = False\<rparr>"
  by (rule parse_url_parts) simp_all

text \<open>
  However the network cuts a response into reads, the client reassembles it: when the
  header block declares the length of the body, the bytes read are exactly the message,
  and the body handed to the caller is complete.
\<close>

theorem response_reassembled:
  assumes "delimited E msg" "concat chunks = msg" "[] \<notin> set chunks"
  shows "read_response E [] chunks = msg \<and> (case parse_http_response E (read_response E [] chunks) of
     Inr (status, headers, body) \<Rightarrow> \<exists>head. msg = head @ header_end_mark @ body | Inl e \<Rightarrow> True)"
proof
  show r: "read_response E [] chunks = msg"
    using read_response_delimited [OF assms(1), of "[]" chunks] assms(2,3) by simp
  show "case parse_http_response E (read_response E [] chunks) of
     Inr (status, headers, body) \<Rightarrow> \<exists>head. msg = head @ header_end_mark @ body | Inl e \<Rightarrow> True"
  proof (cases "find_sub header_end_mark msg")
    case (Some h)
    then have "take (length header_end_mark) (drop h msg) = header_end_mark" using find_sub_Some by blast
    moreover have "length header_end_mark = 4" by (simp add: header_end_mark_def)
    ultimately have "msg = take h msg @ header_end_mark @ drop (h + 4) msg"
      by (metis append_take_drop_id drop_drop add.commute)
    then have "\<exists>head. msg = head @ header_end_mark @ drop (h + 4) msg" by blast
    with Some r show ?thesis by (auto simp: parse_http_response_def split: list.splits option.splits)
  qed (simp add: r parse_http_response_def)
qed

definition example_response :: bytes where
  "example_response = str_bytes (''HTTP/1.1 200 OK'' @ crlf @ ''Content-Length: 2'' @ crlf @ crlf @ ''ok'')"

lemma utf8_lossy_example [simp]: "utf8_lossy example_env (str_bytes s) = s"
  by (induction s) (simp_all add: example_env_def str_bytes_def unat_of_nat)

lemma example_response_delimited: "delimited example_env example_response"
proof -
  have h: "find_sub header_end_mark example_response = Some 34" by code_simp
  have "take 34 example_response = str_bytes (''HTTP/1.1 200 OK'' @ crlf @ ''Content-Length: 2'')"
    by (simp add: example_response_def str_bytes_def crlf_def)
  moreover have "str_lines (''HTTP/1.1 200 OK'' @ crlf @ ''Content-Length: 2'') = [''HTTP/1.1 200 OK'', ''Content-Length: 2'']"
    by code_simp
  ultimately have l: "str_lines (utf8_lossy example_env (take 34 example_response)) = [''HTTP/1.1 200 OK'', ''Content-Length: 2'']"
    by simp
  have "length example_response = 40" by (simp add: example_response_def str_bytes_def crlf_def)
  moreover have "split_once (CHR '':'') ''HTTP/1.1 200 OK'' = None"
    "split_once (CHR '':'') ''Content-Length: 2'' = Some (''Content-Length'', '' 2'')"
    "to_ascii_lowercase (trim ''Content-Length'') = ''content-length''" "trim '' 2'' = dec 2" by code_simp+
  moreover have "parse_unsigned u64_max (dec 2) = Some 2" by (rule parse_unsigned_dec) (simp add: u64_max_def)
  ultimately have "length example_response = 40"
    "declared_length (str_lines (utf8_lossy example_env (take 34 example_response))) = Some 2"
    by (simp_all add: l del: dec.simps)
  then show ?thesis by (simp add: delimited_def h l)
qed

theorem response_reassembled_witness:
  "read_response example_env [] [take 10 example_response, drop 10 example_response] = example_response"
proof -
  have "concat [take 10 example_response, drop 10 example_response] = example_response" by simp
  moreover have "[] \<notin> set [take 10 example_response, drop 10 example_response]" by code_simp
  ultimately show ?thesis using response_reassembled [OF example_response_delimited] by blast
qed

text \<open>
  Without a \<open>Content-Length\<close> the client stops at the first read that contains the whole
  header block: whatever the server sends after that read is dropped, although the
  connection is still open.
\<close>

theorem undelimited_body_cut:
  assumes "find_sub header_end_mark c = Some h" "declared_length (str_lines (utf8_lossy E (take h c))) = None"
  shows "read_response E [] (c # later) = c"
proof -
  have "c \<noteq> []" using assms(1) by (auto simp: header_end_mark_def)
  then show ?thesis using assms by (simp add: response_complete_def)
qed

theorem undelimited_body_cut_witness:
  "read_response example_env []
     (str_bytes (''HTTP/1.1 200 OK'' @ crlf @ crlf @ ''{'') # [str_bytes ''}'']) =
   str_bytes (''HTTP/1.1 200 OK'' @ crlf @ crlf @ ''{'')"
proof (rule undelimited_body_cut)
  show "find_sub header_end_mark (str_bytes (''HTTP/1.1 200 OK'' @ crlf @ crlf @ ''{'')) = Some 15" by code_simp
  have "take 15 (str_bytes (''HTTP/1.1 200 OK'' @ crlf @ crlf @ ''{'')) = str_bytes ''HTTP/1.1 200 OK''"
    by (simp add: str_bytes_def crlf_def)
  moreover have "declared_length (str_lines ''HTTP/1.1 200 OK'') = None" by code_simp
  ultimately show "declared_length (str_lines (utf8_lossy example_env (take 15 (str_bytes (''HTTP/1.1 200 OK'' @ crlf @ crlf @ ''{''))))) = None"
    by simp
qed

end
