(* ===== verification/X402.thy ===== *)
theory X402
  imports Orders Http "HOL-Library.Countable"
begin

text \<open>
  \<open>origin-payments/src/x402.rs\<close>: the x402 rail. Payment requirements and signed payloads
  with their JSON form, signing and offline verification, the two-request handshake and
  the facilitator's \<open>verify\<close> and \<open>settle\<close> calls. The HTTP client below them is in \<open>Http\<close>.
\<close>

section \<open>Messages\<close>

record facilitator_config =
  fc_url :: string
  fc_api_key :: string

datatype verify_verdict = VAccept | VReject string

datatype facilitator_outcome =
    FSettled bytes
  | FPending "string option" "nat option"
  | FRejected string "nat option"

record payment_option =
  opt_scheme :: string
  opt_network :: string
  opt_pay_to :: string
  opt_amount :: string
  opt_max_timeout_secs :: "nat option"
  opt_payment_details :: json

record payment_requirements =
  rq_accepts :: "payment_option list"

datatype x402_status = XSuccess | XPending "string option" | XFailed "string option"

record x402_outcome =
  xo_status :: x402_status
  xo_receipt :: bytes

record payment_authorization =
  au_from :: string
  au_to :: string
  au_value :: string
  au_valid_after :: string
  au_valid_before :: string
  au_nonce :: string
  au_scheme :: string

record payment_signer_keys =
  sk_ed25519 :: string
  sk_falcon1024 :: string
  sk_domain :: string

record payment_resource =
  rs_url :: string
  rs_description :: string

record signed_authorization =
  sa_authorization :: payment_authorization
  sa_signature :: string
  sa_signer :: payment_signer_keys

record payment_payload =
  pp_version :: nat
  pp_resource :: payment_resource
  pp_accepted :: payment_option
  pp_payload :: signed_authorization

definition SCHEME_ORIGIN_HYBRID :: string where
  "SCHEME_ORIGIN_HYBRID = ''origin-hybrid-v1''"

definition PAYMENT_REQUIRED :: string where
  "PAYMENT_REQUIRED = ''payment-required''"

definition PAYMENT_SIGNATURE :: string where
  "PAYMENT_SIGNATURE = ''payment-signature''"

definition PAYMENT_RESPONSE :: string where
  "PAYMENT_RESPONSE = ''payment-response''"

section \<open>JSON forms\<close>

text \<open>
  What the derived serializers write. \<open>rename_all = "camelCase"\<close> turns \<open>max_timeout_secs\<close>
  into \<open>maxTimeoutSecs\<close>.
\<close>

definition option_json :: "payment_option \<Rightarrow> json" where
  "option_json p = JObj [(''scheme'', JStr (opt_scheme p)), (''network'', JStr (opt_network p)),
     (''payTo'', JStr (opt_pay_to p)), (''amount'', JStr (opt_amount p)),
     (''maxTimeoutSecs'', JOpt (\<lambda>n. JNum (int n)) (opt_max_timeout_secs p)),
     (''paymentDetails'', opt_payment_details p)]"

definition requirements_json :: "payment_requirements \<Rightarrow> json" where
  "requirements_json r = JObj [(''accepts'', JArr (map option_json (rq_accepts r)))]"

definition authorization_json :: "payment_authorization \<Rightarrow> json" where
  "authorization_json a = JObj [(''from'', JStr (au_from a)), (''to'', JStr (au_to a)), (''value'', JStr (au_value a)),
     (''valid_after'', JStr (au_valid_after a)), (''valid_before'', JStr (au_valid_before a)),
     (''nonce'', JStr (au_nonce a)), (''scheme'', JStr (au_scheme a))]"

definition signer_keys_json :: "payment_signer_keys \<Rightarrow> json" where
  "signer_keys_json k = JObj [(''ed25519'', JStr (sk_ed25519 k)), (''falcon1024'', JStr (sk_falcon1024 k)),
     (''domain'', JStr (sk_domain k))]"

definition payload_json :: "payment_payload \<Rightarrow> json" where
  "payload_json p = JObj [(''x402_version'', JNum (int (pp_version p))),
     (''resource'', JObj [(''url'', JStr (rs_url (pp_resource p))),
        (''description'', JStr (rs_description (pp_resource p)))]),
     (''accepted'', option_json (pp_accepted p)),
     (''payload'', JObj [(''authorization'', authorization_json (sa_authorization (pp_payload p))),
        (''signature'', JStr (sa_signature (pp_payload p))),
        (''signer'', signer_keys_json (sa_signer (pp_payload p)))])]"

definition read_option :: "json \<Rightarrow> payment_option option" where
  "read_option j =
     (case struct_values [''scheme'', ''network'', ''payTo'', ''amount'', ''maxTimeoutSecs'', ''paymentDetails''] j of
        Some [s, n, p, a, m, d] \<Rightarrow>
          (case (str_field s, str_field n, str_field p, str_field a, opt_u64 m) of
             (Some s', Some n', Some p', Some a', Some m') \<Rightarrow>
               Some \<lparr>opt_scheme = s', opt_network = n', opt_pay_to = p', opt_amount = a',
                 opt_max_timeout_secs = m', opt_payment_details = (case d of None \<Rightarrow> JNull | Some v \<Rightarrow> v)\<rparr>
           | _ \<Rightarrow> None)
      | _ \<Rightarrow> None)"

definition read_requirements :: "json \<Rightarrow> payment_requirements option" where
  "read_requirements j = (case struct_values [''accepts''] j of
       Some [Some (JArr os)] \<Rightarrow> map_option (\<lambda>opts. \<lparr>rq_accepts = opts\<rparr>) (those (map read_option os))
     | _ \<Rightarrow> None)"

definition read_authorization :: "json \<Rightarrow> payment_authorization option" where
  "read_authorization j =
     (case struct_values [''from'', ''to'', ''value'', ''valid_after'', ''valid_before'', ''nonce'', ''scheme''] j of
        Some vs \<Rightarrow> (case those (map str_field vs) of
            Some [f, t, v, va, vb, n, s] \<Rightarrow>
              Some \<lparr>au_from = f, au_to = t, au_value = v, au_valid_after = va, au_valid_before = vb,
                au_nonce = n, au_scheme = s\<rparr>
          | _ \<Rightarrow> None)
      | None \<Rightarrow> None)"

definition read_signer_keys :: "json \<Rightarrow> payment_signer_keys option" where
  "read_signer_keys j = (case struct_values [''ed25519'', ''falcon1024'', ''domain''] j of
       Some vs \<Rightarrow> (case those (map str_field vs) of
           Some [e, f, d] \<Rightarrow> Some \<lparr>sk_ed25519 = e, sk_falcon1024 = f, sk_domain = d\<rparr>
         | _ \<Rightarrow> None)
     | None \<Rightarrow> None)"

definition read_resource :: "json \<Rightarrow> payment_resource option" where
  "read_resource j = (case struct_values [''url'', ''description''] j of
       Some [u, d] \<Rightarrow> (case (str_field u, str_default d) of
           (Some u', Some d') \<Rightarrow> Some \<lparr>rs_url = u', rs_description = d'\<rparr> | _ \<Rightarrow> None)
     | _ \<Rightarrow> None)"

definition read_signed :: "json \<Rightarrow> signed_authorization option" where
  "read_signed j = (case struct_values [''authorization'', ''signature'', ''signer''] j of
       Some [Some a, s, Some k] \<Rightarrow> (case (read_authorization a, str_field s, read_signer_keys k) of
           (Some a', Some s', Some k') \<Rightarrow>
             Some \<lparr>sa_authorization = a', sa_signature = s', sa_signer = k'\<rparr>
         | _ \<Rightarrow> None)
     | _ \<Rightarrow> None)"

definition read_payload :: "json \<Rightarrow> payment_payload option" where
  "read_payload j = (case struct_values [''x402_version'', ''resource'', ''accepted'', ''payload''] j of
       Some [Some v, Some r, Some a, Some p] \<Rightarrow>
         (case (as_unsigned 255 v, read_resource r, read_option a, read_signed p) of
            (Some v', Some r', Some a', Some p') \<Rightarrow>
              Some \<lparr>pp_version = v', pp_resource = r', pp_accepted = a', pp_payload = p'\<rparr>
          | _ \<Rightarrow> None)
     | _ \<Rightarrow> None)"

text \<open>\<open>serde_json::from_slice\<close> at a struct type.\<close>

definition from_slice :: "env \<Rightarrow> string \<Rightarrow> (json \<Rightarrow> 'a option) \<Rightarrow> bytes \<Rightarrow> string + 'a" where
  "from_slice E ty rd b = (case json_from_slice E b of
       Inl e \<Rightarrow> Inl e
     | Inr j \<Rightarrow> (case rd j of None \<Rightarrow> Inl (serde_error E ty j) | Some x \<Rightarrow> Inr x))"

section \<open>Signing\<close>

definition authorization_canonical :: "env \<Rightarrow> payment_authorization \<Rightarrow> string \<Rightarrow> payment_signer_keys \<Rightarrow> bytes" where
  "authorization_canonical E auth url signer = json_to_vec E (JArr (map JStr
     [au_from auth, au_to auth, au_value auth, au_valid_after auth, au_valid_before auth, au_nonce auth,
      au_scheme auth, url, sk_ed25519 signer, sk_falcon1024 signer, sk_domain signer]))"

datatype payment_signer = HybridSigner operator_keys | StubSigner

definition keys_of :: "operator_keys \<Rightarrow> payment_signer_keys" where
  "keys_of K = \<lparr>sk_ed25519 = hex_encode (ok_ed_pk K), sk_falcon1024 = hex_encode (ok_falcon_pk K),
     sk_domain = PAYMENTS_DOMAIN\<rparr>"

definition authorize_option :: "operator_keys \<Rightarrow> payment_option \<Rightarrow> int \<Rightarrow> bytes \<Rightarrow> payment_authorization" where
  "authorize_option K accepted t nonce =
     (let now = t div 1000000000;
          max_timeout = i64 (int (max 1 (case opt_max_timeout_secs accepted of Some n \<Rightarrow> n | None \<Rightarrow> 300)))
      in \<lparr>au_from = sk_ed25519 (keys_of K), au_to = opt_pay_to accepted, au_value = opt_amount accepted,
          au_valid_after = dec_int now, au_valid_before = dec_int (i64 (now + max_timeout)),
          au_nonce = hex_encode nonce, au_scheme = SCHEME_ORIGIN_HYBRID\<rparr>)"

definition mk_payload :: "string \<Rightarrow> payment_option \<Rightarrow> signed_authorization \<Rightarrow> payment_payload" where
  "mk_payload url accepted sa = \<lparr>pp_version = 2, pp_resource = \<lparr>rs_url = url, rs_description = []\<rparr>,
     pp_accepted = accepted, pp_payload = sa\<rparr>"

definition hybrid_sign :: "env \<Rightarrow> operator_keys \<Rightarrow> payment_requirements \<Rightarrow> string \<Rightarrow> ('c clock_scheme, error, bytes) M" where
  "hybrid_sign E K req url =
     bnd (ok_or (case rq_accepts req of [] \<Rightarrow> None | p # ps \<Rightarrow> Some p)
       (CryptoError ''cannot sign: no acceptable payment option'')) (\<lambda>accepted.
     bnd (utc_now E) (\<lambda>t. bnd (fill_random E 32) (\<lambda>nonce.
     let auth = authorize_option K accepted t nonce in
     bnd (result (case sign_hybrid E (ok_secret K) (authorization_canonical E auth url (keys_of K)) of
         Inl e \<Rightarrow> Inl (CryptoError (''x402 signing: '' @ e)) | Inr sig \<Rightarrow> Inr sig)) (\<lambda>sig.
     ret (json_to_vec E (payload_json (mk_payload url accepted
       \<lparr>sa_authorization = auth, sa_signature = hex_encode sig, sa_signer = keys_of K\<rparr>)))))))"

text \<open>The development signer: right shape, no valid signature.\<close>

definition stub_sign :: "env \<Rightarrow> payment_requirements \<Rightarrow> string \<Rightarrow> bytes" where
  "stub_sign E req url =
     (let accepted = (case rq_accepts req of p # ps \<Rightarrow> p
        | [] \<Rightarrow> \<lparr>opt_scheme = ''exact'', opt_network = [], opt_pay_to = [], opt_amount = [],
                opt_max_timeout_secs = None, opt_payment_details = JNull\<rparr>)
      in json_to_vec E (payload_json (mk_payload url accepted
        \<lparr>sa_authorization = \<lparr>au_from = [], au_to = [], au_value = [], au_valid_after = [], au_valid_before = [],
            au_nonce = replicate 64 (CHR ''0''), au_scheme = SCHEME_ORIGIN_HYBRID\<rparr>,
         sa_signature = [],
         sa_signer = \<lparr>sk_ed25519 = hex_encode (replicate 32 0), sk_falcon1024 = hex_encode (replicate 1793 0),
           sk_domain = PAYMENTS_DOMAIN\<rparr>\<rparr>)))"

definition sign_payment :: "env \<Rightarrow> payment_signer \<Rightarrow> payment_requirements \<Rightarrow> string \<Rightarrow> ('c clock_scheme, error, bytes) M" where
  "sign_payment E signer req url = (case signer of
     HybridSigner K \<Rightarrow> hybrid_sign E K req url | StubSigner \<Rightarrow> ret (stub_sign E req url))"

section \<open>Verification\<close>

definition verify_authorization :: "env \<Rightarrow> signed_authorization \<Rightarrow> string \<Rightarrow> bool" where
  "verify_authorization E sa url =
     (case (hex_decode (sa_signature sa), hex_decode (sk_ed25519 (sa_signer sa)), hex_decode (sk_falcon1024 (sa_signer sa))) of
        (Some sig, Some ed, Some falcon) \<Rightarrow>
          length ed = 32 \<and>
          verify_hybrid E sig ed falcon (authorization_canonical E (sa_authorization sa) url (sa_signer sa)) = Inr True
      | _ \<Rightarrow> False)"

definition verify_payment_payload :: "env \<Rightarrow> bytes \<Rightarrow> string \<Rightarrow> error + bool" where
  "verify_payment_payload E b url = (case from_slice E ''PaymentPayload'' read_payload b of
       Inl e \<Rightarrow> Inl (CryptoError (''parsing payment payload: '' @ e))
     | Inr p \<Rightarrow> Inr (pp_version p = 2 \<and> rs_url (pp_resource p) = url \<and>
         au_scheme (sa_authorization (pp_payload p)) = SCHEME_ORIGIN_HYBRID \<and>
         verify_authorization E (pp_payload p) url))"

definition verify_signed_payload :: "env \<Rightarrow> bytes \<Rightarrow> string \<Rightarrow> string option \<Rightarrow> verify_verdict" where
  "verify_signed_payload E b url expected_amount = (case verify_payment_payload E b url of
       Inr True \<Rightarrow> (case from_slice E ''PaymentPayload'' read_payload b of
           Inr p \<Rightarrow> (case expected_amount of
               Some amt \<Rightarrow>
                 if au_value (sa_authorization (pp_payload p)) \<noteq> amt
                 then VReject (''authorization value '' @ au_value (sa_authorization (pp_payload p)) @
                   '' != declared '' @ amt)
                 else VAccept
             | None \<Rightarrow> VAccept)
         | Inl e \<Rightarrow> VReject (''malformed payload: '' @ e))
     | Inr False \<Rightarrow> VReject ''hybrid signature invalid or resource mismatch''
     | Inl e \<Rightarrow> VReject (error_to_string e))"

section \<open>The handshake\<close>

definition b64_decode :: "env \<Rightarrow> string \<Rightarrow> error + bytes" where
  "b64_decode E s = (case base64_decode E (trim s) of
     Inl e \<Rightarrow> Inl (CryptoError (''decoding base64 header: '' @ e)) | Inr b \<Rightarrow> Inr b)"

definition parse_requirements :: "env \<Rightarrow> string \<Rightarrow> error + payment_requirements" where
  "parse_requirements E raw = (case b64_decode E raw of
       Inl e \<Rightarrow> Inl e
     | Inr b \<Rightarrow> (case from_slice E ''PaymentRequirements'' read_requirements b of
           Inl e \<Rightarrow> Inl (CryptoError (''parsing base64 JSON header: '' @ e)) | Inr r \<Rightarrow> Inr r))"

record settlement_response =
  sr_status :: string
  sr_transaction :: "string option"
  sr_error :: "string option"

definition read_settlement :: "json \<Rightarrow> settlement_response option" where
  "read_settlement j = (case struct_values [''status'', ''transaction'', ''error''] j of
       Some [s, t, e] \<Rightarrow> (case (str_field s, opt_str t, opt_str e) of
           (Some s', Some t', Some e') \<Rightarrow> Some \<lparr>sr_status = s', sr_transaction = t', sr_error = e'\<rparr>
         | _ \<Rightarrow> None)
     | _ \<Rightarrow> None)"

definition x402_status_of :: "settlement_response \<Rightarrow> x402_status" where
  "x402_status_of r =
     (if sr_status r = ''success'' then XSuccess
      else if sr_status r = ''settlement_pending'' then XPending (sr_transaction r)
      else XFailed (case sr_error r of Some e \<Rightarrow> Some e | None \<Rightarrow> Some (sr_status r)))"

definition x402_execute :: "env \<Rightarrow> string \<Rightarrow> payment_signer \<Rightarrow> ('c clock_scheme, error, x402_outcome) M" where
  "x402_execute E url signer =
     bnd (http_get E url [] ''http402'') (\<lambda>(status, headers, body).
     seqM (guard (status = 402) (RailNotConfigured ''http402''
       (''expected 402 Payment Required, got HTTP '' @ dec status)))
     (bnd (ok_or (header PAYMENT_REQUIRED headers)
       (RailNotConfigured ''http402'' ''402 response missing PAYMENT-REQUIRED header'')) (\<lambda>raw.
     bnd (result (parse_requirements E raw)) (\<lambda>req.
     seqM (guard (rq_accepts req \<noteq> []) (RailNotConfigured ''http402''
       ''PAYMENT-REQUIRED lists no acceptable payment options''))
     (bnd (sign_payment E signer req url) (\<lambda>payload.
     bnd (http_get E url [(PAYMENT_SIGNATURE, base64 E payload)] ''http402'') (\<lambda>(status, headers, body).
     case header PAYMENT_RESPONSE headers of
       None \<Rightarrow> ret \<lparr>xo_status = XFailed (Some (''server rejected the payment (HTTP '' @ dec status @ '')'')),
         xo_receipt = []\<rparr>
     | Some raw \<Rightarrow>
         bnd (result (b64_decode E raw)) (\<lambda>receipt.
         bnd (result (case from_slice E ''SettlementResponse'' read_settlement receipt of
             Inl e \<Rightarrow> Inl (CryptoError (''parsing PAYMENT-RESPONSE: '' @ e)) | Inr r \<Rightarrow> Inr r)) (\<lambda>resp.
         ret \<lparr>xo_status = x402_status_of resp, xo_receipt = receipt\<rparr>)))))))))"

section \<open>The facilitator\<close>

definition api_key_headers :: "facilitator_config \<Rightarrow> (string \<times> string) list" where
  "api_key_headers cfg = (if fc_api_key cfg = [] then [] else [(''x-api-key'', fc_api_key cfg)])"

definition facilitator_body :: "env \<Rightarrow> bytes \<Rightarrow> payment_requirements \<Rightarrow> string \<Rightarrow> error + bytes" where
  "facilitator_body E payload req url = (case json_from_slice E payload of
       Inl e \<Rightarrow> Inl (CryptoError (''payload not JSON: '' @ e))
     | Inr v \<Rightarrow> Inr (json_to_vec E (JObj [(''x402Version'', JNum 2), (''paymentPayload'', v),
         (''paymentRequirements'', requirements_json req), (''resourceUrl'', JStr url)])))"

definition facilitator_verify ::
  "env \<Rightarrow> facilitator_config \<Rightarrow> bytes \<Rightarrow> payment_requirements \<Rightarrow> string \<Rightarrow> ('c clock_scheme, error, bool) M" where
  "facilitator_verify E cfg payload req url =
     bnd (result (facilitator_body E payload req url)) (\<lambda>body.
     bnd (http_post E (trim_end_char (CHR ''/'') (fc_url cfg) @ ''/verify'') body (api_key_headers cfg) ''http402'')
       (\<lambda>(status, headers, resp).
     bnd (result (case json_from_slice E resp of
         Inl e \<Rightarrow> Inl (CryptoError (''facilitator /verify reply not JSON: '' @ e)) | Inr j \<Rightarrow> Inr j)) (\<lambda>j.
     ret (Option.bind (case json_get ''ok'' j of Some v \<Rightarrow> Some v | None \<Rightarrow> json_get ''valid'' j) as_bool = Some True))))"

definition facilitator_settle ::
  "env \<Rightarrow> facilitator_config \<Rightarrow> bytes \<Rightarrow> payment_requirements \<Rightarrow> string \<Rightarrow> ('c clock_scheme, error, facilitator_outcome) M" where
  "facilitator_settle E cfg payload req url =
     bnd (result (facilitator_body E payload req url)) (\<lambda>body.
     bnd (http_post E (trim_end_char (CHR ''/'') (fc_url cfg) @ ''/settle'') body (api_key_headers cfg) ''http402'')
       (\<lambda>(status, headers, resp).
     bnd (result (case header PAYMENT_RESPONSE headers of Some r \<Rightarrow> b64_decode E r | None \<Rightarrow> Inr resp)) (\<lambda>json_bytes.
     bnd (result (case from_slice E ''SettlementResponse'' read_settlement json_bytes of
         Inl e \<Rightarrow> Inl (CryptoError (''parsing settle receipt: '' @ e)) | Inr r \<Rightarrow> Inr r)) (\<lambda>r.
     let retry_after = Option.bind (header ''retry-after'' headers) (\<lambda>v. parse_unsigned u64_max (trim v)) in
     ret (if sr_status r = ''success'' then FSettled json_bytes
          else if sr_status r = ''settlement_pending'' then FPending (sr_transaction r) retry_after
          else FRejected (case sr_error r of Some e \<Rightarrow> e | None \<Rightarrow> sr_status r) retry_after)))))"

section \<open>What the rail does to the state\<close>

lemmas payment_keeps_defs = hybrid_sign_def sign_payment_def x402_execute_def facilitator_verify_def
  facilitator_settle_def Let_def seqM_def

lemma keeps_signer [keeps_rules]:
  "(\<And>K. keeps R (f K)) \<Longrightarrow> keeps R g \<Longrightarrow> keeps R (case z of HybridSigner K \<Rightarrow> f K | StubSigner \<Rightarrow> g)"
  by (cases z) auto

lemma sign_payment_keeps [keeps_rules]:
  assumes "state_preorder R" "clock_ok R"
  shows "keeps R (sign_payment E signer req url)"
  unfolding payment_keeps_defs
  by (intro keeps_signer state_preorder.bnd_ok [OF assms(1)] state_preorder.ok_or_ok [OF assms(1)]
      state_preorder.result_ok [OF assms(1)] state_preorder.ret_ok [OF assms(1)] utc_now_keeps fill_random_keeps assms)

lemma x402_execute_keeps [keeps_rules]:
  assumes "state_preorder R" "clock_ok R"
  shows "keeps R (x402_execute E url signer)"
  unfolding x402_execute_def seqM_def
  by (intro state_preorder.bnd_ok [OF assms(1)] keeps_prod state_preorder.guard_ok [OF assms(1)]
      state_preorder.ok_or_ok [OF assms(1)] state_preorder.result_ok [OF assms(1)] keeps_option
      state_preorder.ret_ok [OF assms(1)] sign_payment_keeps http_get_keeps assms)

lemma facilitator_keeps [keeps_rules]:
  assumes "state_preorder R" "clock_ok R"
  shows "keeps R (facilitator_verify E cfg payload req url)" "keeps R (facilitator_settle E cfg payload req url)"
  unfolding facilitator_verify_def facilitator_settle_def Let_def
  by (intro state_preorder.bnd_ok [OF assms(1)] keeps_prod state_preorder.result_ok [OF assms(1)]
      state_preorder.ret_ok [OF assms(1)] http_post_keeps assms)+

section \<open>Reading back what was written\<close>

definition option_wf :: "payment_option \<Rightarrow> bool" where
  "option_wf p \<longleftrightarrow> (case opt_max_timeout_secs p of None \<Rightarrow> True | Some n \<Rightarrow> n \<le> u64_max)"

lemma read_option_json: "option_wf p \<Longrightarrow> read_option (option_json p) = Some p"
  by (cases p) (auto simp: read_option_def option_json_def struct_values_def struct_field_def str_field_def
      as_str_def opt_u64_def JOpt_def as_unsigned_def option_wf_def split: option.splits)

lemma read_authorization_json: "read_authorization (authorization_json a) = Some a"
  by (cases a) (simp add: read_authorization_def authorization_json_def struct_values_def struct_field_def
      str_field_def as_str_def)

lemma read_signer_keys_json: "read_signer_keys (signer_keys_json k) = Some k"
  by (cases k) (simp add: read_signer_keys_def signer_keys_json_def struct_values_def struct_field_def
      str_field_def as_str_def)

lemma read_payload_json:
  assumes "pp_version p \<le> 255" "option_wf (pp_accepted p)"
  shows "read_payload (payload_json p) = Some p"
proof -
  obtain v r a sa where p: "p = \<lparr>pp_version = v, pp_resource = r, pp_accepted = a, pp_payload = sa\<rparr>" by (cases p)
  obtain u d where r: "r = \<lparr>rs_url = u, rs_description = d\<rparr>" by (cases r)
  obtain au sg k where sa: "sa = \<lparr>sa_authorization = au, sa_signature = sg, sa_signer = k\<rparr>" by (cases sa)
  show ?thesis
    using assms by (simp add: p r sa read_payload_def payload_json_def struct_values_def struct_field_def
        as_unsigned_def read_resource_def str_field_def str_default_def as_str_def read_signed_def
        read_option_json read_authorization_json read_signer_keys_json)
qed

text \<open>The serializer and the parser of \<open>serde_json\<close> fit together.\<close>

definition json_reads_back :: "env \<Rightarrow> bool" where
  "json_reads_back E \<longleftrightarrow> (\<forall>j. json_from_slice E (json_to_vec E j) = Inr j)"

lemma json_to_vec_inj: "json_reads_back E \<Longrightarrow> json_to_vec E i = json_to_vec E j \<Longrightarrow> i = j"
  unfolding json_reads_back_def by (metis sum.inject(2))

lemma from_slice_payload:
  "json_reads_back E \<Longrightarrow> pp_version p \<le> 255 \<Longrightarrow> option_wf (pp_accepted p) \<Longrightarrow>
   from_slice E ty read_payload (json_to_vec E (payload_json p)) = Inr p"
  by (simp add: from_slice_def json_reads_back_def read_payload_json)

lemma authorization_canonical_inj:
  assumes "json_reads_back E" "authorization_canonical E a u k = authorization_canonical E a' u' k'"
  shows "a = a' \<and> u = u' \<and> k = k'"
  using json_to_vec_inj [OF assms(1) assms(2) [unfolded authorization_canonical_def]] by simp

lemma hybrid_sign_Inr:
  assumes "hybrid_sign E K req url s = (Inr b, t)"
  shows "\<exists>accepted rest auth sig. rq_accepts req = accepted # rest \<and>
    auth = authorize_option K accepted (env_time E (n_time s)) (random_bytes E 32 (n_rand s)) \<and>
    sign_hybrid E (ok_secret K) (authorization_canonical E auth url (keys_of K)) = Inr sig \<and>
    b = json_to_vec E (payload_json (mk_payload url accepted
      \<lparr>sa_authorization = auth, sa_signature = hex_encode sig, sa_signer = keys_of K\<rparr>))"
  using assms by (auto simp: hybrid_sign_def M_Inr Let_def split: list.splits sum.splits)

lemma hybrid_sign_verifies:
  assumes "json_reads_back E" "hybrid_ok E K" "length (ok_ed_pk K) = 32"
    and "\<forall>p \<in> set (rq_accepts req). option_wf p" "hybrid_sign E K req url s = (Inr b, t)"
  shows "verify_payment_payload E b url' = Inr (url' = url) \<and>
    (\<exists>p. from_slice E ''PaymentPayload'' read_payload b = Inr p \<and>
      au_value (sa_authorization (pp_payload p)) = opt_amount (hd (rq_accepts req)) \<and>
      au_to (sa_authorization (pp_payload p)) = opt_pay_to (hd (rq_accepts req)))"
proof -
  from hybrid_sign_Inr [OF assms(5)] obtain accepted rest auth sig where r: "rq_accepts req = accepted # rest"
    and au: "auth = authorize_option K accepted (env_time E (n_time s)) (random_bytes E 32 (n_rand s))"
    and sg: "sign_hybrid E (ok_secret K) (authorization_canonical E auth url (keys_of K)) = Inr sig"
    and b: "b = json_to_vec E (payload_json (mk_payload url accepted
      \<lparr>sa_authorization = auth, sa_signature = hex_encode sig, sa_signer = keys_of K\<rparr>))" by blast
  let ?p = "mk_payload url accepted \<lparr>sa_authorization = auth, sa_signature = hex_encode sig, sa_signer = keys_of K\<rparr>"
  have p: "from_slice E ''PaymentPayload'' read_payload b = Inr ?p"
    unfolding b by (rule from_slice_payload [OF assms(1)]) (use assms(4) r in \<open>simp_all add: mk_payload_def\<close>)
  have "verify_hybrid E sig (ok_ed_pk K) (ok_falcon_pk K) (authorization_canonical E auth url (keys_of K)) = Inr True"
    using assms(2) sg by (simp add: hybrid_ok_def)
  then have "verify_payment_payload E b url' = Inr (url' = url)"
    using assms(3) by (auto simp: verify_payment_payload_def p mk_payload_def au authorize_option_def Let_def
        verify_authorization_def keys_of_def)
  with p show ?thesis by (simp add: mk_payload_def au authorize_option_def Let_def r)
qed

section \<open>An environment with a readable JSON codec\<close>

instance json :: countable
  by countable_datatype

definition reading_env :: env where
  "reading_env = example_env\<lparr>json_to_vec := (\<lambda>j. replicate (to_nat j) 0),
     json_from_slice := (\<lambda>b. Inr (from_nat (length b)))\<rparr>"

lemma reading_env_reads_back: "json_reads_back reading_env"
  by (simp add: json_reads_back_def reading_env_def)

section \<open>Properties\<close>

text \<open>
  A payload signed by the operator verifies for the resource URL it was signed for, and
  for no other URL. It pays the first option the server offered: that option's payee and
  that option's amount, whatever the order says.
\<close>

theorem signed_payload_verifies:
  assumes "json_reads_back E" "hybrid_ok E K" "length (ok_ed_pk K) = 32"
    and "\<forall>p \<in> set (rq_accepts req). option_wf p" "hybrid_sign E K req url s = (Inr b, t)"
  shows "verify_payment_payload E b url' = Inr (url' = url) \<and>
    (\<exists>p. from_slice E ''PaymentPayload'' read_payload b = Inr p \<and>
      au_value (sa_authorization (pp_payload p)) = opt_amount (hd (rq_accepts req)) \<and>
      au_to (sa_authorization (pp_payload p)) = opt_pay_to (hd (rq_accepts req)))"
  using assms by (rule hybrid_sign_verifies)

definition example_requirements :: payment_requirements where
  "example_requirements = \<lparr>rq_accepts = [\<lparr>opt_scheme = ''exact'', opt_network = ''eip155:8453'',
     opt_pay_to = ''shop'', opt_amount = ''500'', opt_max_timeout_secs = None, opt_payment_details = JNull\<rparr>]\<rparr>"

definition payer_keys :: operator_keys where
  "payer_keys = example_keys\<lparr>ok_ed_pk := replicate 32 7\<rparr>"

lemma reading_env_hybrid_ok: "hybrid_ok reading_env K"
  by (simp add: hybrid_ok_def reading_env_def example_env_def)

lemma example_payload_signed:
  "\<exists>b t. hybrid_sign reading_env payer_keys example_requirements ''http://shop/1'' s = (Inr b, t)"
  by (simp add: hybrid_sign_def bnd_def ok_or_def ret_def result_def Let_def example_requirements_def reading_env_def
      example_env_def)

lemma example_requirements_wf: "\<forall>p \<in> set (rq_accepts example_requirements). option_wf p"
  by (simp add: example_requirements_def option_wf_def)

theorem signed_payload_verifies_witness:
  "\<exists>b t. hybrid_sign reading_env payer_keys example_requirements ''http://shop/1'' example_clock = (Inr b, t) \<and>
    verify_payment_payload reading_env b ''http://shop/1'' = Inr True \<and>
    verify_payment_payload reading_env b ''http://shop/2'' = Inr False"
proof -
  obtain b t where s: "hybrid_sign reading_env payer_keys example_requirements ''http://shop/1'' example_clock = (Inr b, t)"
    using example_payload_signed by blast
  have "length (ok_ed_pk payer_keys) = 32" by (simp add: payer_keys_def)
  note ok = signed_payload_verifies [OF reading_env_reads_back reading_env_hybrid_ok this example_requirements_wf s]
  from s ok [of "''http://shop/1''"] ok [of "''http://shop/2''"] show ?thesis by auto
qed

text \<open>
  C31: An accepted payload was signed as it stands. If the keys named in a payload belong to
  an operator whose signatures only verify on authorizations the operator signed, then
  the accepted authorization, with every one of its fields and for this very URL, is one
  of those.
\<close>

theorem accepted_payload_was_signed:
  assumes "json_reads_back E" "verify_payment_payload E b url = Inr True"
    and "from_slice E ''PaymentPayload'' read_payload b = Inr p" "sa_signer (pp_payload p) = keys_of K"
    and "\<forall>sig m. verify_hybrid E sig (ok_ed_pk K) (ok_falcon_pk K) m = Inr True \<longrightarrow>
      (\<exists>(a, u) \<in> issued. m = authorization_canonical E a u (keys_of K))"
  shows "(sa_authorization (pp_payload p), url) \<in> issued"
proof -
  have "verify_authorization E (pp_payload p) url"
    using assms(2,3) by (simp add: verify_payment_payload_def)
  then obtain sig where "verify_hybrid E sig (ok_ed_pk K) (ok_falcon_pk K)
      (authorization_canonical E (sa_authorization (pp_payload p)) url (keys_of K)) = Inr True"
    using assms(4) by (auto simp: verify_authorization_def keys_of_def split: option.splits)
  with assms(5) obtain a u where "(a, u) \<in> issued"
    "authorization_canonical E (sa_authorization (pp_payload p)) url (keys_of K) = authorization_canonical E a u (keys_of K)"
    by blast
  with authorization_canonical_inj [OF assms(1)] show ?thesis by metis
qed

text \<open>Keys that verify one message only: the one their owner signed.\<close>

definition one_message_env :: "bytes \<Rightarrow> env" where
  "one_message_env m = reading_env\<lparr>verify_hybrid := (\<lambda>sig ed falcon m'. Inr (m' = m))\<rparr>"

definition example_authorization :: payment_authorization where
  "example_authorization = authorize_option payer_keys (hd (rq_accepts example_requirements)) 0 []"

definition example_payload :: payment_payload where
  "example_payload = mk_payload ''http://shop/1'' (hd (rq_accepts example_requirements))
     \<lparr>sa_authorization = example_authorization, sa_signature = [], sa_signer = keys_of payer_keys\<rparr>"

definition example_signed_message :: bytes where
  "example_signed_message = authorization_canonical reading_env example_authorization ''http://shop/1'' (keys_of payer_keys)"

theorem accepted_payload_was_signed_witness:
  "(sa_authorization (pp_payload example_payload), ''http://shop/1'') \<in> {(example_authorization, ''http://shop/1'')}"
proof (rule accepted_payload_was_signed [of "one_message_env example_signed_message"])
  let ?E = "one_message_env example_signed_message"
  show jr: "json_reads_back ?E" by (simp add: json_reads_back_def one_message_env_def reading_env_def)
  have c: "authorization_canonical ?E = authorization_canonical reading_env"
    by (simp add: fun_eq_iff authorization_canonical_def one_message_env_def)
  show p: "from_slice ?E ''PaymentPayload'' read_payload (json_to_vec ?E (payload_json example_payload)) = Inr example_payload"
    by (rule from_slice_payload [OF jr]) (simp_all add: example_payload_def mk_payload_def example_requirements_def option_wf_def)
  show "verify_payment_payload ?E (json_to_vec ?E (payload_json example_payload)) ''http://shop/1'' = Inr True"
  proof -
    have m: "verify_hybrid ?E sig ed falcon example_signed_message = Inr True" for sig ed falcon
      by (simp add: one_message_env_def)
    have canon: "authorization_canonical ?E example_authorization ''http://shop/1'' (keys_of payer_keys) = example_signed_message"
      by (simp only: c) (simp add: example_signed_message_def)
    have f: "pp_version example_payload = 2" "rs_url (pp_resource example_payload) = ''http://shop/1''"
      "sa_signature (pp_payload example_payload) = []" "sa_signer (pp_payload example_payload) = keys_of payer_keys"
      "sa_authorization (pp_payload example_payload) = example_authorization"
      by (simp_all add: example_payload_def mk_payload_def)
    have "au_scheme example_authorization = SCHEME_ORIGIN_HYBRID"
      by (simp add: example_authorization_def authorize_option_def Let_def)
    moreover have "hex_decode (sk_ed25519 (keys_of payer_keys)) = Some (replicate 32 7)"
      "hex_decode (sk_falcon1024 (keys_of payer_keys)) = Some (ok_falcon_pk payer_keys)"
      by (simp_all add: keys_of_def payer_keys_def)
    ultimately show ?thesis
      by (simp add: verify_payment_payload_def p verify_authorization_def f canon m)
  qed
  show "sa_signer (pp_payload example_payload) = keys_of payer_keys" by (simp add: example_payload_def mk_payload_def)
  show "\<forall>sig m. verify_hybrid ?E sig (ok_ed_pk payer_keys) (ok_falcon_pk payer_keys) m = Inr True \<longrightarrow>
      (\<exists>(a, u) \<in> {(example_authorization, ''http://shop/1'')}. m = authorization_canonical ?E a u (keys_of payer_keys))"
    by (simp add: c) (simp add: one_message_env_def example_signed_message_def)
qed

end
