(* ===== verification/Card_Vault.thy ===== *)
theory Card_Vault
  imports Payment_Store X402
begin

text \<open>
  \<open>origin-payments/src/vault.rs\<close> (credentials and facilitator URLs per rail) and
  \<open>origin-payments/src/card.rs\<close> (the tokenized card authorization).
\<close>

section \<open>The credential vault\<close>

text \<open>
  \<open>fs::write\<close> truncates the file before it writes: a failure after opening leaves it
  empty. The creation of the directory is part of the first file operation.
\<close>

definition put :: "string \<Rightarrow> 'v \<Rightarrow> (string \<times> 'v) list \<Rightarrow> (string \<times> 'v) list" where
  "put k v m = (k, v) # filter (\<lambda>kv. fst kv \<noteq> k) m"

definition vault_write ::
  "env \<Rightarrow> string \<Rightarrow> ('c world_scheme \<Rightarrow> 'c world_scheme) \<Rightarrow> ('c world_scheme \<Rightarrow> 'c world_scheme) \<Rightarrow> ('c, unit) W" where
  "vault_write E name f truncated = bnd (next_fault E) (\<lambda>mkdir. case mkdir of
       Some z \<Rightarrow> fail (IoError (''creating '' @ path_of E ''psp_vault'' @ '': '' @ fault_text z))
     | None \<Rightarrow> bnd (next_fault E) (\<lambda>z. case z of
           None \<Rightarrow> modify f
         | Some (OpenErr e) \<Rightarrow> fail (IoError (''writing '' @ path_of E (''psp_vault/'' @ name) @ '': '' @ e))
         | Some z \<Rightarrow> seqM (modify truncated)
             (fail (IoError (''writing '' @ path_of E (''psp_vault/'' @ name) @ '': '' @ fault_text z)))))"

definition store_secret :: "env \<Rightarrow> string \<Rightarrow> bytes \<Rightarrow> ('c, unit) W" where
  "store_secret E rail secret =
     seqM (guard (secret \<noteq> []) (StoreCorrupted ''empty credential''))
     (vault_write E (rail @ ''.secret'') (\<lambda>s. s\<lparr>f_secrets := put rail secret (f_secrets s)\<rparr>)
        (\<lambda>s. s\<lparr>f_secrets := put rail [] (f_secrets s)\<rparr>))"

definition vault_read :: "env \<Rightarrow> string \<Rightarrow> 'v \<Rightarrow> ('c, 'v) W" where
  "vault_read E name v = bnd (next_fault E) (\<lambda>z. case z of
       None \<Rightarrow> ret v
     | Some z \<Rightarrow> fail (IoError (''reading '' @ path_of E (''psp_vault/'' @ name) @ '': '' @ fault_text z)))"

definition load_secret :: "env \<Rightarrow> string \<Rightarrow> ('c, bytes) W" where
  "load_secret E rail = bnd (gets f_secrets) (\<lambda>m. case map_of m rail of
       None \<Rightarrow> fail (OrderNotFound (''psp credential for rail '' @ rail))
     | Some v \<Rightarrow> vault_read E (rail @ ''.secret'') v)"

definition store_facilitator_url :: "env \<Rightarrow> string \<Rightarrow> string \<Rightarrow> ('c, unit) W" where
  "store_facilitator_url E rail url =
     seqM (guard (trim url \<noteq> []) (StoreCorrupted ''empty facilitator URL''))
     (vault_write E (rail @ ''.facilitator'') (\<lambda>s. s\<lparr>f_facilitators := put rail url (f_facilitators s)\<rparr>)
        (\<lambda>s. s\<lparr>f_facilitators := put rail [] (f_facilitators s)\<rparr>))"

definition load_facilitator_url :: "env \<Rightarrow> string \<Rightarrow> ('c, string) W" where
  "load_facilitator_url E rail = bnd (gets f_facilitators) (\<lambda>m. case map_of m rail of
       None \<Rightarrow> fail (OrderNotFound (''facilitator URL for rail '' @ rail))
     | Some v \<Rightarrow> vault_read E (rail @ ''.facilitator'') v)"

text \<open>Both reads are made, in this order; any failure counts as "not configured".\<close>

definition load_facilitator_config :: "env \<Rightarrow> string \<Rightarrow> ('c, facilitator_config option) W" where
  "load_facilitator_config E rail =
     bnd (outcome (load_facilitator_url E rail)) (\<lambda>u. bnd (outcome (load_secret E rail)) (\<lambda>k.
     ret (case (u, k) of
         (Inr url, Inr key) \<Rightarrow>
           (let key' = trim (utf8_lossy E key) in
            if trim url = [] \<or> key' = [] then None else Some \<lparr>fc_url = trim url, fc_api_key = key'\<rparr>)
       | _ \<Rightarrow> None)))"

section \<open>Card authorization\<close>

record card_auth_request =
  ca_token :: string
  ca_network :: string
  ca_last4 :: string
  ca_amount :: string
  ca_currency :: string
  ca_order :: string
  ca_checkout :: string

datatype card_auth_outcome = CSettled bytes | CPending "string option" | CDeclined string

definition card_request_json :: "card_auth_request \<Rightarrow> json" where
  "card_request_json r = JObj [(''token'', JStr (ca_token r)), (''network'', JStr (ca_network r)),
     (''last4'', JStr (ca_last4 r)), (''amount'', JStr (ca_amount r)), (''currency'', JStr (ca_currency r)),
     (''payment_order_id'', JStr (ca_order r)), (''checkout_id'', JStr (ca_checkout r))]"

definition decode_auth :: "env \<Rightarrow> string \<Rightarrow> bytes" where
  "decode_auth E s = (case b64_decode E s of Inr v \<Rightarrow> v
     | Inl e \<Rightarrow> (case hex_decode (trim s) of Some v \<Rightarrow> v | None \<Rightarrow> str_bytes s))"

definition auth_outcome :: "env \<Rightarrow> json \<Rightarrow> card_auth_outcome" where
  "auth_outcome E j =
     (let status = (case get_str ''status'' j of Some s \<Rightarrow> s | None \<Rightarrow> ''declined'') in
      if status = ''success''
      then CSettled (case get_str ''auth'' j of Some s \<Rightarrow> decode_auth E s | None \<Rightarrow> [])
      else if status = ''settlement_pending'' then CPending (get_str ''transaction'' j)
      else CDeclined (case get_str ''error'' j of Some e \<Rightarrow> e | None \<Rightarrow> ''authorization '' @ status))"

definition authorize :: "env \<Rightarrow> facilitator_config \<Rightarrow> card_auth_request \<Rightarrow> ('c clock_scheme, error, card_auth_outcome) M" where
  "authorize E cfg req =
     bnd (http_post E (trim_end_char (CHR ''/'') (fc_url cfg) @ ''/authorize'') (json_to_vec E (card_request_json req))
       (if fc_api_key cfg = [] then [] else [(''x-api-key'', fc_api_key cfg)]) ''card'') (\<lambda>(status, headers, resp).
     seqM (guard (status < 500) (RailUnavailable ''card'' (''ACP facilitator returned HTTP '' @ dec status)))
     (bnd (result (case json_from_slice E resp of
         Inl e \<Rightarrow> Inl (CryptoError (''ACP facilitator /authorize reply not JSON: '' @ e)) | Inr j \<Rightarrow> Inr j)) (\<lambda>j.
     ret (auth_outcome E j))))"

section \<open>What they do to the state\<close>

lemma keeps_fault [keeps_rules]:
  "(\<And>e. keeps R (f e)) \<Longrightarrow> (\<And>e. keeps R (g e)) \<Longrightarrow> (\<And>e. keeps R (h e)) \<Longrightarrow> (\<And>i e. keeps R (k i e)) \<Longrightarrow>
   keeps R (case z of OpenErr e \<Rightarrow> f e | WriteErr e \<Rightarrow> g e | FlushErr e \<Rightarrow> h e | Corrupt i e \<Rightarrow> k i e)"
  by (cases z) auto

lemma load_facilitator_config_keeps [keeps_rules]:
  assumes "state_preorder R" "clock_ok R"
  shows "keeps R (load_facilitator_config E rail)"
  unfolding load_facilitator_config_def load_facilitator_url_def load_secret_def vault_read_def
  by (intro state_preorder.bnd_ok [OF assms(1)] outcome_keeps keeps_option state_preorder.fail_ok [OF assms(1)]
      state_preorder.ret_ok [OF assms(1)] state_preorder.gets_ok [OF assms(1)] next_fault_keeps assms)

lemma authorize_keeps [keeps_rules]:
  assumes "state_preorder R" "clock_ok R"
  shows "keeps R (authorize E cfg req)"
  unfolding authorize_def seqM_def
  by (intro state_preorder.bnd_ok [OF assms(1)] keeps_prod state_preorder.guard_ok [OF assms(1)]
      state_preorder.result_ok [OF assms(1)] state_preorder.ret_ok [OF assms(1)] http_post_keeps assms)

lemma map_of_put [simp]: "map_of (put k v m) k' = (if k' = k then Some v else map_of m k')"
  by (induction m) (auto simp: put_def)

section \<open>Properties\<close>

definition configure :: "env \<Rightarrow> string \<Rightarrow> string \<Rightarrow> bytes \<Rightarrow> ('c, unit) W" where
  "configure E rail url key = seqM (store_facilitator_url E rail url) (store_secret E rail key)"

lemma load_facilitator_config_no_fault:
  assumes "no_faults E"
  shows "\<exists>t. load_facilitator_config E rail s =
    (Inr (case (map_of (f_facilitators s) rail, map_of (f_secrets s) rail) of
       (Some url, Some key) \<Rightarrow> (if trim url = [] \<or> trim (utf8_lossy E key) = [] then None
         else Some \<lparr>fc_url = trim url, fc_api_key = trim (utf8_lossy E key)\<rparr>)
     | _ \<Rightarrow> None), t)"
  using assms by (auto simp: load_facilitator_config_def load_facilitator_url_def load_secret_def vault_read_def
      bnd_def gets_def outcome_def ret_def no_faults_def Let_def split: option.splits)

text \<open>
  What was configured is what is used: after storing a facilitator URL and a key for a
  rail, the rail's configuration is that URL and that key, trimmed, and the
  configuration of every other rail is as before.
\<close>

theorem vault_config_read_back:
  assumes "no_faults E" "trim url \<noteq> []" "trim (utf8_lossy E key) \<noteq> []" "key \<noteq> []"
  shows "\<exists>t. configure E rail url key s = (Inr (), t) \<and>
    (\<exists>u. load_facilitator_config E rail t =
      (Inr (Some \<lparr>fc_url = trim url, fc_api_key = trim (utf8_lossy E key)\<rparr>), u)) \<and>
    (rail' \<noteq> rail \<longrightarrow> fst (load_facilitator_config E rail' t) = fst (load_facilitator_config E rail' s))"
proof -
  have "\<exists>t. configure E rail url key s = (Inr (), t) \<and> f_facilitators t = put rail url (f_facilitators s) \<and>
      f_secrets t = put rail key (f_secrets s)"
    using assms by (simp add: configure_def store_facilitator_url_def store_secret_def vault_write_def
        seqM_def bnd_def guard_def ret_def modify_def no_faults_def)
  then obtain t where t: "configure E rail url key s = (Inr (), t)" "f_facilitators t = put rail url (f_facilitators s)"
    "f_secrets t = put rail key (f_secrets s)" by blast
  have "\<exists>u. load_facilitator_config E rail t = (Inr (Some \<lparr>fc_url = trim url, fc_api_key = trim (utf8_lossy E key)\<rparr>), u)"
    using load_facilitator_config_no_fault [OF assms(1), of rail t] assms by (simp add: t)
  moreover have "fst (load_facilitator_config E rail' t) = fst (load_facilitator_config E rail' s)" if "rail' \<noteq> rail"
    using load_facilitator_config_no_fault [OF assms(1), of rail' t]
      load_facilitator_config_no_fault [OF assms(1), of rail' s] that by (auto simp: t)
  ultimately show ?thesis using t(1) by blast
qed

theorem vault_config_read_back_witness:
  "\<exists>t u. configure example_env ''card'' ''http://psp'' [65] empty_world = (Inr (), t) \<and>
    load_facilitator_config example_env ''card'' t = (Inr (Some \<lparr>fc_url = ''http://psp'', fc_api_key = ''A''\<rparr>), u)"
proof -
  have a: "trim ''http://psp'' = ''http://psp''" "trim ''A'' = ''A''" by code_simp+
  have b: "utf8_lossy example_env [65] = ''A''" by (simp add: example_env_def) code_simp
  show ?thesis
    using vault_config_read_back [OF example_env_no_faults, of "''http://psp''" "[65]" "''card''" empty_world "''x''", unfolded a b]
    by auto
qed

end
