(* ===== verification/Checkpoints.thy ===== *)
theory Checkpoints
  imports Payment_Store
begin

text \<open>
  \<open>origin-payments/src/proof.rs\<close>: the checkpoint range, a thin wrapper over the Merkle
  mountain range of \<open>origin-proof\<close>, and what \<open>checkpoint_mmr\<close> of the store does with it.
\<close>

definition cp_append :: "(bytes \<Rightarrow> bytes) \<Rightarrow> mmr_state \<Rightarrow> bytes \<Rightarrow> (mmr_state \<times> bytes) option" where
  "cp_append H m leaf_hash =
     Option.bind (append_hash H m leaf_hash) (\<lambda>m'. map_option (\<lambda>r. (m', r)) (mmr_root H m'))"

definition cp_leaf_count :: "mmr_state \<Rightarrow> nat" where
  "cp_leaf_count m = leaf_count m"

definition cp_prove :: "mmr_state \<Rightarrow> nat \<Rightarrow> (string + membership_proof) option" where
  "cp_prove m i = mmr_prove m i"

definition cp_verify :: "(bytes \<Rightarrow> bytes) \<Rightarrow> membership_proof \<Rightarrow> bytes \<Rightarrow> bool option" where
  "cp_verify H pf root = verify_proof H pf root"

text \<open>The range the store's file stands for.\<close>

definition store_mmr :: "'c world_scheme \<Rightarrow> mmr_state" where
  "store_mmr s = (case f_mmr s of None \<Rightarrow> mmr_new | Some m \<Rightarrow> m)"

lemma checkpoint_mmr_keeps [keeps_rules]:
  assumes "state_preorder R" "clock_ok R" "\<And>s m. R s (s\<lparr>f_mmr := m\<rparr>)"
  shows "keeps R (checkpoint_mmr E h)"
  unfolding checkpoint_mmr_def load_mmr_def save_mmr_def seqM_def
  by (intro state_preorder.bnd_ok [OF assms(1)] keeps_option state_preorder.ret_ok [OF assms(1)]
      state_preorder.gets_ok [OF assms(1)] state_preorder.unwrap_ok [OF assms(1)] read_whole_keeps write_file_keeps assms)

lemma load_mmr_Inr: "load_mmr E s = (Inr m, t) \<Longrightarrow> m = store_mmr s \<and> f_mmr t = f_mmr s"
  by (auto simp: load_mmr_def store_mmr_def bnd_def gets_def ret_def read_whole_def split: option.splits fault.splits)

lemma checkpoint_mmr_Inr:
  assumes "checkpoint_mmr E h s = (Inr r, t)"
  shows "cp_append (blake3 E) (store_mmr s) h = Some (store_mmr t, r)"
proof -
  from assms obtain m u m' v where l: "load_mmr E s = (Inr m, u)" and a: "append_hash (blake3 E) m h = Some m'"
    and root: "mmr_root (blake3 E) m' = Some r" and w: "save_mmr E m' u = (Inr (), v)" and t: "t = v"
    by (auto simp: checkpoint_mmr_def M_Inr)
  have "f_mmr v = Some m'"
    using w by (auto simp: save_mmr_def write_file_def bnd_def modify_def split: option.splits fault.splits)
  with load_mmr_Inr [OF l] a root t show ?thesis by (simp add: cp_append_def store_mmr_def)
qed

text \<open>
  \<open>checkpointed E s hs\<close>: the range of the store commits to the hashes \<open>hs\<close>, in this order.
\<close>

definition checkpointed :: "env \<Rightarrow> 'c world_scheme \<Rightarrow> bytes list \<Rightarrow> bool" where
  "checkpointed E s hs \<longleftrightarrow> mmr_holds (blake3 E) (store_mmr s) hs"

lemma checkpoint_mmr_holds:
  assumes "checkpointed E s hs" "length h = 32" "checkpoint_mmr E h s = (r, t)"
  shows "(case r of Inr root \<Rightarrow> checkpointed E t (hs @ [h]) \<and> mmr_root (blake3 E) (store_mmr t) = Some root
    | Inl e \<Rightarrow> checkpointed E t hs)"
proof (cases r)
  case (Inr root)
  obtain st' where st': "append_hash (blake3 E) (store_mmr s) h = Some st'" "mmr_holds (blake3 E) st' (hs @ [h])"
    using append_hash_holds assms(1,2) unfolding checkpointed_def by metis
  from assms(3) Inr have "cp_append (blake3 E) (store_mmr s) h = Some (store_mmr t, root)"
    by (intro checkpoint_mmr_Inr) simp
  with st' Inr show ?thesis by (auto simp: cp_append_def checkpointed_def)
next
  case (Inl e)
  have "f_mmr t = f_mmr s"
    using assms(3) Inl
    by (auto simp: checkpoint_mmr_def load_mmr_def save_mmr_def seqM_def bnd_def gets_def ret_def read_whole_def
        write_file_def modify_def unwrap_def split: option.splits fault.splits)
  with Inl assms(1) show ?thesis by (simp add: checkpointed_def store_mmr_def)
qed

lemma checkpointed_empty: "f_mmr s = None \<Longrightarrow> digests32 E \<Longrightarrow> checkpointed E s []"
  by (simp add: checkpointed_def store_mmr_def mmr_new_holds hash32_def digests32_def)

lemma checkpoint_mmr_total:
  assumes "no_faults E" "checkpointed E s hs" "length h = 32"
  shows "\<exists>root t. checkpoint_mmr E h s = (Inr root, t)"
proof -
  obtain st' where st': "append_hash (blake3 E) (store_mmr s) h = Some st'" "mmr_holds (blake3 E) st' (hs @ [h])"
    using append_hash_holds assms(2,3) unfolding checkpointed_def by metis
  obtain root where "mmr_root (blake3 E) st' = Some root"
    using prove_holds [OF st'(2), of 0] by auto
  with st' assms(1) show ?thesis
    by (auto simp: checkpoint_mmr_def load_mmr_def save_mmr_def seqM_def bnd_def gets_def ret_def read_whole_def
        write_file_def modify_def unwrap_def no_faults_def store_mmr_def split: option.splits)
qed

end
