(* ===== verification/Deferred.thy ===== *)
theory Deferred
  imports Checkpoints X402
begin

text \<open>
  \<open>origin-payments/src/settle.rs\<close>: signed x402 authorizations collected over a window and
  committed as one batch, whose content hash goes into the checkpoint range.
\<close>

definition batch_path :: "string \<Rightarrow> string" where
  "batch_path batch_id = ''settlement/deferred/'' @ batch_id @ ''.json''"

definition item_json :: "deferred_item \<Rightarrow> json" where
  "item_json i = JObj [(''payment_order_id'', JStr (di_order i)), (''amount'', JStr (di_amount i)),
     (''currency'', JStr (di_currency i)), (''signed_payload'', JBytes (di_signed_payload i)),
     (''resource_url'', JStr (di_resource_url i))]"

definition batch_content_hash :: "env \<Rightarrow> deferred_item list \<Rightarrow> string \<Rightarrow> bytes" where
  "batch_content_hash E items date = sha3_256 E (json_to_vec E
     (JObj [(''date'', JStr date), (''items'', JArr (map item_json items))]))"

definition batch_new :: "env \<Rightarrow> string \<Rightarrow> ('c clock_scheme, error, deferred_batch) M" where
  "batch_new E date =
     seqM (guard (trim date \<noteq> []) (StoreCorrupted ''deferred batch date is empty''))
     (bnd (new_uuid E) (\<lambda>bid. bnd (now_rfc3339 E) (\<lambda>now.
     ret \<lparr>db_id = bid, db_date = date, db_created_at = now, db_items = [],
       db_content_hash = batch_content_hash E [] date, db_total_minor = 0\<rparr>)))"

definition check_commitment :: "env \<Rightarrow> deferred_item \<Rightarrow> error + unit" where
  "check_commitment E i = (case verify_payment_payload E (di_signed_payload i) (di_resource_url i) of
       Inl e \<Rightarrow> Inl (StoreCorrupted (''verifying deferred commitment: '' @ error_to_string e))
     | Inr ok \<Rightarrow> if ok then Inr ()
         else Inl (ReceiptVerificationFailed (''deferred commitment for '' @ di_order i @
           '' did not verify '' @ emdash @ '' refused'')))"

definition batch_push :: "env \<Rightarrow> deferred_batch \<Rightarrow> deferred_item \<Rightarrow> error + deferred_batch" where
  "batch_push E b i = (case check_commitment E i of
       Inl e \<Rightarrow> Inl e
     | Inr _ \<Rightarrow> (case parse_amount (di_amount i) of
           Inl e \<Rightarrow> Inl e
         | Inr minor \<Rightarrow> Inr (b\<lparr>db_items := db_items b @ [i], db_total_minor := i128 (db_total_minor b + minor),
             db_content_hash := batch_content_hash E (db_items b @ [i]) (db_date b)\<rparr>)))"

text \<open>The loop of \<open>commit_deferred_batch\<close> checks each commitment once more before \<open>push\<close> does.\<close>

fun push_all :: "env \<Rightarrow> deferred_batch \<Rightarrow> deferred_item list \<Rightarrow> error + deferred_batch" where
  "push_all E b [] = Inr b"
| "push_all E b (i # is) = (case check_commitment E i of
       Inl e \<Rightarrow> Inl e
     | Inr _ \<Rightarrow> (case batch_push E b i of Inl e \<Rightarrow> Inl e | Inr b' \<Rightarrow> push_all E b' is))"

definition write_batch_file :: "env \<Rightarrow> deferred_batch \<Rightarrow> ('c, unit) W" where
  "write_batch_file E b = bnd (next_fault E) (\<lambda>mkdir. case mkdir of
       Some z \<Rightarrow> fail (IoError (''creating '' @ path_of E ''settlement/deferred'' @ '': '' @ fault_text z))
     | None \<Rightarrow> bnd (next_fault E) (\<lambda>z. case z of
           None \<Rightarrow> modify (\<lambda>s. s\<lparr>f_batches := f_batches s @ [b]\<rparr>)
         | Some z \<Rightarrow> fail (IoError (''writing '' @ path_of E (batch_path (db_id b)) @ '': '' @ fault_text z))))"

definition commit_deferred_batch :: "env \<Rightarrow> string \<Rightarrow> ('c, deferred_batch) W" where
  "commit_deferred_batch E date =
     bnd (batch_new E date) (\<lambda>b0.
     bnd (deferred_commitments E) (\<lambda>items.
     bnd (result (push_all E b0 items)) (\<lambda>b.
     seqM (write_batch_file E b)
     (seqM (checkpoint_mmr E (db_content_hash b))
     (seqM (clear_deferred_commitments E) (ret b))))))"

section \<open>What a batch holds\<close>

fun amounts_sum :: "deferred_item list \<Rightarrow> int" where
  "amounts_sum [] = 0"
| "amounts_sum (i # is) = (case parse_amount (di_amount i) of Inl e \<Rightarrow> 0 | Inr m \<Rightarrow> m) + amounts_sum is"

definition commitment_ok :: "env \<Rightarrow> deferred_item \<Rightarrow> bool" where
  "commitment_ok E i \<longleftrightarrow> verify_payment_payload E (di_signed_payload i) (di_resource_url i) = Inr True \<and>
     (\<exists>m. parse_amount (di_amount i) = Inr m)"

lemma check_commitment_Inr: "check_commitment E i = Inr u \<longleftrightarrow>
    verify_payment_payload E (di_signed_payload i) (di_resource_url i) = Inr True"
  by (auto simp: check_commitment_def split: sum.splits)

lemma batch_push_Inr: "batch_push E b i = Inr b' \<longleftrightarrow> commitment_ok E i \<and>
    b' = b\<lparr>db_items := db_items b @ [i], db_content_hash := batch_content_hash E (db_items b @ [i]) (db_date b),
      db_total_minor := i128 (db_total_minor b + amounts_sum [i])\<rparr>"
proof (cases "check_commitment E i")
  case (Inl e)
  then have "\<not> commitment_ok E i"
    using check_commitment_Inr [of E i "()"] by (simp add: commitment_ok_def)
  with Inl show ?thesis by (simp add: batch_push_def)
next
  case (Inr u)
  then have "verify_payment_payload E (di_signed_payload i) (di_resource_url i) = Inr True"
    by (simp add: check_commitment_Inr)
  with Inr show ?thesis by (auto simp: batch_push_def commitment_ok_def split: sum.splits)
qed

lemma push_all_Inr: "push_all E b is = Inr b' \<longleftrightarrow> list_all (commitment_ok E) is \<and>
    b' = (if is = [] then b else b\<lparr>db_items := db_items b @ is,
      db_content_hash := batch_content_hash E (db_items b @ is) (db_date b),
      db_total_minor := i128 (db_total_minor b + amounts_sum is)\<rparr>)"
proof (induction "is" arbitrary: b)
  case (Cons i "is")
  show ?case
  proof (cases "commitment_ok E i")
    case True
    let ?b = "b\<lparr>db_items := db_items b @ [i], db_content_hash := batch_content_hash E (db_items b @ [i]) (db_date b),
      db_total_minor := i128 (db_total_minor b + amounts_sum [i])\<rparr>"
    have c: "check_commitment E i = Inr ()" using True by (simp add: check_commitment_Inr commitment_ok_def)
    have "batch_push E b i = Inr ?b" using True by (simp add: batch_push_Inr)
    with c True Cons.IH [of ?b] show ?thesis by (auto simp: i128_add_left add.assoc)
  next
    case False
    then have "\<exists>e. push_all E b (i # is) = Inl e"
      using batch_push_Inr [of E b i] by (cases "check_commitment E i"; cases "batch_push E b i") auto
    with False show ?thesis by auto
  qed
qed auto

section \<open>Committing\<close>

lemma write_batch_file_run:
  assumes "write_batch_file E b s = (r, t)"
  shows "f_deferred t = f_deferred s \<and> f_mmr t = f_mmr s \<and>
    (f_batches t = f_batches s \<and> r \<noteq> Inr () \<or> f_batches t = f_batches s @ [b])"
  using assms by (auto simp: write_batch_file_def bnd_def modify_def split: option.splits)

lemma clear_run:
  assumes "clear_deferred_commitments E s = (r, t)"
  shows "f_batches t = f_batches s \<and> f_mmr t = f_mmr s \<and>
    (r = Inr () \<and> f_deferred t = [] \<or> r \<noteq> Inr () \<and> f_deferred t = f_deferred s)"
  using assms by (auto simp: clear_deferred_commitments_def bnd_def modify_def split: option.splits)

lemma checkpoint_frame:
  assumes "checkpoint_mmr E h s = (r, t)"
  shows "f_deferred t = f_deferred s \<and> f_batches t = f_batches s"
proof -
  have "keeps (\<lambda>s t. f_deferred t = f_deferred s) (checkpoint_mmr E h)"
    by (intro checkpoint_mmr_keeps same_rel.state_preorder_axioms) (simp_all add: clock_ok_def)
  moreover have "keeps (\<lambda>s t. f_batches t = f_batches s) (checkpoint_mmr E h)"
    by (intro checkpoint_mmr_keeps same_rel.state_preorder_axioms) (simp_all add: clock_ok_def)
  ultimately show ?thesis using assms by (auto dest: keepsD)
qed

text \<open>The steps after the batch has been assembled.\<close>

definition commit_batch :: "env \<Rightarrow> deferred_batch \<Rightarrow> ('c, deferred_batch) W" where
  "commit_batch E b = seqM (write_batch_file E b)
     (seqM (checkpoint_mmr E (db_content_hash b)) (seqM (clear_deferred_commitments E) (ret b)))"

lemma commit_batch_run:
  assumes "commit_batch E b s = (r, t)"
  shows "(r = Inr b \<and> f_deferred t = [] \<and> f_batches t = f_batches s @ [b]) \<or>
    (\<exists>e. r = Inl e) \<and> f_deferred t = f_deferred s \<and> (f_batches t = f_batches s \<or> f_batches t = f_batches s @ [b])"
proof -
  obtain r1 s1 where w: "write_batch_file E b s = (r1, s1)" by fastforce
  obtain r2 s2 where c: "checkpoint_mmr E (db_content_hash b) s1 = (r2, s2)" by fastforce
  obtain r3 s3 where d: "clear_deferred_commitments E s2 = (r3, s3)" by fastforce
  from write_batch_file_run [OF w] checkpoint_frame [OF c] clear_run [OF d] w c d assms
  show ?thesis
    by (auto simp: commit_batch_def seqM_def bnd_def ret_def split: sum.splits)
qed

lemma commit_batch_mmr:
  assumes "commit_batch E b s = (Inr x, t)" "checkpointed E s hs" "length (db_content_hash b) = 32"
  shows "checkpointed E t (hs @ [db_content_hash b])"
proof -
  from assms(1) obtain s1 root s2 where w: "write_batch_file E b s = (Inr (), s1)"
    and c: "checkpoint_mmr E (db_content_hash b) s1 = (Inr root, s2)" and d: "clear_deferred_commitments E s2 = (Inr (), t)"
    by (auto simp: commit_batch_def M_Inr)
  have "checkpointed E s1 hs" using write_batch_file_run [OF w] assms(2) by (simp add: checkpointed_def store_mmr_def)
  from checkpoint_mmr_holds [OF this assms(3) c] have "checkpointed E s2 (hs @ [db_content_hash b])" by simp
  then show ?thesis using clear_run [OF d] by (simp add: checkpointed_def store_mmr_def)
qed

lemma batch_new_Inr: "batch_new E date s = (Inr b, t) \<Longrightarrow> db_items b = [] \<and> db_date b = date \<and>
    db_total_minor b = 0 \<and> db_content_hash b = batch_content_hash E [] date \<and>
    f_deferred t = f_deferred s \<and> f_batches t = f_batches s \<and> f_mmr t = f_mmr s"
  by (auto simp: batch_new_def M_Inr)

lemma batch_new_Inl: "batch_new E date s = (Inl e, t) \<Longrightarrow> t = s"
  by (auto simp: batch_new_def seqM_def bnd_def guard_def ret_def split: if_splits)

lemma deferred_commitments_run: "deferred_commitments E s = (r, t) \<Longrightarrow> t = s\<lparr>n_io := n_io s + 1\<rparr> \<and>
    ((\<exists>e. r = Inl e) \<or> r = Inr (f_deferred s))"
  by (auto simp: deferred_commitments_def read_jsonl_def bnd_def gets_def split: option.splits fault.splits)

lemma commit_run:
  assumes "commit_deferred_batch E date s = (r, t)"
  shows "(\<exists>e. r = Inl e) \<and> f_deferred t = f_deferred s \<and> f_batches t = f_batches s \<or>
    (\<exists>b u. db_items b = f_deferred s \<and> db_date b = date \<and> db_total_minor b = i128 (amounts_sum (f_deferred s)) \<and>
      db_content_hash b = batch_content_hash E (f_deferred s) date \<and> list_all (commitment_ok E) (f_deferred s) \<and>
      f_deferred u = f_deferred s \<and> f_batches u = f_batches s \<and> f_mmr u = f_mmr s \<and> commit_batch E b u = (r, t))"
proof -
  obtain r1 s1 where n: "batch_new E date s = (r1, s1)" by fastforce
  show ?thesis
  proof (cases r1)
    case (Inl e)
    with n assms show ?thesis by (auto simp: commit_deferred_batch_def bnd_def dest: batch_new_Inl)
  next
    case (Inr b0)
    obtain r2 s2 where d: "deferred_commitments E s1 = (r2, s2)" by fastforce
    note b0 = batch_new_Inr [OF n [unfolded Inr]] and d' = deferred_commitments_run [OF d]
    show ?thesis
    proof (cases "(\<exists>e. r2 = Inl e) \<or> (\<exists>e. push_all E b0 (f_deferred s) = Inl e)")
      case True
      with n Inr d d' b0 assms show ?thesis
        by (auto simp: commit_deferred_batch_def bnd_def result_def split: sum.splits)
    next
      case False
      with d' b0 have r2: "r2 = Inr (f_deferred s)" by auto
      from False obtain b where b: "push_all E b0 (f_deferred s) = Inr b" by (cases "push_all E b0 (f_deferred s)") auto
      have "commit_batch E b s2 = (r, t)"
        using n Inr d r2 b assms by (simp add: commit_deferred_batch_def bnd_def result_def ret_def commit_batch_def)
      moreover have "db_items b = f_deferred s \<and> db_date b = date \<and> db_total_minor b = i128 (amounts_sum (f_deferred s)) \<and>
        db_content_hash b = batch_content_hash E (f_deferred s) date \<and> list_all (commitment_ok E) (f_deferred s)"
        using b b0 by (auto simp: push_all_Inr)
      ultimately show ?thesis using b0 d' by (intro disjI2 exI [of _ b] exI [of _ s2]) simp
    qed
  qed
qed

section \<open>Properties\<close>

text \<open>
  A committed batch is exactly the pending commitments: every one verified against its
  URL, in order, with their total and with the hash of their content as the next leaf of
  the checkpoint range; the queue is empty afterwards.
\<close>

theorem commit_batch_exact:
  assumes "commit_deferred_batch E date s = (Inr b, t)" "checkpointed E s hs" "digests32 E"
  shows "db_items b = f_deferred s \<and> (\<forall>i \<in> set (f_deferred s).
      verify_payment_payload E (di_signed_payload i) (di_resource_url i) = Inr True) \<and>
    db_total_minor b = i128 (amounts_sum (f_deferred s)) \<and> f_batches t = f_batches s @ [b] \<and> f_deferred t = [] \<and>
    checkpointed E t (hs @ [batch_content_hash E (f_deferred s) date])"
proof -
  from commit_run [OF assms(1)] obtain b' u where b: "db_items b' = f_deferred s"
    "db_total_minor b' = i128 (amounts_sum (f_deferred s))" "db_content_hash b' = batch_content_hash E (f_deferred s) date"
    "list_all (commitment_ok E) (f_deferred s)" "f_batches u = f_batches s" "f_mmr u = f_mmr s"
    and c: "commit_batch E b' u = (Inr b, t)" by auto
  have bb: "b' = b" "f_deferred t = []" "f_batches t = f_batches s @ [b]" using commit_batch_run [OF c] b by auto
  have "length (db_content_hash b') = 32" using assms(3) b(3) by (simp add: digests32_def batch_content_hash_def)
  moreover have "checkpointed E u hs" using assms(2) b(6) by (simp add: checkpointed_def store_mmr_def)
  ultimately have "checkpointed E t (hs @ [db_content_hash b'])" using commit_batch_mmr [OF c] by blast
  with b bb show ?thesis by (auto simp: list_all_iff commitment_ok_def)
qed

definition example_item :: "bytes \<Rightarrow> deferred_item" where
  "example_item b = \<lparr>di_order = ''o1'', di_amount = ''5.00'', di_currency = ''USD'', di_signed_payload = b,
     di_resource_url = ''http://shop/1''\<rparr>"

lemma example_commit:
  assumes "hybrid_sign reading_env payer_keys example_requirements ''http://shop/1'' example_clock = (Inr p, u)"
  shows "\<exists>b t. commit_deferred_batch reading_env ''2026-01-01'' (empty_world\<lparr>f_deferred := [example_item p]\<rparr>) = (Inr b, t)"
proof -
  let ?E = reading_env and ?s = "empty_world\<lparr>f_deferred := [example_item p]\<rparr>"
  have nf: "no_faults ?E" and dg: "digests32 ?E"
    by (simp_all add: reading_env_def example_env_def no_faults_def digests32_def)
  have "verify_payment_payload ?E p ''http://shop/1'' = Inr True"
    using hybrid_sign_verifies [OF reading_env_reads_back reading_env_hybrid_ok _ example_requirements_wf assms]
    by (simp add: payer_keys_def)
  moreover have a: "parse_amount ''5.00'' = Inr 500" "trim ''2026-01-01'' \<noteq> []" by code_simp+
  ultimately have ok: "list_all (commitment_ok ?E) [example_item p]" by (simp add: commitment_ok_def example_item_def)
  obtain b0 s1 where n: "batch_new ?E ''2026-01-01'' ?s = (Inr b0, s1)"
    using a(2) by (simp add: batch_new_def seqM_def bnd_def guard_def ret_def)
  obtain b where b: "push_all ?E b0 [example_item p] = Inr b" using ok push_all_Inr [of ?E b0 "[example_item p]"] by blast
  have s1: "f_deferred s1 = [example_item p]" "f_mmr s1 = None" using batch_new_Inr [OF n] by (simp_all add: empty_world_def)
  define s2 where "s2 = s1\<lparr>n_io := n_io s1 + 1\<rparr>"
  define s4 where "s4 = s2\<lparr>n_io := n_io s2 + 2, f_batches := f_batches s2 @ [b]\<rparr>"
  have d: "deferred_commitments ?E s1 = (Inr [example_item p], s2)"
    using nf s1 by (simp add: deferred_commitments_def read_jsonl_def bnd_def gets_def no_faults_def s2_def)
  have w: "write_batch_file ?E b s2 = (Inr (), s4)"
    using nf by (simp add: write_batch_file_def bnd_def modify_def no_faults_def s4_def)
  have "length (db_content_hash b) = 32"
    using b [unfolded push_all_Inr] dg by (simp add: digests32_def batch_content_hash_def)
  moreover have "checkpointed ?E s4 []" by (rule checkpointed_empty [OF _ dg]) (simp add: s4_def s2_def s1)
  ultimately obtain root s5 where c: "checkpoint_mmr ?E (db_content_hash b) s4 = (Inr root, s5)"
    using checkpoint_mmr_total [OF nf] by blast
  obtain s6 where "clear_deferred_commitments ?E s5 = (Inr (), s6)"
    using nf by (simp add: clear_deferred_commitments_def bnd_def modify_def no_faults_def)
  then have "commit_deferred_batch ?E ''2026-01-01'' ?s = (Inr b, s6)"
    by (simp add: commit_deferred_batch_def seqM_def bnd_def result_def n d b w c ret_def del: push_all.simps)
  then show ?thesis by blast
qed

theorem commit_batch_exact_witness:
  "\<exists>p b t. commit_deferred_batch reading_env ''2026-01-01'' (empty_world\<lparr>f_deferred := [example_item p]\<rparr>) = (Inr b, t) \<and>
    db_items b = [example_item p] \<and> f_deferred t = []"
proof -
  obtain p u where "hybrid_sign reading_env payer_keys example_requirements ''http://shop/1'' example_clock = (Inr p, u)"
    using example_payload_signed by blast
  from example_commit [OF this] obtain b t where
    c: "commit_deferred_batch reading_env ''2026-01-01'' (empty_world\<lparr>f_deferred := [example_item p]\<rparr>) = (Inr b, t)" by blast
  have d: "digests32 reading_env" by (simp add: reading_env_def example_env_def digests32_def)
  have "checkpointed reading_env (empty_world\<lparr>f_deferred := [example_item p]\<rparr>) []"
    by (rule checkpointed_empty [OF _ d]) (simp add: empty_world_def)
  from commit_batch_exact [OF c this d] have "db_items b = [example_item p]" "f_deferred t = []" by simp_all
  with c show ?thesis by blast
qed

text \<open>
  No commitment is ever dropped: when a commit fails, at whatever step, the queue of
  pending commitments is untouched. A failure after the batch file was written leaves
  both: the commitments will be batched again by the next commit.
\<close>

theorem failed_commit_keeps_queue:
  assumes "commit_deferred_batch E date s = (Inl e, t)"
  shows "f_deferred t = f_deferred s \<and>
    (f_batches t = f_batches s \<or> (\<exists>b. f_batches t = f_batches s @ [b] \<and> db_items b = f_deferred s))"
proof -
  from commit_run [OF assms] show ?thesis
    by (auto dest!: commit_batch_run)
qed

theorem failed_commit_keeps_queue_witness:
  "\<exists>e t. commit_deferred_batch example_env [] (empty_world\<lparr>f_deferred := [example_item []]\<rparr>) = (Inl e, t) \<and>
    f_deferred t = [example_item []]"
proof -
  have "trim [] = []" by code_simp
  then obtain e t where "commit_deferred_batch example_env [] (empty_world\<lparr>f_deferred := [example_item []]\<rparr>) = (Inl e, t)"
    by (simp add: commit_deferred_batch_def batch_new_def seqM_def bnd_def guard_def)
  with failed_commit_keeps_queue [OF this] show ?thesis by auto
qed

end
