(* ===== verification/Executor.thy ===== *)
theory Executor
  imports Journal Audit_Stream Retry Card_Vault Deferred
begin

text \<open>
  \<open>origin-payments/src/executor.rs\<close>: one pass over the orders that are due. Every function
  of the file is a definition here; a settle function takes the order by mutable
  reference, so its error carries the order as it was left.

  Arguments that stand for what the pass is called with: the wallet codec and the
  passphrase, the operator keys that \<open>identity_keys\<close> found, and the compliance scorer. The
  native rail is \<open>LocalNativeRail\<close>.
\<close>

record executor_summary =
  es_ready :: nat
  es_executed :: nat
  es_retried :: nat
  es_recovered :: nat
  es_deferred_batches :: nat
  es_note :: string

datatype settle_outcome = SettleRetryable string | SettleTerminal string | SettleRequiresAction string

type_synonym ('c, 'a) S = "('c world_scheme, payment_order \<times> settle_outcome, 'a) M"

section \<open>Failing with the order\<close>

definition refuse :: "payment_order \<Rightarrow> settle_outcome \<Rightarrow> ('c, 'a) S" where
  "refuse ord so = fail (ord, so)"

definition terminal :: "payment_order \<Rightarrow> ('c, 'a) W \<Rightarrow> ('c, 'a) S" where
  "terminal ord m = or_err (\<lambda>e. (ord, SettleTerminal (error_to_string e))) m"

definition x402_err :: "error \<Rightarrow> settle_outcome" where
  "x402_err e = (case e of RailUnavailable rail details \<Rightarrow> SettleRetryable (error_to_string e)
     | _ \<Rightarrow> SettleTerminal (error_to_string e))"

definition card_err :: "error \<Rightarrow> settle_outcome" where
  "card_err e = (case e of RailUnavailable rail details \<Rightarrow> SettleRetryable (error_to_string e)
     | _ \<Rightarrow> SettleTerminal (error_to_string e))"

section \<open>Notifications and terminal failures\<close>

definition notify :: "env \<Rightarrow> string \<Rightarrow> string \<Rightarrow> ('c, unit) W" where
  "notify E oid event = bnd (new_uuid E) (\<lambda>nid. bnd (now_rfc3339 E) (\<lambda>now.
     append_notification E \<lparr>nt_id = nid, nt_order = oid, nt_event = event, nt_created_at = now\<rparr>))"

definition mark_failed :: "env \<Rightarrow> payment_order \<Rightarrow> string \<Rightarrow> ('c, payment_order) W" where
  "mark_failed E ord reason =
     bnd (transition E Failed ord) (\<lambda>ord'.
     seqM (update_order E ord')
     (bnd (now_rfc3339 E) (\<lambda>now.
     seqM (append_dlq E \<lparr>dl_order = po_id ord', dl_reason = reason,
         dl_evidence = JObj [(''rail'', JStr ''native''), (''status'', JStr (status_str (po_status ord'))),
           (''attempts'', JNum (int (po_attempts ord')))],
         dl_created_at = now\<rparr>)
     (seqM (notify E (po_id ord') (''order_failed: '' @ reason))
     (seqM (audit E AT_ORDER_FAILED (JObj [(''order'', JStr (po_id ord')), (''reason'', JStr reason)]) None)
     (ret ord'))))))"

section \<open>Event roll-up\<close>

definition find_map :: "string list \<Rightarrow> payment_order list \<Rightarrow> payment_order list" where
  "find_map ids latest = List.map_filter (\<lambda>i. List.find (\<lambda>x. po_id x = i) latest) ids"

definition rollup_event :: "env \<Rightarrow> string \<Rightarrow> ('c, unit) W" where
  "rollup_event E oid =
     bnd (events E) (\<lambda>evs.
     case find_last (\<lambda>e. list_ex (\<lambda>x. po_id x = oid) (ev_orders e)) evs of
       None \<Rightarrow> ret ()
     | Some ev \<Rightarrow>
         bnd (latest_orders E) (\<lambda>latest.
         let os = find_map (map po_id (ev_orders ev)) latest in
         update_event E (ev\<lparr>ev_orders := os, ev_status := rollup os, ev_envelope := None,
           ev_signature := None, ev_signer := None\<rparr>)))"

section \<open>Crash recovery\<close>

text \<open>\<open>chrono::Duration::seconds\<close> panics outside of its range.\<close>

definition executing_expired :: "env \<Rightarrow> string \<Rightarrow> nat \<Rightarrow> ('c clock_scheme, 'f, bool) M" where
  "executing_expired E since ttl = (case parse_rfc3339 E since of
       None \<Rightarrow> ret False
     | Some t0 \<Rightarrow> bnd (utc_now E) (\<lambda>now.
         let ttl' = i64 (int ttl) in
         if \<bar>ttl'\<bar> > 9223372036854775 then panic
         else ret (now - t0 > ttl' * 1000000000)))"

definition bump :: "payment_order \<Rightarrow> payment_order" where
  "bump ord = ord\<lparr>po_attempts := (po_attempts ord + 1) mod 2 ^ 32\<rparr>"

definition requeue_one :: "env \<Rightarrow> payments_config \<Rightarrow> nat \<times> nat \<Rightarrow> payment_order \<Rightarrow> ('c, nat \<times> nat) W" where
  "requeue_one E cfg counts ord = (case po_executing_since ord of
       None \<Rightarrow> ret counts
     | Some since \<Rightarrow> bnd (executing_expired E since (cfg_executing_ttl_secs cfg)) (\<lambda>expired.
         if \<not> expired then ret counts
         else let ord' = bump ord in
           if rp_max_attempts (cfg_retry cfg) \<le> po_attempts ord'
           then bnd (mark_failed E ord' ''stuck in EXECUTING past TTL (attempts exhausted)'') (\<lambda>ord''.
             seqM (rollup_event E (po_id ord'')) (ret (fst counts, snd counts + 1)))
           else bnd (transition E NotStarted ord') (\<lambda>ord''.
             let ord3 = ord''\<lparr>po_executing_since := None, po_next_retry_at := None\<rparr> in
             seqM (update_order E ord3)
             (seqM (audit E AT_ORDER_REQUEUED (JObj [(''order'', JStr (po_id ord3)),
                (''reason'', JStr ''executing ttl exceeded'')]) None)
             (seqM (rollup_event E (po_id ord3)) (ret (fst counts + 1, snd counts)))))))"

definition requeue_stuck_executing :: "env \<Rightarrow> payments_config \<Rightarrow> ('c, nat \<times> nat) W" where
  "requeue_stuck_executing E cfg = bnd (orders_with_status E Executing) (foldM (requeue_one E cfg) (0, 0))"

section \<open>After a rail has paid\<close>

text \<open>
  The part the four rails share: the journal batch, the order, the receipt hash (not on
  the native rail), the notification and the audit entry.
\<close>

definition settle_order ::
  "env \<Rightarrow> operator_keys option \<Rightarrow> payment_order \<Rightarrow> rail_receipt \<Rightarrow> bool \<Rightarrow> bytes option \<Rightarrow>
   (payment_order \<Rightarrow> json) \<Rightarrow> ('c, payment_order) S" where
  "settle_order E signer ord receipt in_wallet receipt_hash entry =
     seqM (terminal ord (append_order_batch E (po_id ord) (po_amount ord) (po_currency ord) (po_fx ord) signer))
     (let ord1 = ord\<lparr>po_receipt := Some receipt\<rparr> in
     bnd (terminal ord1 (transition E Success ord1)) (\<lambda>ord2.
     let ord3 = ord2\<lparr>po_ledger_updated := True, po_wallet_updated := in_wallet\<rparr> in
     seqM (terminal ord3 (update_order E ord3))
     (seqM (case receipt_hash of None \<Rightarrow> ret () | Some h \<Rightarrow> terminal ord3 (record_receipt_hash E (po_id ord3) h))
     (seqM (terminal ord3 (notify E (po_id ord3) (''order_settled ('' @ direction_str (po_direction ord3) @ '')'')))
     (seqM (terminal ord3 (audit E AT_ORDER_SETTLED (entry ord3) None))
     (ret ord3))))))"

definition refuse_duplicate :: "env \<Rightarrow> payment_order \<Rightarrow> bytes \<Rightarrow> string \<Rightarrow> ('c, unit) S" where
  "refuse_duplicate E ord h msg = bnd (terminal ord (is_receipt_settled E h)) (\<lambda>dup.
     if dup then refuse ord (SettleTerminal msg) else ret ())"

definition settle_http402_success :: "env \<Rightarrow> operator_keys option \<Rightarrow> payment_order \<Rightarrow> bytes \<Rightarrow> ('c, payment_order) S" where
  "settle_http402_success E signer ord receipt = (let h = sha3_256 E receipt in
     seqM (refuse_duplicate E ord h ''duplicate settlement: receipt already settled for another order'')
     (settle_order E signer ord (Http402Receipt receipt) False (Some h)
       (\<lambda>x. JObj [(''order'', JStr (po_id x)), (''amount'', JStr (po_amount x)), (''currency'', JStr (po_currency x)),
         (''rail'', JStr ''http402''), (''to'', JStr (po_to x))])))"

definition settle_card_success ::
  "env \<Rightarrow> operator_keys option \<Rightarrow> payment_order \<Rightarrow> string \<Rightarrow> string \<Rightarrow> bytes \<Rightarrow> ('c, payment_order) S" where
  "settle_card_success E signer ord network last4 auth = (let h = sha3_256 E auth in
     seqM (refuse_duplicate E ord h ''duplicate settlement: card receipt already settled for another order'')
     (settle_order E signer ord (CardAcpReceipt network last4 auth) False (Some h)
       (\<lambda>x. JObj [(''order'', JStr (po_id x)), (''amount'', JStr (po_amount x)), (''currency'', JStr (po_currency x)),
         (''rail'', JStr ''card''), (''card_network'', JStr network), (''card_last4'', JStr last4)])))"

section \<open>The rails\<close>

definition is_http_url :: "string \<Rightarrow> bool" where
  "is_http_url s \<longleftrightarrow> starts_with ''http://'' s \<or> starts_with ''https://'' s"

text \<open>
  What the facilitator paths of the x402 and the bank rail have in common: ask the
  endpoint what it wants, sign it, check the signed payload and its amount offline.
  They differ in texts and in how an error of the middle part is classified.
\<close>

definition fetch_payload ::
  "env \<Rightarrow> payment_order \<Rightarrow> operator_keys \<Rightarrow> string \<Rightarrow> (error \<Rightarrow> settle_outcome) \<Rightarrow> string \<Rightarrow>
   ('c, payment_requirements \<times> bytes) S" where
  "fetch_payload E ord K expected classify rejected =
     bnd (or_err (\<lambda>e. (ord, x402_err e)) (http_get E (po_to ord) [] ''http402'')) (\<lambda>(status, headers, body).
     if status \<noteq> 402 then refuse ord (SettleTerminal (expected @ '', got HTTP '' @ dec status))
     else
     bnd (ok_or (header PAYMENT_REQUIRED headers)
       (ord, SettleTerminal ''402 response missing PAYMENT-REQUIRED header'')) (\<lambda>raw.
     bnd (or_err (\<lambda>e. (ord, classify e)) (result (parse_requirements E raw))) (\<lambda>req.
     bnd (or_err (\<lambda>e. (ord, classify e)) (sign_payment E (HybridSigner K) req (po_to ord))) (\<lambda>payload.
     case verify_signed_payload E payload (po_to ord) (Some (po_amount ord)) of
       VReject reason \<Rightarrow> refuse ord (SettleTerminal (rejected @ reason))
     | VAccept \<Rightarrow> ret (req, payload)))))"

definition retry_hint :: "nat option \<Rightarrow> string" where
  "retry_hint z = (case z of Some r \<Rightarrow> '' retry-after='' @ dec r @ ''s'' | None \<Rightarrow> [])"

definition text_or_empty :: "string option \<Rightarrow> string" where
  "text_or_empty z = (case z of Some s \<Rightarrow> s | None \<Rightarrow> [])"

definition settle_http402_with_facilitator ::
  "env \<Rightarrow> payment_order \<Rightarrow> operator_keys \<Rightarrow> facilitator_config \<Rightarrow> ('c, payment_order) S" where
  "settle_http402_with_facilitator E ord K fc =
     bnd (fetch_payload E ord K ''expected 402 Payment Required'' x402_err ''verify rejected: '') (\<lambda>(req, payload).
     bnd (or_err (\<lambda>e. (ord, x402_err e)) (facilitator_verify E fc payload req (po_to ord))) (\<lambda>verified.
     if \<not> verified then refuse ord (SettleTerminal ''facilitator /verify rejected the payment'')
     else
     bnd (or_err (\<lambda>e. (ord, x402_err e)) (facilitator_settle E fc payload req (po_to ord))) (\<lambda>res.
     case res of
       FSettled receipt \<Rightarrow> settle_http402_success E (Some K) ord receipt
     | FPending tx ra \<Rightarrow> refuse ord (SettleRequiresAction (''settlement_pending tx='' @ text_or_empty tx @ retry_hint ra))
     | FRejected e ra \<Rightarrow> (case ra of
           Some ra_secs \<Rightarrow> refuse ord (SettleRetryable (''facilitator /settle rejected: '' @ e @ '' (retry-after='' @ dec ra_secs @ ''s)''))
         | None \<Rightarrow> refuse ord (SettleTerminal (''facilitator /settle rejected: '' @ e))))))"

definition settle_http402 :: "env \<Rightarrow> operator_keys option \<Rightarrow> payment_order \<Rightarrow> ('c, payment_order) S" where
  "settle_http402 E signer ord =
     (if \<not> is_http_url (po_to ord)
      then refuse ord (SettleTerminal (''http402 rail: order.to must be an x402 endpoint URL, got '' @ po_to ord))
      else case signer of
        None \<Rightarrow> refuse ord (SettleTerminal (''http402 rail requires the operator identity (run origin-identity keygen) '' @
          emdash @ '' refusing to send an unsigned payment''))
      | Some K \<Rightarrow>
          bnd (or_err (\<lambda>e. (ord, x402_err e)) (load_facilitator_config E ''http402'')) (\<lambda>z. case z of
            Some fc \<Rightarrow> settle_http402_with_facilitator E ord K fc
          | None \<Rightarrow>
              bnd (or_err (\<lambda>e. (ord, x402_err e)) (x402_execute E (po_to ord) (HybridSigner K))) (\<lambda>res.
              case xo_status res of
                XSuccess \<Rightarrow> settle_http402_success E signer ord (xo_receipt res)
              | XPending tx \<Rightarrow> refuse ord (SettleRequiresAction (''settlement_pending tx='' @ text_or_empty tx))
              | XFailed e \<Rightarrow> refuse ord (SettleTerminal (case e of Some m \<Rightarrow> m | None \<Rightarrow> ''x402 payment rejected'')))))"

definition settle_card :: "env \<Rightarrow> operator_keys option \<Rightarrow> payment_order \<Rightarrow> ('c, payment_order) S" where
  "settle_card E signer ord = (case (po_card_token ord, po_card_network ord, po_card_last4 ord) of
       (Some token, Some network, Some last4) \<Rightarrow>
         bnd (or_err (\<lambda>e. (ord, card_err e)) (load_facilitator_config E ''card'')) (\<lambda>z. case z of
           None \<Rightarrow> refuse ord (SettleTerminal (''card rail not configured: run `psp-configure card --secret-file <KEY> '' @
             ''--facilitator-url <URL> --totp <code>` first''))
         | Some fc \<Rightarrow>
             bnd (or_err (\<lambda>e. (ord, card_err e)) (authorize E fc \<lparr>ca_token = token, ca_network = network, ca_last4 = last4,
               ca_amount = po_amount ord, ca_currency = po_currency ord, ca_order = po_id ord,
               ca_checkout = po_checkout ord\<rparr>)) (\<lambda>res. case res of
               CSettled auth \<Rightarrow> settle_card_success E signer ord network last4 auth
             | CPending tx \<Rightarrow> refuse ord (SettleRequiresAction (''settlement_pending tx='' @ text_or_empty tx))
             | CDeclined e \<Rightarrow> refuse ord (SettleTerminal (''card authorization declined: '' @ e))))
     | _ \<Rightarrow> refuse ord (SettleTerminal (''card rail requires the order's card tokenization '' @
         ''(order-create --card-token --card-network --card-last4); PCI out of scope '' @ emdash @
         '' a token reference, never the PAN'')))"

definition settlement_ref :: "env \<Rightarrow> bytes \<Rightarrow> string" where
  "settlement_ref E receipt = (case json_from_slice E receipt of
       Inl e \<Rightarrow> []
     | Inr j \<Rightarrow> text_or_empty (Option.bind (case json_get ''settlement_ref'' j of
           Some v \<Rightarrow> Some v | None \<Rightarrow> json_get ''transaction'' j) as_str))"

definition settle_ach :: "env \<Rightarrow> operator_keys option \<Rightarrow> payment_order \<Rightarrow> ('c, payment_order) S" where
  "settle_ach E signer ord =
     bnd (terminal ord (load_facilitator_config E ''ach'')) (\<lambda>z. case z of
       None \<Rightarrow> refuse ord (SettleTerminal (''ach rail not configured: run `psp-configure ach --secret-file <KEY> '' @
         ''--facilitator-url <URL> --totp <code>` first''))
     | Some fc \<Rightarrow>
     if \<not> is_http_url (po_to ord)
     then refuse ord (SettleTerminal (''ach rail: order.to must be an ACH facilitator URL, got '' @ po_to ord))
     else case signer of
       None \<Rightarrow> refuse ord (SettleTerminal (''ach rail requires the operator identity (run origin-identity keygen) '' @
         emdash @ '' refusing to send an unsigned payment''))
     | Some K \<Rightarrow>
     bnd (fetch_payload E ord K ''expected 402 Payment Required from ACH facilitator''
       (\<lambda>e. SettleTerminal (error_to_string e)) ''ach verify rejected: '') (\<lambda>(req, payload).
     bnd (or_err (\<lambda>e. (ord, SettleRetryable (error_to_string e))) (facilitator_verify E fc payload req (po_to ord))) (\<lambda>verified.
     if \<not> verified then refuse ord (SettleTerminal ''ACH facilitator /verify rejected the payment'')
     else
     bnd (or_err (\<lambda>e. (ord, SettleRetryable (error_to_string e))) (facilitator_settle E fc payload req (po_to ord))) (\<lambda>res.
     case res of
       FSettled receipt \<Rightarrow> (let h = sha3_256 E receipt in
         seqM (refuse_duplicate E ord h ''duplicate settlement: ACH receipt already settled for another order'')
         (settle_order E signer ord (AchReceipt (settlement_ref E receipt) receipt) False (Some h)
           (\<lambda>x. JObj [(''order'', JStr (po_id x)), (''amount'', JStr (po_amount x)),
             (''currency'', JStr (po_currency x)), (''rail'', JStr ''ach'')])))
     | FPending tx ra \<Rightarrow> refuse ord (SettleRequiresAction (''ACH settlement_pending tx='' @ text_or_empty tx @ retry_hint ra))
     | FRejected e ra \<Rightarrow> (case ra of
           Some ra_secs \<Rightarrow> refuse ord (SettleRetryable (''ACH facilitator /settle rejected: '' @ e @ '' (retry-after='' @ dec ra_secs @ ''s)''))
         | None \<Rightarrow> refuse ord (SettleTerminal (''ACH facilitator /settle rejected: '' @ e)))))))"

definition settle_native :: "env \<Rightarrow> operator_keys option \<Rightarrow> nat \<Rightarrow> payment_order \<Rightarrow> ('c, payment_order) S" where
  "settle_native E signer amount ord =
     bnd (or_err (\<lambda>e. (ord, SettleRetryable (wallet_error_to_string e)))
       (pay_sync E \<lparr>np_to = po_to ord, np_amount = amount, np_memo = str_bytes (po_checkout ord),
         np_spend_cap = Some amount, np_credit = None\<rparr>)) (\<lambda>receipt.
     bnd (or_err (\<lambda>e. (ord, SettleTerminal (''encoding native receipt: '' @ wallet_error_to_string e)))
       (result (receipt_to_bytes E receipt))) (\<lambda>encoded.
     settle_order E signer ord (NativeReceipt encoded) True None
       (\<lambda>x. JObj [(''order'', JStr (po_id x)), (''amount'', JStr (po_amount x)), (''currency'', JStr (po_currency x)),
         (''direction'', JStr (direction_str (po_direction x))), (''to'', JStr (po_to x))])))"

section \<open>Routing\<close>

definition check_cap :: "payments_config \<Rightarrow> payment_order \<Rightarrow> int \<Rightarrow> settle_outcome option" where
  "check_cap cfg ord minor = (case cfg_per_tx_cap cfg of
       None \<Rightarrow> None
     | Some cap \<Rightarrow> (case parse_amount cap of
           Inl e \<Rightarrow> Some (SettleTerminal (''bad per_tx_cap in config: '' @ cap))
         | Inr c \<Rightarrow> if minor > c
             then Some (SettleTerminal (''amount '' @ po_amount ord @ '' exceeds per-tx cap '' @ cap @
               '' (policy refusal '' @ emdash @ '' nothing sent)''))
             else None))"

definition screen :: "env \<Rightarrow> scorer option \<Rightarrow> payment_order \<Rightarrow> ('c, unit) S" where
  "screen E compliance ord = (case compliance of
       None \<Rightarrow> ret ()
     | Some score \<Rightarrow>
         bnd (terminal ord (result (score ord))) (\<lambda>v. case v of
           Accept \<Rightarrow> ret ()
         | Flag reason \<Rightarrow> terminal ord (audit E AT_ORDER_FLAGGED
             (JObj [(''order'', JStr (po_id ord)), (''flag'', JStr reason)]) None)
         | Reject reason evidence \<Rightarrow> refuse ord (SettleTerminal (''compliance rejected: '' @ reason))))"

definition route :: "env \<Rightarrow> operator_keys option \<Rightarrow> rail_hint \<Rightarrow> int \<Rightarrow> payment_order \<Rightarrow> ('c, payment_order) S" where
  "route E signer hint minor ord = (case hint of
       Native \<Rightarrow> settle_native E signer (as_u64 minor) ord
     | Http402 \<Rightarrow> settle_http402 E signer ord
     | Card \<Rightarrow> settle_card E signer ord
     | Ach \<Rightarrow> settle_ach E signer ord)"

definition settle ::
  "env \<Rightarrow> payments_config \<Rightarrow> operator_keys option \<Rightarrow> scorer option \<Rightarrow> payment_order \<Rightarrow> ('c, payment_order) S" where
  "settle E cfg signer compliance ord =
     (let hint = (case po_rail ord of Some h \<Rightarrow> h | None \<Rightarrow> Native) in
      if rail_as_str hint \<notin> set (cfg_enabled_rails cfg)
      then refuse ord (SettleTerminal (''rail '' @ rail_as_str hint @ '' is not enabled (enabled: '' @
        join '', '' (cfg_enabled_rails cfg) @ '')''))
      else case parse_amount (po_amount ord) of
        Inl e \<Rightarrow> refuse ord (SettleTerminal (''invalid amount: '' @ po_amount ord))
      | Inr minor \<Rightarrow>
          if minor < 0 then refuse ord (SettleTerminal (''negative amount: '' @ po_amount ord))
          else case check_cap cfg ord minor of
            Some so \<Rightarrow> refuse ord so
          | None \<Rightarrow> seqM (screen E compliance ord) (route E signer hint minor ord))"

section \<open>The merchant's settlement preference\<close>

definition create_payout :: "env \<Rightarrow> payment_order \<Rightarrow> string \<Rightarrow> (string \<Rightarrow> json) \<Rightarrow> ('c, unit) W" where
  "create_payout E ord amount entry =
     bnd (order_new E (po_checkout ord) (po_to ord) amount (po_currency ord)) (\<lambda>p0.
     let payout = p0\<lparr>po_direction := Payout\<rparr> in
     seqM (insert_order E payout) (audit E AT_ORDER_CREATED (entry (po_id payout)) None))"

definition apply_settlement_preference :: "env \<Rightarrow> payment_order \<Rightarrow> payments_config \<Rightarrow> ('c, unit) W" where
  "apply_settlement_preference E ord cfg = (case cfg_settlement_preference cfg of
       Hold \<Rightarrow> ret ()
     | OffRamp \<Rightarrow> create_payout E ord (po_amount ord) (\<lambda>i. JObj [(''order'', JStr i),
         (''reason'', JStr ''settlement_preference off_ramp''), (''source_order'', JStr (po_id ord))])
     | SplitPref \<Rightarrow>
         (let off_ramp_pct = 100 - int (min (cfg_split_pct cfg) 100) in
          if off_ramp_pct \<le> 0 then ret ()
          else let amount_minor = (case parse_amount (po_amount ord) of Inl e \<Rightarrow> 0 | Inr m \<Rightarrow> m);
                   payout_minor = tdiv (i128 (amount_minor * off_ramp_pct)) 100 in
            if payout_minor \<le> 0 then ret ()
            else create_payout E ord (fmt_f64_cents E payout_minor) (\<lambda>i. JObj [(''order'', JStr i),
              (''reason'', JStr ''settlement_preference split''), (''source_order'', JStr (po_id ord)),
              (''split_pct'', JNum (int (cfg_split_pct cfg))), (''off_ramp_pct'', JNum off_ramp_pct)])))"

section \<open>One pass\<close>

definition extract_retry_after_ms :: "string \<Rightarrow> nat option" where
  "extract_retry_after_ms reason =
     map_option (\<lambda>n. n * 1000 mod 2 ^ 64)
       (Option.bind (Option.bind (Option.bind
         (List.find (starts_with ''retry-after='') (split_whitespace reason))
         (strip_prefix ''retry-after='')) (strip_suffix ''s'')) (parse_unsigned u64_max))"

definition after_settle ::
  "env \<Rightarrow> payments_config \<Rightarrow> nat \<times> nat \<times> string list \<Rightarrow> (payment_order \<times> settle_outcome) + payment_order \<Rightarrow>
   ('c, payment_order \<times> nat \<times> nat \<times> string list) W" where
  "after_settle E cfg acc res = (case acc of (executed, retried, failures) \<Rightarrow> (case res of
       Inr ord \<Rightarrow>
         seqM (if po_direction ord = Payment then apply_settlement_preference E ord cfg else ret ())
         (ret (ord, executed + 1, retried, failures))
     | Inl (ord, SettleRetryable reason) \<Rightarrow>
         bnd (schedule_retry E ord reason (cfg_retry cfg) (extract_retry_after_ms reason)) (\<lambda>(ord', again).
         if again
         then ret (ord', executed, retried + 1, failures @ [po_id ord' @ '': '' @ reason @ '' (retry scheduled)''])
         else bnd (mark_failed E ord' reason) (\<lambda>ord''.
           ret (ord'', executed, retried, failures @ [po_id ord' @ '': '' @ reason])))
     | Inl (ord, SettleRequiresAction reason) \<Rightarrow>
         bnd (transition E RequiresAction ord) (\<lambda>ord'.
         seqM (update_order E ord')
         (seqM (notify E (po_id ord') (''requires_action: '' @ reason))
         (seqM (audit E AT_ORDER_FAILED (JObj [(''order'', JStr (po_id ord')), (''requires_action'', JStr reason)]) None)
         (ret (ord', executed, retried, failures @ [po_id ord @ '': '' @ reason @ '' (awaiting action)''])))))
     | Inl (ord, SettleTerminal reason) \<Rightarrow>
         bnd (mark_failed E ord reason) (\<lambda>ord'.
         ret (ord', executed, retried, failures @ [po_id ord @ '': '' @ reason]))))"

definition process_order ::
  "env \<Rightarrow> payments_config \<Rightarrow> operator_keys option \<Rightarrow> scorer option \<Rightarrow> nat \<times> nat \<times> string list \<Rightarrow> payment_order \<Rightarrow>
   ('c, nat \<times> nat \<times> string list) W" where
  "process_order E cfg operator compliance acc ord =
     bnd (transition E Executing ord) (\<lambda>ord1.
     bnd (now_rfc3339 E) (\<lambda>since.
     let ord2 = bump (ord1\<lparr>po_executing_since := Some since\<rparr>) in
     seqM (update_order E ord2)
     (bnd (outcome (settle E cfg operator compliance ord2)) (\<lambda>res.
     bnd (after_settle E cfg acc res) (\<lambda>(ord3, acc').
     seqM (rollup_event E (po_id ord3)) (ret acc'))))))"

definition deferred_pass :: "env \<Rightarrow> payments_config \<Rightarrow> ('c, nat) W" where
  "deferred_pass E cfg =
     (if cfg_deferred_enabled cfg
      then bnd (deferred_commitments E) (\<lambda>pending.
        if pending = [] then ret 0
        else bnd (utc_now E) (\<lambda>t. seqM (commit_deferred_batch E (ymd E t)) (ret 1)))
      else ret 0)"

definition is_due :: "string \<Rightarrow> payment_order \<Rightarrow> bool" where
  "is_due now ord = (case po_next_retry_at ord of None \<Rightarrow> False | Some deadline \<Rightarrow> deadline \<le> now)"

definition ready_orders :: "env \<Rightarrow> string \<Rightarrow> ('c, payment_order list) W" where
  "ready_orders E now =
     bnd (orders_with_status E NotStarted) (\<lambda>fresh.
     bnd (orders_with_status E Failed) (\<lambda>failed.
     ret (fresh @ filter (is_due now) failed)))"

definition pass_note :: "nat \<Rightarrow> nat \<Rightarrow> nat \<Rightarrow> string list \<Rightarrow> nat \<Rightarrow> nat \<Rightarrow> string" where
  "pass_note ready executed retried failures batches ttl_dlq =
     (if failures = []
      then if executed = 0 then ''no orders were ready'' else ''settled '' @ dec executed @ '' order(s)''
      else ''settled '' @ dec executed @ '' of '' @ dec ready @ '' (retried '' @ dec retried @ ''); '' @
        join ''; '' failures) @
     (if 0 < batches then '' (deferred batch committed)'' else []) @
     (if 0 < ttl_dlq then '' (TTL sweep DLQ'd '' @ dec ttl_dlq @ '' stuck order(s))'' else [])"

definition open_wallet :: "env \<Rightarrow> codec \<Rightarrow> string \<Rightarrow> string \<Rightarrow> ('c, unit) W" where
  "open_wallet E C path passphrase =
     bnd (or_err (\<lambda>e. WalletErr (''opening '' @ path @ '': '' @ wallet_error_to_string e)) (wallet_open E C passphrase))
     (\<lambda>w. modify (\<lambda>s. s\<lparr>wal := w\<rparr>))"

definition run_once ::
  "env \<Rightarrow> codec \<Rightarrow> string \<Rightarrow> string \<Rightarrow> operator_keys option \<Rightarrow> scorer option \<Rightarrow> ('c, executor_summary) W" where
  "run_once E C path passphrase operator compliance =
     seqM (open_wallet E C path passphrase)
     (bnd (load_config E) (\<lambda>cfg.
     bnd (now_rfc3339 E) (\<lambda>now.
     bnd (requeue_stuck_executing E cfg) (\<lambda>(recovered, ttl_dlq).
     bnd (deferred_pass E cfg) (\<lambda>batches.
     bnd (ready_orders E now) (\<lambda>ready.
     bnd (foldM (process_order E cfg operator compliance) (0, 0, []) ready) (\<lambda>(executed, retried, failures).
     seqM (or_err (\<lambda>e. WalletErr (''saving wallet after pass: '' @ wallet_error_to_string e)) (wallet_save E C passphrase))
     (ret \<lparr>es_ready = length ready, es_executed = executed, es_retried = retried, es_recovered = recovered,
       es_deferred_batches = batches,
       es_note = pass_note (length ready) executed retried failures batches ttl_dlq\<rparr>))))))))"

end
