(* ===== verification/Webhook.thy ===== *)
theory Webhook
  imports Executor
begin

unbundle bit_operations_syntax

text \<open>
  \<open>origin-payments/src/webhook.rs\<close>: the receiver of settlement callbacks. A connection is
  what its peer sends before it stops, how it stops, and whether the response can be
  written; the value of \<open>handle_connection\<close> is the response that was written.
\<close>

section \<open>Reading a request\<close>

record conn =
  cn_in :: bytes
  cn_stop :: "string option"
  cn_out :: "string option"

text \<open>Well-formed UTF-8.\<close>

definition tail_byte :: "byte \<Rightarrow> bool" where
  "tail_byte b \<longleftrightarrow> 0x80 \<le> b \<and> b \<le> 0xBF"

fun utf8_valid :: "bytes \<Rightarrow> bool" where
  "utf8_valid [] = True"
| "utf8_valid (a # s) =
     (if a < 0x80 then utf8_valid s
      else (case s of [] \<Rightarrow> False | b # s1 \<Rightarrow>
        if 0xC2 \<le> a \<and> a \<le> 0xDF then tail_byte b \<and> utf8_valid s1
        else (case s1 of [] \<Rightarrow> False | c # s2 \<Rightarrow>
          if 0xE0 \<le> a \<and> a \<le> 0xEF
          then tail_byte b \<and> (a = 0xE0 \<longrightarrow> 0xA0 \<le> b) \<and> (a = 0xED \<longrightarrow> b \<le> 0x9F) \<and> tail_byte c \<and> utf8_valid s2
          else (case s2 of [] \<Rightarrow> False | d # s3 \<Rightarrow>
            0xF0 \<le> a \<and> a \<le> 0xF4 \<and> tail_byte b \<and> (a = 0xF0 \<longrightarrow> 0x90 \<le> b) \<and> (a = 0xF4 \<longrightarrow> b \<le> 0x8F) \<and>
            tail_byte c \<and> tail_byte d \<and> utf8_valid s3))))"

definition bytes_str :: "bytes \<Rightarrow> string" where
  "bytes_str b = map (\<lambda>x. char_of (unat x)) b"

text \<open>Up to and including the next line feed.\<close>

fun take_line :: "bytes \<Rightarrow> (bytes \<times> bytes) option" where
  "take_line [] = None"
| "take_line (b # bs) = (if b = 10 then Some ([b], bs)
     else map_option (\<lambda>(l, rest). (b # l, rest)) (take_line bs))"

definition as_line :: "string \<Rightarrow> conn \<Rightarrow> bytes \<Rightarrow> bytes \<Rightarrow> error + string \<times> conn" where
  "as_line what c l rest = (if utf8_valid l then Inr (bytes_str l, c\<lparr>cn_in := rest\<rparr>)
     else Inl (IoError (what @ '': stream did not contain valid UTF-8'')))"

definition read_line :: "string \<Rightarrow> conn \<Rightarrow> error + string \<times> conn" where
  "read_line what c = (case take_line (cn_in c) of
       Some (l, rest) \<Rightarrow> as_line what c l rest
     | None \<Rightarrow> (case cn_stop c of
           Some e \<Rightarrow> Inl (IoError (what @ '': '' @ e))
         | None \<Rightarrow> as_line what c (cn_in c) []))"

lemma take_line_split: "take_line bs = Some (l, rest) \<Longrightarrow> bs = l @ rest \<and> l \<noteq> []"
  by (induction bs arbitrary: l) (auto split: if_splits)

lemma take_line_shrinks: "take_line bs = Some (l, rest) \<Longrightarrow> length rest < length bs"
  by (drule take_line_split) auto

lemma trim_Nil [simp]: "trim [] = []"
  by (simp add: trim_def trim_start.simps [of "[]"] trim_end.simps [of "[]"])

lemma read_line_shrinks:
  assumes "read_line what c = Inr (l, c')" "trim l \<noteq> []"
  shows "length (cn_in c') < length (cn_in c)"
proof (cases "take_line (cn_in c)")
  case None
  with assms show ?thesis by (auto simp: read_line_def as_line_def bytes_str_def split: option.splits if_splits)
next
  case (Some p)
  then obtain a rest where p: "take_line (cn_in c) = Some (a, rest)" by (cases p) auto
  with assms(1) have "cn_in c' = rest" by (auto simp: read_line_def as_line_def split: if_splits)
  with take_line_shrinks [OF p] show ?thesis by simp
qed

text \<open>The header lines: a declared length that does not parse counts as 0; the last of several headers wins.\<close>

definition note_header :: "string \<times> string \<Rightarrow> nat \<times> string option \<Rightarrow> nat \<times> string option" where
  "note_header kv acc = (case kv of (k, v) \<Rightarrow> case acc of (len, sig) \<Rightarrow>
     let key = to_ascii_lowercase (trim k); val = trim v in
     if key = ''content-length'' then ((case parse_unsigned u64_max val of None \<Rightarrow> 0 | Some n \<Rightarrow> n), sig)
     else if key = ''x-signature'' then (len, Some val)
     else (len, sig))"

function read_headers :: "conn \<Rightarrow> nat \<times> string option \<Rightarrow> error + (nat \<times> string option) \<times> conn" where
  "read_headers c acc = (case read_line ''reading header'' c of
       Inl e \<Rightarrow> Inl e
     | Inr (raw, c') \<Rightarrow>
         if trim raw = [] then Inr (acc, c')
         else (case split_once (CHR '':'') (trim raw) of
             None \<Rightarrow> read_headers c' acc
           | Some kv \<Rightarrow> read_headers c' (note_header kv acc)))"
  by pat_completeness auto
termination
  by (relation "measure (\<lambda>(c, acc). length (cn_in c))") (auto dest: read_line_shrinks)

declare read_headers.simps [simp del]

text \<open>\<open>vec![0; n]\<close> panics above \<open>isize::MAX\<close>; then \<open>read_exact\<close>.\<close>

definition read_body :: "nat \<Rightarrow> conn \<Rightarrow> error exn + bytes" where
  "read_body n c = (if 2 ^ 63 \<le> n then Inl Panic
     else if n \<le> length (cn_in c) then Inr (take n (cn_in c))
     else Inl (Err (IoError (''reading body: '' @
       (case cn_stop c of Some e \<Rightarrow> e | None \<Rightarrow> ''failed to fill whole buffer'')))))"

section \<open>Authentication\<close>

definition key_padded :: "env \<Rightarrow> bytes \<Rightarrow> bytes" where
  "key_padded E key = (if 64 < length key then sha3_256 E key @ replicate 32 0
     else key @ replicate (64 - length key) 0)"

definition hmac_sha3_256 :: "env \<Rightarrow> bytes \<Rightarrow> bytes \<Rightarrow> bytes" where
  "hmac_sha3_256 E key message =
     (let kp = key_padded E key; ipad = map (\<lambda>b. b XOR 0x36) kp; opad = map (\<lambda>b. b XOR 0x5c) kp;
          inner_hash = sha3_256 E (ipad @ message) in
      sha3_256 E (opad @ inner_hash))"

definition constant_time_eq :: "bytes \<Rightarrow> bytes \<Rightarrow> bool" where
  "constant_time_eq a b = (if length a \<noteq> length b then False
     else foldl (\<lambda>diff (x, y). diff OR (x XOR y)) 0 (zip a b) = 0)"

section \<open>Callbacks\<close>

record settlement_callback =
  sc_order :: string
  sc_status :: string
  sc_receipt :: "string option"
  sc_settlement_ref :: "string option"
  sc_timestamp :: string

definition read_callback :: "json \<Rightarrow> settlement_callback option" where
  "read_callback j =
     (case struct_values [''order_id'', ''status'', ''receipt'', ''settlement_ref'', ''timestamp''] j of
        Some [i, st, r, sr, ts] \<Rightarrow> (case (str_field i, str_field st, opt_str r, opt_str sr, str_field ts) of
            (Some i', Some st', Some r', Some sr', Some ts') \<Rightarrow>
              Some \<lparr>sc_order = i', sc_status = st', sc_receipt = r', sc_settlement_ref = sr', sc_timestamp = ts'\<rparr>
          | _ \<Rightarrow> None)
      | _ \<Rightarrow> None)"

definition callback_settled :: "env \<Rightarrow> settlement_callback \<Rightarrow> payment_order \<Rightarrow> ('c, unit) W" where
  "callback_settled E cb ord =
     bnd (transition E NotStarted ord) (\<lambda>ord1.
     let ord2 = ord1\<lparr>po_executing_since := None, po_next_retry_at := None\<rparr> in
     seqM (update_order E ord2)
     (seqM (notify E (po_id ord2) (''webhook settled (ref: '' @
         (case sc_settlement_ref cb of None \<Rightarrow> ''none'' | Some r \<Rightarrow> r) @ '')''))
     (audit E AT_ORDER_REQUEUED (JObj [(''order'', JStr (po_id ord2)), (''reason'', JStr ''webhook settled''),
         (''settlement_ref'', JOpt JStr (sc_settlement_ref cb))]) None)))"

definition callback_failed :: "env \<Rightarrow> settlement_callback \<Rightarrow> payment_order \<Rightarrow> ('c, unit) W" where
  "callback_failed E cb ord =
     bnd (transition E Failed ord) (\<lambda>ord1.
     seqM (update_order E ord1)
     (bnd (now_rfc3339 E) (\<lambda>now.
     append_dlq E \<lparr>dl_order = po_id ord1,
       dl_reason = ''webhook failed: '' @ (case sc_settlement_ref cb of None \<Rightarrow> ''no ref'' | Some r \<Rightarrow> r),
       dl_evidence = JObj [(''settlement_ref'', JOpt JStr (sc_settlement_ref cb)), (''timestamp'', JStr (sc_timestamp cb))],
       dl_created_at = now\<rparr>)))"

definition process_callback :: "env \<Rightarrow> settlement_callback \<Rightarrow> ('c, unit) W" where
  "process_callback E cb = bnd (get_order E (sc_order cb)) (\<lambda>ord.
     seqM (guard (po_status ord = RequiresAction) (InvalidAmount (''order '' @ sc_order cb @
         '' is not in REQUIRES_ACTION (current: '' @ status_str (po_status ord) @ '')'')))
     (if sc_status cb = ''settled'' then callback_settled E cb ord
      else if sc_status cb = ''failed'' then callback_failed E cb ord
      else fail (InvalidAmount (''unknown callback status: '' @ sc_status cb))))"

section \<open>A connection\<close>

definition send_response :: "conn \<Rightarrow> nat \<Rightarrow> string \<Rightarrow> ('s, error, nat \<times> bytes) M" where
  "send_response c status body = (case cn_out c of
       Some e \<Rightarrow> fail (IoError (''writing response: '' @ e))
     | None \<Rightarrow> ret (status, str_bytes (''HTTP/1.1 '' @ dec status @ '' OK'' @ crlf @ ''Content-Type: application/json'' @ crlf @
         ''Content-Length: '' @ dec (length body) @ crlf @ crlf @ body)))"

definition error_body :: "string \<Rightarrow> string" where
  "error_body e = ''{'' @ [CHR 0x22] @ ''error'' @ [CHR 0x22] @ '':'' @ [CHR 0x22] @ e @ [CHR 0x22] @ ''}''"

definition ok_body :: string where
  "ok_body = ''{'' @ [CHR 0x22] @ ''ok'' @ [CHR 0x22] @ '':true}''"

definition is_callback_request :: "string \<Rightarrow> bool" where
  "is_callback_request line = (let parts = split_whitespace line in
     2 \<le> length parts \<and> parts ! 0 = ''POST'' \<and> parts ! 1 = ''/settlement-callback'')"

text \<open>Everything up to the parsed callback, or the refusal that ends the connection.\<close>

definition read_request :: "env \<Rightarrow> conn \<Rightarrow> error exn + (bytes \<times> string option \<times> settlement_callback) option" where
  "read_request E c = (case read_line ''reading request line'' c of
       Inl e \<Rightarrow> Inl (Err e)
     | Inr (line, c1) \<Rightarrow> if \<not> is_callback_request line then Inr None
         else (case read_headers c1 (0, None) of
             Inl e \<Rightarrow> Inl (Err e)
           | Inr ((len, sig), c2) \<Rightarrow> (case read_body len c2 of
                 Inl z \<Rightarrow> Inl z
               | Inr body \<Rightarrow> (case from_slice E ''SettlementCallback'' read_callback body of
                     Inl e \<Rightarrow> Inl (Err (InvalidAmount (''bad callback JSON: '' @ e)))
                   | Inr cb \<Rightarrow> Inr (Some (body, sig, cb))))))"

definition signature_ok :: "env \<Rightarrow> bytes \<Rightarrow> bytes \<Rightarrow> string option \<Rightarrow> bool" where
  "signature_ok E secret body sig = (case sig of None \<Rightarrow> False
     | Some s \<Rightarrow> constant_time_eq (str_bytes s) (str_bytes (hex_encode (hmac_sha3_256 E secret body))))"

text \<open>\<open>num_seconds().abs() > 300\<close> of the distance to the clock; a timestamp that does not parse is not checked.\<close>

definition is_stale :: "env \<Rightarrow> int \<Rightarrow> string \<Rightarrow> bool" where
  "is_stale E now ts = (case parse_rfc3339 E ts of None \<Rightarrow> False
     | Some t \<Rightarrow> 300 < \<bar>tdiv (now - t) 1000000000\<bar>)"

definition clock_if :: "env \<Rightarrow> bool \<Rightarrow> ('c clock_scheme, 'f, int) M" where
  "clock_if E b = (if b then utc_now E else ret 0)"

definition handle_connection :: "env \<Rightarrow> conn \<Rightarrow> ('c, nat \<times> bytes) W" where
  "handle_connection E c = (case read_request E c of
       Inl z \<Rightarrow> throw z
     | Inr None \<Rightarrow> send_response c 404 (error_body ''not found'')
     | Inr (Some (body, sig, cb)) \<Rightarrow>
         bnd (outcome (load_secret E ''webhook'')) (\<lambda>secret.
         if (case secret of Inl _ \<Rightarrow> False | Inr k \<Rightarrow> \<not> signature_ok E k body sig)
         then send_response c 401 (error_body ''invalid signature'')
         else bnd (clock_if E (parse_rfc3339 E (sc_timestamp cb) \<noteq> None)) (\<lambda>now.
         if is_stale E now (sc_timestamp cb)
         then send_response c 401 (error_body ''callback timestamp too old (>5 min)'')
         else bnd (outcome (process_callback E cb)) (\<lambda>res. case res of
             Inr _ \<Rightarrow> send_response c 200 ok_body
           | Inl e \<Rightarrow> send_response c 400 (error_body (error_to_string e))))))"

text \<open>The accept loop prints errors and goes on; a panic ends it.\<close>

fun listen :: "env \<Rightarrow> conn list \<Rightarrow> ('c, unit) W" where
  "listen E [] = ret ()"
| "listen E (c # cs) = bnd (outcome (handle_connection E c)) (\<lambda>_. listen E cs)"

section \<open>The comparison and the code\<close>

lemma xor_zero_iff: "x XOR y = 0 \<longleftrightarrow> x = y" for x y :: byte
  by (auto simp: bit_eq_iff bit_xor_iff)

lemma or_fold_zero: "foldl (\<lambda>diff (x, y). diff OR (x XOR y)) d (zip a b) = 0 \<longleftrightarrow>
    d = 0 \<and> (\<forall>(x, y) \<in> set (zip a b). x = (y :: byte))"
proof (induction "zip a b" arbitrary: a b d)
  case (Cons p ps)
  then obtain x a' y b' where ab: "a = x # a'" "b = y # b'" "p = (x, y)" "ps = zip a' b'"
    by (cases a; cases b) auto
  have "d OR (x XOR y) = 0 \<longleftrightarrow> d = 0 \<and> x = y"
    using xor_zero_iff [of x y] by (simp add: or_eq_0_iff)
  with Cons(1) [OF ab(4)] ab show ?case by auto
qed auto

lemma zip_eq_iff: "length a = length b \<Longrightarrow> (\<forall>(x, y) \<in> set (zip a b). x = y) \<longleftrightarrow> a = b"
  by (induction a b rule: list_induct2) auto

lemma constant_time_eq_iff [simp]: "constant_time_eq a b \<longleftrightarrow> a = b"
  by (auto simp: constant_time_eq_def or_fold_zero zip_eq_iff)

text \<open>HMAC over a hash \<open>H\<close> with block size \<open>B\<close>, as RFC 2104 defines it.\<close>

definition hmac :: "(bytes \<Rightarrow> bytes) \<Rightarrow> nat \<Rightarrow> bytes \<Rightarrow> bytes \<Rightarrow> bytes" where
  "hmac H B key m = (let k0 = (if B < length key then H key else key); k = k0 @ replicate (B - length k0) 0 in
     H (map (\<lambda>b. b XOR 0x5c) k @ H (map (\<lambda>b. b XOR 0x36) k @ m)))"

lemma hmac_block_64: "digests32 E \<Longrightarrow> hmac_sha3_256 E key m = hmac (sha3_256 E) 64 key m"
  by (simp add: hmac_sha3_256_def hmac_def key_padded_def digests32_def Let_def)

section \<open>What a connection does\<close>

lemma signature_ok_iff:
  "signature_ok E k body sig \<longleftrightarrow> sig = Some (hex_encode (hmac_sha3_256 E k body))"
  by (auto simp: signature_ok_def str_bytes_inj split: option.splits)

lemma load_secret_known:
  assumes "map_of (f_secrets s) rail = Some k"
  shows "load_secret E rail s = (case env_faults E (n_io s) of None \<Rightarrow> Inr k
     | Some z \<Rightarrow> Inl (Err (IoError (''reading '' @ path_of E (''psp_vault/'' @ rail @ ''.secret'') @ '': '' @ fault_text z))),
     s\<lparr>n_io := n_io s + 1\<rparr>)"
  using assms by (simp add: load_secret_def vault_read_def bnd_def gets_def ret_def split: option.splits)

lemma unsigned_refused:
  assumes "map_of (f_secrets s) ''webhook'' = Some k" "env_faults E (n_io s) = None"
    and "read_request E c = Inr (Some (body, sig, cb))" "sig \<noteq> Some (hex_encode (hmac_sha3_256 E k body))"
  shows "handle_connection E c s = send_response c 401 (error_body ''invalid signature'') (s\<lparr>n_io := n_io s + 1\<rparr>)"
  using assms by (simp add: handle_connection_def bnd_def outcome_def load_secret_known signature_ok_iff)

lemma only_counters: "\<exists>m n. s\<lparr>n_io := k\<rparr> = s\<lparr>n_io := m, n_time := n\<rparr>" "\<exists>m n. s = s\<lparr>n_io := m, n_time := n\<rparr>"
  for s :: "'c clock_scheme"
  by (rule exI [of _ k], rule exI [of _ "n_time s"], simp) (rule exI [of _ "n_io s"], rule exI [of _ "n_time s"], simp)

section \<open>Properties\<close>

text \<open>
  C12: Callbacks are authenticated. While the vault holds a webhook secret and can be read,
  a connection changes nothing in the store (only the count of file operations) unless
  its request carries the hexadecimal HMAC of its body under that secret and its
  timestamp, if it is one, is less than 301 seconds from the clock.
\<close>

theorem callback_authenticated:
  assumes "digests32 E" "map_of (f_secrets s) ''webhook'' = Some k" "env_faults E (n_io s) = None"
    and "handle_connection E c s = (r, t)"
  shows "(\<exists>m n. t = s\<lparr>n_io := m, n_time := n\<rparr>) \<or>
    (\<exists>body cb. read_request E c = Inr (Some (body, Some (hex_encode (hmac (sha3_256 E) 64 k body)), cb)) \<and>
      \<not> is_stale E (env_time E (n_time s)) (sc_timestamp cb))"
proof -
  have resp: "t' = s'" if "send_response c st b s' = (r', t')" for st b s' r' t'
    using that by (auto simp: send_response_def ret_def split: option.splits)
  consider z where "read_request E c = Inl z" | "read_request E c = Inr None"
    | body sig cb where "read_request E c = Inr (Some (body, sig, cb))"
    by (metis option.exhaust prod_cases3 sum.exhaust)
  then show ?thesis
  proof cases
    case 1
    then have "t = s" using assms(4) by (simp add: handle_connection_def throw_def)
    then show ?thesis using only_counters(2) by blast
  next
    case 2
    then have "t = s" using assms(4) resp by (simp add: handle_connection_def)
    then show ?thesis using only_counters(2) by blast
  next
    case (3 body sig cb)
    show ?thesis
    proof (cases "sig = Some (hex_encode (hmac_sha3_256 E k body))")
      case False
      then have "t = s\<lparr>n_io := n_io s + 1\<rparr>" using unsigned_refused [OF assms(2,3) 3] assms(4) resp by metis
      then show ?thesis using only_counters(1) by blast
    next
      case True
      let ?now = "env_time E (n_time s)"
      show ?thesis
      proof (cases "is_stale E ?now (sc_timestamp cb)")
        case stale: True
        then have "send_response c 401 (error_body ''callback timestamp too old (>5 min)'')
            (s\<lparr>n_io := n_io s + 1, n_time := n_time s + 1\<rparr>) = (r, t)"
          using assms(2-4) 3 True
          by (auto simp: handle_connection_def bnd_def outcome_def load_secret_known signature_ok_iff clock_if_def is_stale_def
              split: option.splits)
        from resp [OF this] show ?thesis by blast
      qed (use 3 True hmac_block_64 [OF assms(1)] in simp)
    qed
  qed
qed

text \<open>A connection that sends \<open>req\<close> and closes.\<close>

definition example_conn :: "bytes \<Rightarrow> conn" where
  "example_conn req = \<lparr>cn_in = req, cn_stop = None, cn_out = None\<rparr>"

theorem callback_authenticated_witness:
  "\<exists>m n. snd (handle_connection example_env (example_conn (str_bytes ''GET /'')) (empty_world\<lparr>f_secrets := [(''webhook'', [1])]\<rparr>)) =
    (empty_world\<lparr>f_secrets := [(''webhook'', [1])]\<rparr>)\<lparr>n_io := m, n_time := n\<rparr>"
proof -
  let ?c = "example_conn (str_bytes ''GET /'')" and ?s = "empty_world\<lparr>f_secrets := [(''webhook'', [1])]\<rparr>"
  obtain r t where run: "handle_connection example_env ?c ?s = (r, t)" by fastforce
  have "read_line ''reading request line'' ?c = Inr (''GET /'', example_conn [])" "\<not> is_callback_request ''GET /''"
    by code_simp+
  then have "read_request example_env ?c = Inr None" by (simp add: read_request_def)
  with callback_authenticated [OF example_env_digests _ _ run, of "[1]"] run show ?thesis
    by (auto simp: example_env_def)
qed

text \<open>A request that declares a body of \<open>2 ^ 63\<close> bytes.\<close>

definition bomb_line :: string where
  "bomb_line = ''Content-Length: 9223372036854775808''"

definition length_bomb :: bytes where
  "length_bomb = str_bytes (''POST /settlement-callback HTTP/1.1'' @ [CHR 0x0A] @ bomb_line @ [CHR 0x0A, CHR 0x0A])"

lemma bomb_lines:
  "read_line w (example_conn length_bomb) = Inr (''POST /settlement-callback HTTP/1.1'' @ [CHR 0x0A],
     example_conn (str_bytes (bomb_line @ [CHR 0x0A, CHR 0x0A])))"
  "read_line w (example_conn (str_bytes (bomb_line @ [CHR 0x0A, CHR 0x0A]))) =
     Inr (bomb_line @ [CHR 0x0A], example_conn (str_bytes [CHR 0x0A]))"
  "read_line w (example_conn (str_bytes [CHR 0x0A])) = Inr ([CHR 0x0A], example_conn [])"
  by code_simp+

lemma bomb_words:
  "is_callback_request (''POST /settlement-callback HTTP/1.1'' @ [CHR 0x0A])"
  "trim (bomb_line @ [CHR 0x0A]) = bomb_line" "trim [CHR 0x0A] = []" "bomb_line \<noteq> []"
  "split_once (CHR '':'') bomb_line = Some (''Content-Length'', '' 9223372036854775808'')"
  "to_ascii_lowercase (trim ''Content-Length'') = ''content-length''" "trim '' 9223372036854775808'' = ''9223372036854775808''"
  by code_simp+

lemma bomb_length: "note_header (''Content-Length'', '' 9223372036854775808'') (0, None) = (2 ^ 63, None)"
proof -
  have "parse_unsigned u64_max ''9223372036854775808'' = Some (2 ^ 63)"
    by (simp add: parse_unsigned_def digits_val_def is_digit_def digit_val_def u64_max_def)
  then show ?thesis by (simp add: note_header_def bomb_words Let_def)
qed

lemma bomb_headers:
  "read_headers (example_conn (str_bytes (bomb_line @ [CHR 0x0A, CHR 0x0A]))) (0, None) = Inr ((2 ^ 63, None), example_conn [])"
proof -
  have "read_headers (example_conn (str_bytes [CHR 0x0A])) acc = Inr (acc, example_conn [])" for acc
    by (subst read_headers.simps) (simp add: bomb_lines(3) bomb_words(3))
  then show ?thesis
    by (subst read_headers.simps) (simp only: bomb_lines(2) bomb_words bomb_length sum.case prod.case option.case if_False)
qed


end
