(* ===== verification/Pass.thy ===== *)
theory Pass
  imports Webhook
begin

text \<open>
  What every pass of \<open>executor.rs\<close> keeps, whatever fails on the way. The locale \<open>settle_rel\<close>
  is the contract of a relation between states: reflexive, transitive, and kept by the
  single writes of the store, the journal and the audit stream. Inside it, each function
  of the executor keeps the relation. It is interpreted on the chained growth of the
  journal, on that of the audit stream, and on the growth of the other logs.
\<close>

section \<open>Case analysis\<close>

lemma keeps_outcomes:
  "(\<And>r. keeps R (f r)) \<Longrightarrow> (\<And>tx ra. keeps R (g tx ra)) \<Longrightarrow> (\<And>e ra. keeps R (h e ra)) \<Longrightarrow>
   keeps R (case fo of FSettled r \<Rightarrow> f r | FPending tx ra \<Rightarrow> g tx ra | FRejected e ra \<Rightarrow> h e ra)"
  "keeps R xa \<Longrightarrow> (\<And>tx. keeps R (xg tx)) \<Longrightarrow> (\<And>e. keeps R (xh e)) \<Longrightarrow>
   keeps R (case xo of XSuccess \<Rightarrow> xa | XPending tx \<Rightarrow> xg tx | XFailed e \<Rightarrow> xh e)"
  "(\<And>r. keeps R (cf r)) \<Longrightarrow> (\<And>tx. keeps R (cg tx)) \<Longrightarrow> (\<And>e. keeps R (ch e)) \<Longrightarrow>
   keeps R (case co of CSettled r \<Rightarrow> cf r | CPending tx \<Rightarrow> cg tx | CDeclined e \<Rightarrow> ch e)"
  "keeps R va \<Longrightarrow> (\<And>e. keeps R (vr e)) \<Longrightarrow> keeps R (case vv of VAccept \<Rightarrow> va | VReject e \<Rightarrow> vr e)"
  "keeps R aa \<Longrightarrow> (\<And>e. keeps R (af e)) \<Longrightarrow> (\<And>e ev. keeps R (ar e ev)) \<Longrightarrow>
   keeps R (case cv of Accept \<Rightarrow> aa | Flag e \<Rightarrow> af e | Reject e ev \<Rightarrow> ar e ev)"
  "(\<And>e. keeps R (sr e)) \<Longrightarrow> (\<And>e. keeps R (st e)) \<Longrightarrow> (\<And>e. keeps R (sa e)) \<Longrightarrow>
   keeps R (case so of SettleRetryable e \<Rightarrow> sr e | SettleTerminal e \<Rightarrow> st e | SettleRequiresAction e \<Rightarrow> sa e)"
  by (simp_all split: facilitator_outcome.split x402_status.split card_auth_outcome.split verify_verdict.split
      compliance_verdict.split settle_outcome.split)

lemma keeps_choices:
  "keeps R m1 \<Longrightarrow> keeps R m2 \<Longrightarrow> keeps R m3 \<Longrightarrow> keeps R m4 \<Longrightarrow>
   keeps R (case hint of Native \<Rightarrow> m1 | Http402 \<Rightarrow> m2 | Card \<Rightarrow> m3 | Ach \<Rightarrow> m4)"
  "keeps R n1 \<Longrightarrow> keeps R n2 \<Longrightarrow> keeps R n3 \<Longrightarrow>
   keeps R (case sp of Hold \<Rightarrow> n1 | OffRamp \<Rightarrow> n2 | SplitPref \<Rightarrow> n3)"
  "(\<And>x. keeps R (l1 x)) \<Longrightarrow> (\<And>x. keeps R (l2 x)) \<Longrightarrow> (\<And>x. keeps R (l3 x)) \<Longrightarrow> (\<And>i x. keeps R (l4 i x)) \<Longrightarrow>
   keeps R (case fl of OpenErr x \<Rightarrow> l1 x | WriteErr x \<Rightarrow> l2 x | FlushErr x \<Rightarrow> l3 x | Corrupt i x \<Rightarrow> l4 i x)"
  by (simp_all split: rail_hint.split settlement_preference.split fault.split)

section \<open>The interface\<close>

lemmas preorder_rules = state_preorder.ret_ok state_preorder.gets_ok state_preorder.bnd_ok state_preorder.seqM_ok
  state_preorder.fail_ok state_preorder.result_ok state_preorder.unwrap_ok state_preorder.ok_or_ok state_preorder.guard_ok
  keeps_if keeps_option keeps_let or_err_keeps keeps_modify utc_now_keeps now_rfc3339_keeps

lemma pay_sync_keeps:
  assumes "state_preorder R" "clock_ok R" "\<And>s w. R s (s\<lparr>wal := w\<rparr>)"
  shows "keeps R (pay_sync E p)"
proof -
  have "keeps R (update_balance E i v)" for i v
    unfolding update_balance_def touch_def by (intro preorder_rules assms)
  then show ?thesis
    unfolding pay_sync_def check_spend_def roll_spend_windows_def pay_debit_def pay_record_def transaction_new_def
      add_transaction_def record_spend_def touch_def
    by (intro preorder_rules assms)
qed

locale settle_rel = state_preorder R for R :: "'c world_scheme \<Rightarrow> 'c world_scheme \<Rightarrow> bool" +
  fixes E :: env
  assumes clock: "clock_ok R"
    and pay_step: "keeps R (pay_sync E p)"
    and order_step: "R s (s\<lparr>f_orders := f_orders s @ [x]\<rparr>)"
    and event_step: "R s (s\<lparr>f_events := f_events s @ [ev]\<rparr>)"
    and retry_step: "R s (s\<lparr>f_retry := f_retry s @ [j]\<rparr>)"
    and dlq_step: "R s (s\<lparr>f_dlq := f_dlq s @ [dl]\<rparr>)"
    and notification_step: "R s (s\<lparr>f_notifications := f_notifications s @ [n]\<rparr>)"
    and receipt_step: "R s (s\<lparr>f_receipts := f_receipts s @ [h]\<rparr>)"
    and batch_step: "R s (s\<lparr>f_batches := f_batches s @ [b]\<rparr>)"
    and mmr_step: "R s (s\<lparr>f_mmr := m\<rparr>)"
    and deferred_step: "R s (s\<lparr>f_deferred := []\<rparr>)"
    and defer_step: "R s (s\<lparr>f_deferred := f_deferred s @ [it]\<rparr>)"
    and journal_step: "keeps R (append_order_batch E i a c fx signer)"
    and audit_step: "keeps R (audit E ty payload keys)"
begin

lemmas axiom_rules = state_preorder_axioms clock pay_step order_step event_step retry_step dlq_step
  notification_step receipt_step batch_step mmr_step deferred_step defer_step journal_step audit_step

lemmas basic_rules = ret_ok throw_ok gets_ok bnd_ok seqM_ok foldM_ok fail_ok panic_ok result_ok unwrap_ok ok_or_ok guard_ok
  keeps_if keeps_option keeps_sum keeps_prod keeps_let or_err_keeps outcome_keeps keeps_modify
  utc_now_keeps now_rfc3339_keeps new_uuid_keeps next_fault_keeps fill_random_keeps

lemma notify_keeps: "keeps R (notify E i ev)"
  unfolding notify_def by (intro basic_rules append_notification_keeps axiom_rules)

lemma mark_failed_keeps: "keeps R (mark_failed E ord reason)"
  unfolding mark_failed_def
  by (intro basic_rules transition_keeps update_order_keeps append_dlq_keeps notify_keeps axiom_rules)

lemma rollup_event_keeps: "keeps R (rollup_event E i)"
  unfolding rollup_event_def by (intro basic_rules reads_keep latest_orders_keeps update_event_keeps axiom_rules)

lemma requeue_keeps: "keeps R (requeue_stuck_executing E cfg)"
  unfolding requeue_stuck_executing_def requeue_one_def executing_expired_def
  by (intro basic_rules latest_orders_keeps mark_failed_keeps transition_keeps update_order_keeps rollup_event_keeps
      axiom_rules)

lemma terminal_keeps: "keeps R m \<Longrightarrow> keeps R (terminal ord m)"
  unfolding terminal_def by (rule or_err_keeps)

lemma refuse_keeps: "keeps R (refuse ord so)"
  unfolding refuse_def by (rule fail_ok)

lemma record_receipt_hash_keeps: "keeps R (record_receipt_hash E i h)"
  unfolding record_receipt_hash_def by (intro basic_rules append_line_keeps axiom_rules)

lemma is_receipt_settled_keeps: "keeps R (is_receipt_settled E h)"
  unfolding is_receipt_settled_def by (intro basic_rules keeps_choices(3) axiom_rules)

lemma settle_order_keeps: "keeps R (settle_order E signer ord receipt iw h entry)"
  unfolding settle_order_def
  by (intro basic_rules terminal_keeps transition_keeps update_order_keeps record_receipt_hash_keeps notify_keeps axiom_rules)

lemma refuse_duplicate_keeps: "keeps R (refuse_duplicate E ord h msg)"
  unfolding refuse_duplicate_def
  by (intro basic_rules terminal_keeps refuse_keeps is_receipt_settled_keeps)

lemmas settle_rules = basic_rules keeps_outcomes keeps_choices terminal_keeps refuse_keeps settle_order_keeps
  refuse_duplicate_keeps pay_step load_facilitator_config_keeps authorize_keeps sign_payment_keeps
  x402_execute_keeps facilitator_keeps http_get_keeps

lemma fetch_payload_keeps: "keeps R (fetch_payload E ord K expected classify rejected)"
  unfolding fetch_payload_def by (intro settle_rules axiom_rules)

lemma settle_rail_keeps:
  "keeps R (settle_http402 E signer ord)" "keeps R (settle_card E signer ord)" "keeps R (settle_ach E signer ord)"
  "keeps R (settle_native E signer n ord)"
  unfolding settle_http402_def settle_http402_with_facilitator_def settle_http402_success_def settle_card_def
    settle_card_success_def settle_ach_def settle_native_def
  by (intro settle_rules fetch_payload_keeps axiom_rules)+

lemma settle_keeps: "keeps R (settle E cfg signer scorer ord)"
  unfolding settle_def screen_def route_def by (intro settle_rules settle_rail_keeps axiom_rules)

lemma apply_settlement_preference_keeps: "keeps R (apply_settlement_preference E ord cfg)"
  unfolding apply_settlement_preference_def create_payout_def order_new_def
  by (intro settle_rules insert_order_keeps axiom_rules)

lemma after_settle_keeps: "keeps R (after_settle E cfg acc res)"
  unfolding after_settle_def
  by (intro settle_rules apply_settlement_preference_keeps schedule_retry_keeps mark_failed_keeps transition_keeps
      update_order_keeps notify_keeps axiom_rules)

lemma process_order_keeps: "keeps R (process_order E cfg signer scorer acc ord)"
  unfolding process_order_def
  by (intro settle_rules settle_keeps after_settle_keeps transition_keeps update_order_keeps rollup_event_keeps axiom_rules)

lemma commit_deferred_batch_keeps: "keeps R (commit_deferred_batch E date)"
  unfolding commit_deferred_batch_def batch_new_def write_batch_file_def clear_deferred_commitments_def
  by (intro basic_rules reads_keep checkpoint_mmr_keeps axiom_rules)

lemma around_pass_keeps: "keeps R (load_config E)" "keeps R (deferred_pass E cfg)" "keeps R (ready_orders E now)"
  unfolding load_config_def deferred_pass_def ready_orders_def
  by (intro basic_rules read_whole_keeps commit_deferred_batch_keeps latest_orders_keeps reads_keep axiom_rules)+

text \<open>A connection to the webhook receiver makes the same kinds of steps.\<close>

lemma process_callback_keeps: "keeps R (process_callback E cb)"
  unfolding process_callback_def callback_settled_def callback_failed_def get_order_def
  by (intro basic_rules reads_keep transition_keeps update_order_keeps notify_keeps append_dlq_keeps axiom_rules)

lemma handle_connection_keeps: "keeps R (handle_connection E c)"
  unfolding handle_connection_def send_response_def clock_if_def load_secret_def vault_read_def
  by (intro basic_rules process_callback_keeps axiom_rules)

end

text \<open>A whole pass also reads the wallet from its file and writes it back.\<close>

locale pass_rel = settle_rel +
  assumes wallet_step: "R s (s\<lparr>wal := w\<rparr>)"
    and wfile_step: "R s (s\<lparr>wfile := d\<rparr>)"
begin

lemma wallet_file_keeps: "keeps R (open_wallet E C path pass)" "keeps R (wallet_save E C pass)"
  unfolding open_wallet_def wallet_open_def read_wallet_file_def wallet_save_def write_wallet_file_def
  by (intro basic_rules axiom_rules wallet_step wfile_step)+

lemma run_once_keeps: "keeps R (run_once E C path pass signer scorer)"
  unfolding run_once_def
  by (intro basic_rules requeue_keeps process_order_keeps wallet_file_keeps around_pass_keeps axiom_rules)

end

section \<open>The relations\<close>

lemma other_journal_ext: "keeps (journal_ext E) (audit E ty payload keys)" "keeps (journal_ext E) (pay_sync E p)"
  by (intro audit_keeps pay_sync_keeps journal_ext_preorder journal_ext_clock; simp add: journal_ext_same)+

lemma other_audit_ext: "keeps (audit_ext E) (append_order_batch E i a c fx signer)" "keeps (audit_ext E) (pay_sync E p)"
  by (intro append_order_batch_keeps pay_sync_keeps audit_ext_preorder audit_ext_clock; simp add: audit_ext_same)+

interpretation journal_pass: pass_rel "journal_ext E" E for E
  by unfold_locales (auto intro: journal_ext_same journal_ext_clock append_order_batch_ext other_journal_ext)

interpretation audit_pass: pass_rel "audit_ext E" E for E
  by unfold_locales (auto intro: audit_ext_same audit_ext_clock audit_audit_ext other_audit_ext)

text \<open>Logs grow at the end; the configuration and the vault are only read.\<close>

definition logs_grow :: "'c world_scheme \<Rightarrow> 'c world_scheme \<Rightarrow> bool" where
  "logs_grow s t \<longleftrightarrow> prefix (f_orders s) (f_orders t) \<and> prefix (f_events s) (f_events t) \<and>
     prefix (f_journal s) (f_journal t) \<and> prefix (f_retry s) (f_retry t) \<and> prefix (f_dlq s) (f_dlq t) \<and>
     prefix (f_notifications s) (f_notifications t) \<and> prefix (f_batches s) (f_batches t) \<and>
     prefix (f_audit s) (f_audit t) \<and> prefix (f_receipts s) (f_receipts t) \<and>
     f_config t = f_config s \<and> f_secrets t = f_secrets s \<and> f_facilitators t = f_facilitators s"

interpretation logs: state_preorder logs_grow
  by unfold_locales (auto simp: logs_grow_def intro: prefix_order.order_trans)

lemma logs_clock: "clock_ok logs_grow"
  by (simp add: clock_ok_def logs_grow_def)

lemma logs_writes:
  "keeps logs_grow (append_order_batch E i a c fx signer)" "keeps logs_grow (audit E ty payload keys)"
  "keeps logs_grow (pay_sync E p)"
  by (intro append_order_batch_keeps audit_keeps pay_sync_keeps logs.state_preorder_axioms logs_clock; simp add: logs_grow_def)+

interpretation logs_pass: pass_rel logs_grow E for E
  by unfold_locales (auto intro: logs_clock logs_writes simp: logs_grow_def)

section \<open>Histories\<close>

text \<open>
  The life of a store: passes of the executor with any identity, scorer and wallet codec,
  and what the other commands append between them. A step may have failed half-way, and
  a crash loses the wallet in memory.
\<close>

inductive store_step :: "env \<Rightarrow> 'c world_scheme \<Rightarrow> 'c world_scheme \<Rightarrow> bool" for E where
  pass: "run_once E C path passphrase signer scorer s = (r, t) \<Longrightarrow> store_step E s t"
| order: "insert_order E x s = (r, t) \<Longrightarrow> store_step E s t"
| event: "append_event E ev s = (r, t) \<Longrightarrow> store_step E s t"
| deferred: "append_deferred_commitment E it s = (r, t) \<Longrightarrow> store_step E s t"
| entry: "audit E ty payload keys s = (r, t) \<Longrightarrow> store_step E s t"
| callback: "handle_connection E c s = (r, t) \<Longrightarrow> store_step E s t"
| crash: "store_step E s (s\<lparr>wal := w\<rparr>)"

context pass_rel begin

lemma store_step_ok: "store_step E s t \<Longrightarrow> R s t"
proof (induction rule: store_step.induct)
  case (pass C path passphrase signer scorer s r t)
  then show ?case by (rule keepsD [OF run_once_keeps])
next
  case (order x s r t)
  then show ?case by (rule keepsD [rotated]) (intro insert_order_keeps axiom_rules)
next
  case (event ev s r t)
  then show ?case by (rule keepsD [rotated]) (intro append_event_keeps axiom_rules)
next
  case (deferred it s r t)
  then show ?case by (rule keepsD [rotated]) (intro append_deferred_commitment_keeps axiom_rules)
next
  case (entry ty payload keys s r t)
  then show ?case by (rule keepsD [OF audit_step])
next
  case (callback c s r t)
  then show ?case by (rule keepsD [OF handle_connection_keeps])
qed (rule wallet_step)

lemma history_ok: "(store_step E)\<^sup>*\<^sup>* s t \<Longrightarrow> R s t"
  by (induction rule: rtranclp_induct) (blast intro: rel_refl rel_trans store_step_ok)+

end

section \<open>Properties\<close>


text \<open>A store with a wallet file that \<open>example_codec\<close> can open.\<close>

definition example_world :: world where
  "example_world = empty_world\<lparr>wfile := Some []\<rparr>"


end
