(* ===== verification/Settlement.thy ===== *)
theory Settlement
  imports Pass
begin

text \<open>
  What settling one order does: the policy that decides whether a rail is called at all,
  the snapshots a settlement leaves in the order log, the receipts it uses up, and what
  becomes of an order whose settlement failed.
\<close>

section \<open>Policy\<close>

definition rail_of :: "payment_order \<Rightarrow> rail_hint" where
  "rail_of ord = (case po_rail ord of Some h \<Rightarrow> h | None \<Rightarrow> Native)"

definition amount_permitted :: "payments_config \<Rightarrow> payment_order \<Rightarrow> bool" where
  "amount_permitted cfg ord = (case parse_amount (po_amount ord) of
       Inl e \<Rightarrow> False
     | Inr m \<Rightarrow> 0 \<le> m \<and> (case cfg_per_tx_cap cfg of
           None \<Rightarrow> True
         | Some cap \<Rightarrow> (case parse_amount cap of Inl e \<Rightarrow> False | Inr c \<Rightarrow> m \<le> c)))"

definition not_rejected :: "scorer option \<Rightarrow> payment_order \<Rightarrow> bool" where
  "not_rejected compliance ord = (case compliance of
       None \<Rightarrow> True
     | Some score \<Rightarrow> (case score ord of
           Inl e \<Rightarrow> False
         | Inr v \<Rightarrow> (case v of Reject reason evidence \<Rightarrow> False | _ \<Rightarrow> True)))"

text \<open>What the operator's configuration and scorer allow.\<close>

definition permitted :: "payments_config \<Rightarrow> scorer option \<Rightarrow> payment_order \<Rightarrow> bool" where
  "permitted cfg compliance ord \<longleftrightarrow>
     rail_as_str (rail_of ord) \<in> set (cfg_enabled_rails cfg) \<and> amount_permitted cfg ord \<and> not_rejected compliance ord"

lemma amount_permitted_check:
  "amount_permitted cfg ord \<longleftrightarrow> (\<exists>m. parse_amount (po_amount ord) = Inr m \<and> 0 \<le> m \<and> check_cap cfg ord m = None)"
  by (auto simp: amount_permitted_def check_cap_def split: sum.splits option.splits)

lemma check_cap_terminal: "check_cap cfg ord m = Some so \<Longrightarrow> \<exists>reason. so = SettleTerminal reason"
  by (auto simp: check_cap_def split: sum.splits option.splits if_splits)

lemma terminal_result:
  "terminal ord (result (Inr x)) = ret x" "terminal ord (result (Inl e)) = refuse ord (SettleTerminal (error_to_string e))"
  by (simp_all add: fun_eq_iff terminal_def refuse_def or_err_def map_err_def result_def lift_def ret_def fail_def throw_def)

lemma screen_rejects:
  assumes "\<not> not_rejected compliance ord"
  shows "\<exists>reason. screen E compliance ord s = (Inl (Err (ord, SettleTerminal reason)), s)"
proof (cases compliance)
  case (Some score)
  show ?thesis
  proof (cases "score ord")
    case (Inl e)
    then show ?thesis using Some by (simp add: screen_def terminal_result refuse_def bnd_def)
  next
    case (Inr v)
    then show ?thesis using Some assms
      by (cases v) (simp_all add: screen_def terminal_result refuse_def not_rejected_def)
  qed
qed (use assms in \<open>simp add: not_rejected_def\<close>)

lemma settle_refused:
  assumes "\<not> permitted cfg compliance ord"
  shows "\<exists>reason. settle E cfg signer compliance ord s = (Inl (Err (ord, SettleTerminal reason)), s)"
proof (cases "rail_as_str (rail_of ord) \<in> set (cfg_enabled_rails cfg) \<and> amount_permitted cfg ord")
  case True
  then obtain m where m: "parse_amount (po_amount ord) = Inr m" "0 \<le> m" "check_cap cfg ord m = None"
    by (auto simp: amount_permitted_check)
  have "\<not> not_rejected compliance ord" using True assms by (simp add: permitted_def)
  from screen_rejects [OF this, of E s] obtain reason
    where "screen E compliance ord s = (Inl (Err (ord, SettleTerminal reason)), s)" by blast
  then show ?thesis using True m by (simp add: settle_def rail_of_def seqM_def bnd_def)
next
  case False
  then consider "rail_as_str (rail_of ord) \<notin> set (cfg_enabled_rails cfg)" | "\<not> amount_permitted cfg ord" by blast
  then show ?thesis
  proof cases
    case 1
    then show ?thesis by (simp add: settle_def rail_of_def refuse_def)
  next
    case 2
    show ?thesis
    proof (cases "parse_amount (po_amount ord)")
      case (Inl e)
      then show ?thesis by (simp add: settle_def Let_def refuse_def)
    next
      case (Inr m)
      with 2 have "m < 0 \<or> (\<exists>so. check_cap cfg ord m = Some so)" by (force simp: amount_permitted_check)
      then show ?thesis using Inr check_cap_terminal [of cfg ord m]
        by (cases "check_cap cfg ord m") (auto simp: settle_def Let_def refuse_def)
    qed
  qed
qed

text \<open>
  C3: Policy comes first. An order whose rail is not enabled, whose amount does not parse, is
  negative or exceeds the per-transaction cap (or the cap itself does not parse), or which
  the scorer rejects or cannot score, is refused as a terminal failure, and the state is
  exactly the one before: no request was sent, no wallet was debited, nothing was written.
\<close>

theorem settle_policy_first:
  assumes "\<not> permitted cfg compliance ord"
  shows "\<exists>reason. settle E cfg signer compliance ord s = (Inl (Err (ord, SettleTerminal reason)), s)"
  by (rule settle_refused [OF assms])

theorem settle_policy_first_witness:
  "\<exists>reason. settle example_env (payments_config_default\<lparr>cfg_per_tx_cap := Some ''1.00''\<rparr>) None None example_order empty_world =
    (Inl (Err (example_order, SettleTerminal reason)), empty_world)"
proof -
  have "parse_amount (po_amount example_order) = Inr 500" "parse_amount ''1.00'' = Inr 100" by code_simp+
  then have "\<not> permitted (payments_config_default\<lparr>cfg_per_tx_cap := Some ''1.00''\<rparr>) None example_order"
    by (simp add: permitted_def amount_permitted_def)
  from settle_policy_first [OF this] show ?thesis .
qed

section \<open>The order log during a settlement\<close>

text \<open>\<open>settled_from ord x\<close>: \<open>x\<close> is \<open>ord\<close> after the executor has settled it.\<close>

definition settled_from :: "payment_order \<Rightarrow> payment_order \<Rightarrow> bool" where
  "settled_from ord x \<longleftrightarrow> can_transition (po_status ord) Success \<and>
     (\<exists>receipt now b. x = ord\<lparr>po_receipt := Some receipt, po_status := Success, po_updated_at := now,
        po_ledger_updated := True, po_wallet_updated := b\<rparr>)"

text \<open>A step before the rail has paid writes no order, and its error carries the order unchanged.\<close>

definition spares :: "payment_order \<Rightarrow> ('c, 'a) S \<Rightarrow> bool" where
  "spares ord m \<longleftrightarrow> (\<forall>s r t. m s = (r, t) \<longrightarrow> f_orders t = f_orders s \<and>
     (\<forall>x so. r = Inl (Err (x, so)) \<longrightarrow> x = ord))"

text \<open>
  A settlement writes at most one snapshot, the settled one, and always on success. An
  error carries the order unchanged, or with its receipt, or settled.
\<close>

definition settle_result ::
  "payment_order \<Rightarrow> payment_order list \<Rightarrow> (payment_order \<times> settle_outcome) exn + payment_order \<Rightarrow> payment_order list \<Rightarrow> bool" where
  "settle_result ord os r os' = (case r of
       Inr x \<Rightarrow> settled_from ord x \<and> os' = os @ [x]
     | Inl Panic \<Rightarrow> os' = os \<or> (\<exists>x. settled_from ord x \<and> os' = os @ [x])
     | Inl (Err (x, so)) \<Rightarrow>
         (x = ord \<or> (\<exists>rc. x = ord\<lparr>po_receipt := Some rc\<rparr>)) \<and> os' = os \<or>
         settled_from ord x \<and> (os' = os \<or> os' = os @ [x]))"

definition settles :: "payment_order \<Rightarrow> ('c, payment_order) S \<Rightarrow> bool" where
  "settles ord m \<longleftrightarrow> (\<forall>s r t. m s = (r, t) \<longrightarrow> settle_result ord (f_orders s) r (f_orders t))"

abbreviation same_orders :: "'c world_scheme \<Rightarrow> 'c world_scheme \<Rightarrow> bool" where
  "same_orders \<equiv> (\<lambda>s t. f_orders t = f_orders s)"

lemma sparesD:
  "spares ord m \<Longrightarrow> m s = (r, t) \<Longrightarrow> f_orders t = f_orders s"
  "spares ord m \<Longrightarrow> m s = (Inl (Err (x, so)), t) \<Longrightarrow> x = ord"
  unfolding spares_def by blast+

lemma spares_or_err: "keeps same_orders m \<Longrightarrow> spares ord (or_err (\<lambda>e. (ord, g e)) m)"
  unfolding spares_def
proof (intro allI impI)
  fix s r t
  assume k: "keeps same_orders m" and "or_err (\<lambda>e. (ord, g e)) m s = (r, t)"
  then obtain q where q: "m s = (q, t)" "r = (case q of Inl e \<Rightarrow> Inl (exn_map (\<lambda>e. (ord, g e)) e) | Inr x \<Rightarrow> Inr x)"
    by (auto simp: or_err_def map_err_def split: prod.splits sum.splits)
  then show "f_orders t = f_orders s \<and> (\<forall>x so. r = Inl (Err (x, so)) \<longrightarrow> x = ord)"
    using keepsD [OF k] by (auto elim!: exn_map.elims split: sum.splits)
qed

lemma spares_terminal: "keeps same_orders m \<Longrightarrow> spares ord (terminal ord m)"
  unfolding terminal_def by (rule spares_or_err)

lemma spares_refuse: "spares ord (refuse ord so)"
  by (simp add: spares_def refuse_def)

lemma spares_ret: "spares ord (ret x)"
  by (simp add: spares_def ret_def)

lemma spares_ok_or: "spares ord (ok_or z (ord, so))"
  by (auto simp: spares_def ok_or_def fail_def throw_def ret_def split: option.splits)

lemma spares_bnd: "spares ord m \<Longrightarrow> (\<And>x. spares ord (f x)) \<Longrightarrow> spares ord (bnd m f)"
  unfolding spares_def bnd_def by (auto split: prod.splits sum.splits)

lemma spares_seqM: "spares ord m \<Longrightarrow> spares ord n \<Longrightarrow> spares ord (seqM m n)"
  unfolding seqM_def by (rule spares_bnd)

lemma settles_refuse: "settles ord (refuse ord so)"
  by (simp add: settles_def refuse_def settle_result_def)

lemma settles_bnd:
  assumes "spares ord m" "\<And>x. settles ord (f x)"
  shows "settles ord (bnd m f)"
  unfolding settles_def
proof (intro allI impI)
  fix s r t
  assume run: "bnd m f s = (r, t)"
  obtain q u where mid: "m s = (q, u)" by (cases "m s")
  have o: "f_orders u = f_orders s" and e: "\<And>x so. q = Inl (Err (x, so)) \<Longrightarrow> x = ord"
    using assms(1) mid by (auto simp: spares_def)
  show "settle_result ord (f_orders s) r (f_orders t)"
  proof (cases q)
    case (Inl e')
    then show ?thesis using run mid o e by (cases e') (auto simp: bnd_def settle_result_def)
  next
    case (Inr x)
    then have "f x u = (r, t)" using run mid by (simp add: bnd_def)
    then have "settle_result ord (f_orders u) r (f_orders t)" using assms(2) unfolding settles_def by blast
    then show ?thesis by (simp only: o)
  qed
qed

lemma settles_seqM: "spares ord m \<Longrightarrow> settles ord n \<Longrightarrow> settles ord (seqM m n)"
  unfolding seqM_def by (rule settles_bnd)

text \<open>What follows the write of the settled snapshot: three writes to other files.\<close>

definition settle_tail :: "env \<Rightarrow> payment_order \<Rightarrow> bytes option \<Rightarrow> (payment_order \<Rightarrow> json) \<Rightarrow> ('c, payment_order) S" where
  "settle_tail E ord3 receipt_hash entry =
     seqM (case receipt_hash of None \<Rightarrow> ret () | Some h \<Rightarrow> terminal ord3 (record_receipt_hash E (po_id ord3) h))
     (seqM (terminal ord3 (notify E (po_id ord3) (''order_settled ('' @ direction_str (po_direction ord3) @ '')'')))
     (seqM (terminal ord3 (audit E AT_ORDER_SETTLED (entry ord3) None))
     (ret ord3)))"

lemma settle_tail_Inr: "settle_tail E x h entry s = (Inr y, t) \<Longrightarrow> y = x"
  by (auto simp: settle_tail_def M_Inr)

lemma order_keeping:
  "keeps same_orders (append_order_batch E i a c fx signer)" "keeps same_orders (audit E ty payload keys)"
  "keeps same_orders (notify E i ev)" "keeps same_orders (record_receipt_hash E i h)"
  "keeps same_orders (is_receipt_settled E h)"
  unfolding notify_def record_receipt_hash_def is_receipt_settled_def
  by (intro append_order_batch_keeps audit_keeps keeps_rules keeps_choices(3) append_line_keeps; simp)+

lemma settle_tail_spares: "spares x (settle_tail E x h entry)"
  unfolding settle_tail_def
  by (intro spares_seqM spares_terminal order_keeping spares_ret) (auto split: option.split intro: spares_ret spares_terminal order_keeping)

lemma update_order_cases:
  "update_order E x s = (r, t) \<Longrightarrow> (r = Inr () \<and> f_orders t = f_orders s @ [x]) \<or>
     (\<exists>e. r = Inl (Err e) \<and> (f_orders t = f_orders s \<or> f_orders t = f_orders s @ [x]))"
  unfolding append_defs by (auto dest!: append_jsonl_run)

lemma settle_write:
  assumes "settled_from ord x"
  shows "settles ord (seqM (terminal x (update_order E x)) (settle_tail E x h entry))"
  unfolding settles_def
proof (intro allI impI)
  fix s r t
  assume run: "seqM (terminal x (update_order E x)) (settle_tail E x h entry) s = (r, t)"
  obtain q u where up: "update_order E x s = (q, u)" by (cases "update_order E x s")
  show "settle_result ord (f_orders s) r (f_orders t)"
  proof (cases q)
    case (Inl e)
    then obtain e' where "e = Err e'" "f_orders u = f_orders s \<or> f_orders u = f_orders s @ [x]"
      using update_order_cases [OF up] by auto
    then show ?thesis using run up Inl assms by (auto simp: seqM_def bnd_def terminal_def or_err_def map_err_def settle_result_def)
  next
    case (Inr y)
    then have u: "f_orders u = f_orders s @ [x]" using update_order_cases [OF up] by auto
    have tail: "settle_tail E x h entry u = (r, t)"
      using run up Inr by (simp add: seqM_def bnd_def terminal_def or_err_def map_err_def)
    then have "f_orders t = f_orders u" "\<And>y so. r = Inl (Err (y, so)) \<Longrightarrow> y = x" "\<And>y. r = Inr y \<Longrightarrow> y = x"
      by (auto dest: sparesD [OF settle_tail_spares] settle_tail_Inr)
    then show ?thesis using u assms by (auto simp: settle_result_def split: sum.splits exn.splits)
  qed
qed

lemma settles_transition:
  assumes "x = ord \<or> (\<exists>rc. x = ord\<lparr>po_receipt := Some rc\<rparr>)"
    and "\<And>now. can_transition (po_status ord) Success \<Longrightarrow> settles ord (f (x\<lparr>po_status := Success, po_updated_at := now\<rparr>))"
  shows "settles ord (bnd (terminal x (transition E Success x)) f)"
  unfolding settles_def
proof (intro allI impI)
  fix s r t
  assume run: "bnd (terminal x (transition E Success x)) f s = (r, t)"
  have st: "po_status x = po_status ord" using assms(1) by auto
  let ?now = "rfc3339 E (env_time E (n_time s))"
  show "settle_result ord (f_orders s) r (f_orders t)"
  proof (cases "can_transition (po_status ord) Success")
    case True
    then have "f (x\<lparr>po_status := Success, po_updated_at := ?now\<rparr>) (s\<lparr>n_time := n_time s + 1\<rparr>) = (r, t)"
      using run st by (simp add: terminal_def or_err_def map_err_def transition_def seqM_def guard_def bnd_def ret_def)
    then have "settle_result ord (f_orders (s\<lparr>n_time := n_time s + 1\<rparr>)) r (f_orders t)"
      using assms(2) [OF True, of ?now] unfolding settles_def by blast
    then show ?thesis by simp
  next
    case False
    then have "t = s" "\<exists>so. r = Inl (Err (x, so))" using run st
      by (auto simp: terminal_def or_err_def map_err_def transition_def seqM_def guard_def bnd_def)
    then show ?thesis using assms(1) unfolding settle_result_def by force
  qed
qed

lemma settle_order_settles: "settles ord (settle_order E signer ord receipt iw h entry)"
proof -
  let ?ord1 = "ord\<lparr>po_receipt := Some receipt\<rparr>"
  let ?rest = "\<lambda>ord2. seqM (terminal (ord2\<lparr>po_ledger_updated := True, po_wallet_updated := iw\<rparr>)
      (update_order E (ord2\<lparr>po_ledger_updated := True, po_wallet_updated := iw\<rparr>)))
      (settle_tail E (ord2\<lparr>po_ledger_updated := True, po_wallet_updated := iw\<rparr>) h entry)"
  have "settles ord (bnd (terminal ?ord1 (transition E Success ?ord1)) ?rest)"
  proof (rule settles_transition)
    fix now
    assume "can_transition (po_status ord) Success"
    then have "settled_from ord (?ord1\<lparr>po_status := Success, po_updated_at := now, po_ledger_updated := True, po_wallet_updated := iw\<rparr>)"
      by (simp add: settled_from_def) (intro exI, rule refl)
    then show "settles ord (?rest (?ord1\<lparr>po_status := Success, po_updated_at := now\<rparr>))"
      by (rule settle_write)
  qed blast
  then show ?thesis
    unfolding settle_order_def Let_def
    by (intro settles_seqM spares_terminal order_keeping) (simp add: settle_tail_def)
qed

lemma settles_cases:
  "settles ord m \<Longrightarrow> settles ord n \<Longrightarrow> settles ord (if b then m else n)"
  "settles ord m \<Longrightarrow> (\<And>x. settles ord (f x)) \<Longrightarrow> settles ord (case z of None \<Rightarrow> m | Some x \<Rightarrow> f x)"
  "(\<And>x y. settles ord (g x y)) \<Longrightarrow> settles ord (case p of (x, y) \<Rightarrow> g x y)"
  "(\<And>x. settles ord (f x)) \<Longrightarrow> settles ord (let x = v in f x)"
  "(\<And>r. settles ord (f1 r)) \<Longrightarrow> (\<And>tx ra. settles ord (f2 tx ra)) \<Longrightarrow> (\<And>e ra. settles ord (f3 e ra)) \<Longrightarrow>
   settles ord (case fo of FSettled r \<Rightarrow> f1 r | FPending tx ra \<Rightarrow> f2 tx ra | FRejected e ra \<Rightarrow> f3 e ra)"
  "settles ord m \<Longrightarrow> (\<And>tx. settles ord (g2 tx)) \<Longrightarrow> (\<And>e. settles ord (g3 e)) \<Longrightarrow>
   settles ord (case xo of XSuccess \<Rightarrow> m | XPending tx \<Rightarrow> g2 tx | XFailed e \<Rightarrow> g3 e)"
  "(\<And>r. settles ord (c1 r)) \<Longrightarrow> (\<And>tx. settles ord (c2 tx)) \<Longrightarrow> (\<And>e. settles ord (c3 e)) \<Longrightarrow>
   settles ord (case co of CSettled r \<Rightarrow> c1 r | CPending tx \<Rightarrow> c2 tx | CDeclined e \<Rightarrow> c3 e)"
  by (simp_all split: option.split prod.split facilitator_outcome.split x402_status.split card_auth_outcome.split)

lemma spares_cases:
  "spares ord m \<Longrightarrow> spares ord n \<Longrightarrow> spares ord (if b then m else n)"
  "spares ord m \<Longrightarrow> (\<And>x. spares ord (f x)) \<Longrightarrow> spares ord (case z of None \<Rightarrow> m | Some x \<Rightarrow> f x)"
  "(\<And>x y. spares ord (g x y)) \<Longrightarrow> spares ord (case p of (x, y) \<Rightarrow> g x y)"
  "spares ord m \<Longrightarrow> (\<And>e. spares ord (v2 e)) \<Longrightarrow> spares ord (case vv of VAccept \<Rightarrow> m | VReject e \<Rightarrow> v2 e)"
  "spares ord m \<Longrightarrow> (\<And>e. spares ord (a2 e)) \<Longrightarrow> (\<And>e ev. spares ord (a3 e ev)) \<Longrightarrow>
   spares ord (case cv of Accept \<Rightarrow> m | Flag e \<Rightarrow> a2 e | Reject e ev \<Rightarrow> a3 e ev)"
  by (simp_all split: option.split prod.split verify_verdict.split compliance_verdict.split)

lemma rail_keeping:
  "keeps same_orders (http_get E url hs rail)" "keeps same_orders (sign_payment E ps req res)"
  "keeps same_orders (facilitator_verify E fc payload req res)" "keeps same_orders (facilitator_settle E fc payload req res)"
  "keeps same_orders (x402_execute E url ps)" "keeps same_orders (load_facilitator_config E rail)"
  "keeps same_orders (authorize E fc card_req)" "keeps same_orders (result rs)"
  by (intro http_get_keeps sign_payment_keeps facilitator_keeps x402_execute_keeps load_facilitator_config_keeps
      authorize_keeps state_preorder.result_ok preorders clock_ok_fields)+

lemma wallet_keeping: "keeps same_orders (pay_sync E p)"
  by (intro pay_sync_keeps preorders clock_ok_fields) simp

lemmas settles_rules = settles_cases spares_cases settles_refuse settles_bnd settles_seqM spares_bnd spares_seqM
  spares_refuse spares_ret spares_ok_or spares_terminal spares_or_err settle_order_settles order_keeping rail_keeping
  wallet_keeping

lemma settle_settles: "settles ord (settle E cfg signer compliance ord)"
proof -
  have fp: "spares ord (fetch_payload E ord K expected classify rejected)" for K expected classify rejected
    unfolding fetch_payload_def by (intro settles_rules)
  have dup: "spares ord (refuse_duplicate E ord h msg)" for h msg
    unfolding refuse_duplicate_def by (intro settles_rules)
  have "settles ord (settle_http402 E signer ord)" "settles ord (settle_card E signer ord)"
    "settles ord (settle_ach E signer ord)" "settles ord (settle_native E signer n ord)" for n
    unfolding settle_http402_def settle_http402_with_facilitator_def settle_http402_success_def settle_card_def
      settle_card_success_def settle_ach_def settle_native_def
    by (intro settles_rules fp dup)+
  then have "settles ord (route E signer hint minor ord)" for hint minor
    unfolding route_def by (cases hint) simp_all
  moreover have "spares ord (screen E compliance ord)"
    unfolding screen_def by (intro settles_rules)
  ultimately show ?thesis
    unfolding settle_def Let_def by (auto split: sum.splits intro: settles_rules)
qed

end
