(* ===== verification/Lifecycle.thy ===== *)
theory Lifecycle
  imports Settlement
begin

text \<open>
  The abstract machine behind the order log, and the proof that the executor refines it.
  In the abstract machine an order is created as \<open>NOT_STARTED\<close> and then only moves along
  \<open>can_transition\<close>, with its terms fixed; the concrete passes interleave orders, fail
  half-way, sweep stuck orders and create payouts.
\<close>

section \<open>The abstract machine\<close>

definition latest :: "payment_order list \<Rightarrow> string \<Rightarrow> payment_order option" where
  "latest os i = find_last (\<lambda>x. po_id x = i) os"

text \<open>Everything an order agrees on with its payer: all that the signature covers, and the routing.\<close>

definition same_terms :: "payment_order \<Rightarrow> payment_order \<Rightarrow> bool" where
  "same_terms x y \<longleftrightarrow> po_version y = po_version x \<and> po_id y = po_id x \<and> po_checkout y = po_checkout x \<and>
     po_to y = po_to x \<and> po_amount y = po_amount x \<and> po_currency y = po_currency x \<and> po_fx y = po_fx x \<and>
     po_card_token y = po_card_token x \<and> po_card_network y = po_card_network x \<and> po_card_last4 y = po_card_last4 x \<and>
     po_rail y = po_rail x \<and> po_direction y = po_direction x \<and> po_created_at y = po_created_at x \<and>
     po_signature y = po_signature x \<and> po_signer y = po_signer x"

inductive lifecycle :: "payment_order list \<Rightarrow> payment_order list \<Rightarrow> bool" where
  create: "latest os (po_id x) = None \<Longrightarrow> po_status x = NotStarted \<Longrightarrow> lifecycle os (os @ [x])"
| move: "latest os (po_id x) = Some y \<Longrightarrow> can_transition (po_status y) (po_status x) \<Longrightarrow> same_terms y x \<Longrightarrow>
    lifecycle os (os @ [x])"

lemma latest_append: "latest (os @ [x]) i = (if po_id x = i then Some x else latest os i)"
  by (simp add: latest_def)

lemma latest_id: "latest os i = Some x \<Longrightarrow> po_id x = i"
  by (auto simp: latest_def dest: find_last_Some)

lemma same_terms_refl [simp]: "same_terms x x"
  by (simp add: same_terms_def)

lemma same_terms_trans: "same_terms x y \<Longrightarrow> same_terms y z \<Longrightarrow> same_terms x z"
  by (simp add: same_terms_def)

lemma same_terms_id: "same_terms x y \<Longrightarrow> po_id y = po_id x"
  by (simp add: same_terms_def)

text \<open>Invariants of the machine: terms are fixed, and \<open>SUCCESS\<close> is final.\<close>

lemma lifecycle_terms:
  "lifecycle\<^sup>*\<^sup>* os os' \<Longrightarrow> latest os i = Some x \<Longrightarrow> \<exists>y. latest os' i = Some y \<and> same_terms x y"
proof (induction rule: rtranclp_induct)
  case (step ys zs)
  then obtain y where y: "latest ys i = Some y" "same_terms x y" by blast
  from step.hyps(2) show ?case
    by cases (use y same_terms_trans in \<open>auto simp: latest_append\<close>)
qed simp

lemma lifecycle_final:
  "lifecycle\<^sup>*\<^sup>* os os' \<Longrightarrow> latest os i = Some x \<Longrightarrow> po_status x = Success \<Longrightarrow> latest os' i = Some x"
proof (induction rule: rtranclp_induct)
  case (step ys zs)
  then have y: "latest ys i = Some x" by blast
  from step.hyps(2) show ?case
    by cases (use y step.prems in \<open>auto simp: latest_append can_transition_def\<close>)
qed simp

text \<open>Steps that concern one order, and perhaps create others.\<close>

definition own_steps :: "string \<Rightarrow> 'c world_scheme \<Rightarrow> 'c world_scheme \<Rightarrow> bool" where
  "own_steps i s t \<longleftrightarrow> lifecycle\<^sup>*\<^sup>* (f_orders s) (f_orders t) \<and>
     (\<forall>j. j \<noteq> i \<longrightarrow> latest (f_orders s) j \<noteq> None \<longrightarrow> latest (f_orders t) j = latest (f_orders s) j)"

interpretation own: state_preorder "own_steps i" for i
  by unfold_locales (auto simp: own_steps_def)

lemma own_same: "f_orders t = f_orders s \<Longrightarrow> own_steps i s t"
  by (simp add: own_steps_def)

lemma own_clock: "clock_ok (own_steps i)"
  by (simp add: clock_ok_def own_same)

lemma own_keeps: "keeps same_orders m \<Longrightarrow> keeps (own_steps i) m"
  by (auto simp: keeps_def own_same)

lemma own_append:
  "latest (f_orders s) (po_id x) = Some y \<Longrightarrow> can_transition (po_status y) (po_status x) \<Longrightarrow> same_terms y x \<Longrightarrow>
   f_orders t = f_orders s @ [x] \<Longrightarrow> own_steps (po_id x) s t"
  by (auto simp: own_steps_def latest_append intro: lifecycle.move)

section \<open>Moving one order\<close>

text \<open>
  The order in memory is the latest line of the log, or it was settled: then every further
  transition is refused.
\<close>

definition in_step :: "payment_order \<Rightarrow> 'c world_scheme \<Rightarrow> bool" where
  "in_step ord s \<longleftrightarrow> po_status ord = Success \<or>
     (\<exists>y. latest (f_orders s) (po_id ord) = Some y \<and> po_status y = po_status ord \<and> same_terms y ord)"

text \<open>
  \<open>owned i P m Q\<close>: from a state with \<open>P\<close> the program makes legal steps of order \<open>i\<close> only, and
  when it returns \<open>x\<close>, \<open>Q x\<close> holds. \<open>advances\<close> is the case of an order in step that ends up with
  a status in \<open>F\<close>.
\<close>

definition owned ::
  "string \<Rightarrow> ('c world_scheme \<Rightarrow> bool) \<Rightarrow> ('c world_scheme, 'e, 'a) M \<Rightarrow> ('a \<Rightarrow> 'c world_scheme \<Rightarrow> bool) \<Rightarrow> bool" where
  "owned i P m Q \<longleftrightarrow> (\<forall>s r t. P s \<longrightarrow> m s = (r, t) \<longrightarrow> own_steps i s t \<and> (\<forall>x. r = Inr x \<longrightarrow> Q x t))"

definition reached :: "string \<Rightarrow> order_status set \<Rightarrow> 'c world_scheme \<Rightarrow> bool" where
  "reached i F t \<longleftrightarrow> (\<exists>z. latest (f_orders t) i = Some z \<and> po_status z \<in> F)"

definition advances :: "payment_order \<Rightarrow> order_status set \<Rightarrow> ('c, 'a) W \<Rightarrow> bool" where
  "advances ord F m = owned (po_id ord) (in_step ord) m (\<lambda>_. reached (po_id ord) F)"

lemmas advances_defs = advances_def owned_def reached_def

lemma owned_bnd:
  assumes "owned i P m Q" "\<And>x. owned i (Q x) (f x) T"
  shows "owned i P (bnd m f) T"
  unfolding owned_def
proof (intro allI impI)
  fix s r t
  assume s: "P s" and run: "bnd m f s = (r, t)"
  obtain q u where mid: "m s = (q, u)" by (cases "m s")
  have m: "own_steps i s u" "\<And>x. q = Inr x \<Longrightarrow> Q x u" using assms(1) s mid by (auto simp: owned_def)
  show "own_steps i s t \<and> (\<forall>x. r = Inr x \<longrightarrow> T x t)"
  proof (cases q)
    case (Inl e)
    then show ?thesis using run mid m by (auto simp: bnd_def)
  next
    case (Inr x)
    then have "f x u = (r, t)" using run mid by (simp add: bnd_def)
    then show ?thesis using assms(2) [of x] m Inr own.rel_trans unfolding owned_def by blast
  qed
qed

lemma owned_weaken: "owned i P m Q \<Longrightarrow> (\<And>s. P' s \<Longrightarrow> P s) \<Longrightarrow> (\<And>x t. Q x t \<Longrightarrow> Q' x t) \<Longrightarrow> owned i P' m Q'"
  unfolding owned_def by blast

lemma in_step_same: "f_orders t = f_orders s \<Longrightarrow> in_step ord t = in_step ord s"
  by (simp add: in_step_def)

lemma owned_skip: "keeps same_orders m \<Longrightarrow> (\<And>s t. P s \<Longrightarrow> f_orders t = f_orders s \<Longrightarrow> P t) \<Longrightarrow> owned i P m (\<lambda>_. P)"
  unfolding owned_def by (auto dest: keepsD intro: own_same)

lemma advances_bnd:
  assumes "keeps same_orders m" "\<And>x. advances ord F (f x)"
  shows "advances ord F (bnd m f)"
  unfolding advances_def
  by (rule owned_bnd [OF owned_skip [OF assms(1)] assms(2) [unfolded advances_def]]) (metis in_step_same)

lemma advances_cases:
  "advances ord F m \<Longrightarrow> advances ord F n \<Longrightarrow> advances ord F (if b then m else n)"
  "(\<And>x. advances ord F (f x)) \<Longrightarrow> advances ord F (let x = v in f x)"
  by simp_all

lemma write_snapshot:
  assumes "latest (f_orders s) (po_id x) = Some y" "can_transition (po_status y) (po_status x)" "same_terms y x"
    and "keeps same_orders k" "bnd (update_order E x) (\<lambda>_. k) s = (r, t)"
  shows "own_steps (po_id x) s t" "r = Inr v \<Longrightarrow> latest (f_orders t) (po_id x) = Some x"
proof -
  obtain q u where up: "update_order E x s = (q, u)" by (cases "update_order E x s")
  have "f_orders t = f_orders u"
    using assms(5) up keepsD [OF assms(4)] by (cases q) (auto simp: bnd_def)
  then have "(f_orders t = f_orders s \<and> (\<forall>v. r \<noteq> Inr v)) \<or> f_orders t = f_orders s @ [x]"
    using update_order_cases [OF up] assms(5) up by (auto simp: bnd_def)
  then show "own_steps (po_id x) s t" "r = Inr v \<Longrightarrow> latest (f_orders t) (po_id x) = Some x"
    using own_append [OF assms(1-3)] by (auto simp: own_same latest_append)
qed

lemma advances_move:
  assumes g: "\<And>now. same_terms ord (g (ord\<lparr>po_status := st, po_updated_at := now\<rparr>))"
      "\<And>now. po_status (g (ord\<lparr>po_status := st, po_updated_at := now\<rparr>)) = st"
    and k: "\<And>x. keeps same_orders (k x)" and "st \<in> F"
  shows "advances ord F (bnd (transition E st ord) (\<lambda>x. bnd (update_order E (g x)) (\<lambda>_. k x)))"
  unfolding advances_defs
proof (intro allI impI)
  fix s r t
  assume i: "in_step ord s" and run: "bnd (transition E st ord) (\<lambda>x. bnd (update_order E (g x)) (\<lambda>_. k x)) s = (r, t)"
  let ?x = "ord\<lparr>po_status := st, po_updated_at := rfc3339 E (env_time E (n_time s))\<rparr>"
  let ?u = "s\<lparr>n_time := n_time s + 1\<rparr>"
  have id: "po_id (g ?x) = po_id ord" by (rule same_terms_id [OF g(1)])
  show "own_steps (po_id ord) s t \<and> (\<forall>v. r = Inr v \<longrightarrow> (\<exists>z. latest (f_orders t) (po_id ord) = Some z \<and> po_status z \<in> F))"
  proof (cases "can_transition (po_status ord) st")
    case False
    then have "t = s \<and> (\<forall>v. r \<noteq> Inr v)"
      using run by (auto simp: bnd_def transition_def seqM_def guard_def)
    then show ?thesis by (simp add: own.rel_refl)
  next
    case True
    then obtain y where y: "latest (f_orders ?u) (po_id (g ?x)) = Some y" "po_status y = po_status ord" "same_terms y ord"
      using i id by (auto simp: in_step_def can_transition_def)
    have w: "bnd (update_order E (g ?x)) (\<lambda>_. k ?x) ?u = (r, t)"
      using run True by (simp add: bnd_def transition_def seqM_def guard_def ret_def)
    have c: "can_transition (po_status y) (po_status (g ?x))" "same_terms y (g ?x)"
      using True y g same_terms_trans by auto
    have "own_steps (po_id ord) ?u t" using write_snapshot(1) [OF y(1) c k w] id by simp
    moreover have "own_steps (po_id ord) s ?u" by (rule own_same) simp
    moreover have "\<exists>z. latest (f_orders t) (po_id ord) = Some z \<and> po_status z \<in> F" if "r = Inr v" for v
      using write_snapshot(2) [OF y(1) c k w that] id g(2) assms(4) by auto
    ultimately show ?thesis using own.rel_trans by blast
  qed
qed

section \<open>The executor moves orders legally\<close>

lemma mark_failed_advances: "advances ord {Failed} (mark_failed E ord reason)"
proof -
  have "keeps same_orders (bnd (now_rfc3339 E) (\<lambda>now.
     seqM (append_dlq E (dl now x)) (seqM (notify E (po_id x) (''order_failed: '' @ reason))
     (seqM (audit E AT_ORDER_FAILED (pl x) None) (ret x)))))" for dl pl and x :: payment_order
    by (intro keeps_rules order_keeping) simp_all
  then show ?thesis
    unfolding mark_failed_def seqM_def by (intro advances_move [where g = "\<lambda>x. x"]) (simp_all add: same_terms_def)
qed

lemma schedule_retry_advances:
  assumes "\<not> rp_max_attempts pol \<le> po_attempts ord" "\<And>x. keeps same_orders (k (x, True))"
  shows "advances ord {Failed} (bnd (schedule_retry E ord reason pol ra) k)"
proof -
  have "keeps same_orders (bnd (append_retry_job E j) (\<lambda>_. k (y, True)))" for j y
    by (intro keeps_rules assms(2)) simp_all
  then have "advances ord {Failed} (bnd (transition E Failed ord) (\<lambda>x.
      bnd (update_order E (x\<lparr>po_next_retry_at := Some d\<rparr>)) (\<lambda>_. bnd (append_retry_job E (j x)) (\<lambda>_. k (y x, True)))))" for d j y
    by (intro advances_move [where g = "\<lambda>x. x\<lparr>po_next_retry_at := Some d\<rparr>"]) (simp_all add: same_terms_def)
  then show ?thesis
    using assms(1) unfolding schedule_retry_def
    by (simp add: seqM_def bnd_assoc Let_def)
      (intro advances_bnd [OF next_backoff_keeps] advances_bnd [OF utc_now_keeps]; simp add: keeps_rules)
qed

lemma insert_order_log:
  assumes "insert_order E x s = (r, t)"
  shows "f_orders t = f_orders s \<or> f_orders t = f_orders s @ [x]"
proof -
  obtain q u where rd: "orders E s = (q, u)" by (cases "orders E s")
  have "f_orders u = f_orders s" using keepsD [OF reads_keep(2) rd] clock_ok_fields(1) by blast
  with assms rd show ?thesis
    by (auto simp: insert_order_def bnd_def seqM_def ret_def append_order_def
        split: sum.splits option.splits prod.splits dest!: append_jsonl_run)
qed

lemma apply_preference_own:
  "keeps (own_steps i) (apply_settlement_preference E ord cfg)"
proof -
  have new: "keeps (own_steps i) (insert_order E x)" if "po_status x = NotStarted" for x
  proof (rule keepsI)
    fix s r t
    assume run: "insert_order E x s = (r, t)"
    show "own_steps i s t"
    proof (cases "latest (f_orders s) (po_id x)")
      case (Some y)
      then have "y \<in> set (f_orders s)" "po_id y = po_id x" by (auto simp: latest_def dest: find_last_Some)
      from insert_order_known [OF this run] show ?thesis by (rule own_same)
    next
      case None
      have "f_orders t = f_orders s \<or> f_orders t = f_orders s @ [x]" by (rule insert_order_log [OF run])
      then show ?thesis using None that
        by (auto simp: own_same) (auto simp: own_steps_def latest_append intro: lifecycle.create)
    qed
  qed
  have "keeps (own_steps i) (create_payout E ord amount entry)" for amount entry
    unfolding create_payout_def order_new_def bnd_assoc bnd_ret Let_def
    by (intro own.bnd_ok own.seqM_ok new own_keeps order_keeping now_rfc3339_keeps new_uuid_keeps own_clock) simp
  then show ?thesis
    unfolding apply_settlement_preference_def by (intro keeps_rules keeps_choices(2) own.ret_ok)
qed

lemma requires_action_advances:
  assumes "\<And>x. keeps same_orders (k x)"
  shows "advances ord {RequiresAction} (bnd (transition E RequiresAction ord) (\<lambda>x. bnd (update_order E x) (\<lambda>_. k x)))"
  by (rule advances_move [where g = "\<lambda>x. x", OF _ _ assms]) (simp_all add: same_terms_def)

lemma advances_mono: "advances ord F m \<Longrightarrow> F \<subseteq> G \<Longrightarrow> advances ord G m"
  unfolding advances_defs by blast

lemma advances_ret: "advances ord F m \<Longrightarrow> advances ord F (bnd m (\<lambda>x. ret (f x)))"
  unfolding advances_def by (rule owned_bnd, assumption) (simp add: owned_def ret_def own.rel_refl)

definition ended :: "order_status set" where
  "ended = {Success, Failed, RequiresAction}"

lemma after_failure: "advances ord ended (after_settle E cfg acc (Inl (ord, so)))"
proof -
  obtain executed retried failures where acc: "acc = (executed, retried, failures)" by (cases acc)
  show ?thesis
  proof (cases so)
    case (SettleTerminal reason)
    show ?thesis unfolding acc SettleTerminal after_settle_def
      by (simp, rule advances_mono [OF advances_ret [OF mark_failed_advances]]) (simp add: ended_def)
  next
    case (SettleRequiresAction reason)
    have "keeps same_orders (bnd (notify E i ev) (\<lambda>_. bnd (audit E ty pl None) (\<lambda>_. ret v)))" for i ev ty pl and v :: 'x
      by (intro keeps_rules order_keeping)
    then have "advances ord {RequiresAction} (after_settle E cfg acc (Inl (ord, so)))"
      unfolding acc SettleRequiresAction after_settle_def seqM_def by (simp) (rule requires_action_advances)
    then show ?thesis by (rule advances_mono) (simp add: ended_def)
  next
    case (SettleRetryable reason)
    show ?thesis
    proof (cases "rp_max_attempts (cfg_retry cfg) \<le> po_attempts ord")
      case True
      then show ?thesis unfolding acc SettleRetryable after_settle_def schedule_retry_def
        by (simp, intro advances_mono [OF advances_ret [OF mark_failed_advances]]) (simp add: ended_def)
    next
      case False
      show ?thesis unfolding acc SettleRetryable after_settle_def
        by (simp, rule advances_mono [OF schedule_retry_advances [OF False]]) (simp_all add: ended_def keeps_rules)
    qed
  qed
qed

text \<open>\<open>may_move ord s\<close>: the latest line of the order allows the status and the terms of \<open>ord\<close>.\<close>

definition may_move :: "payment_order \<Rightarrow> 'c world_scheme \<Rightarrow> bool" where
  "may_move x s \<longleftrightarrow> (\<exists>y. latest (f_orders s) (po_id x) = Some y \<and> can_transition (po_status y) (po_status x) \<and> same_terms y x)"

lemma owned_transition:
  "owned (po_id ord) (in_step ord) (transition E st ord)
     (\<lambda>x s. may_move x s \<and> (\<exists>now. x = ord\<lparr>po_status := st, po_updated_at := now\<rparr>))"
  unfolding owned_def
proof (intro allI impI)
  fix s r t
  assume i: "in_step ord s" and run: "transition E st ord s = (r, t)"
  show "own_steps (po_id ord) s t \<and> (\<forall>x. r = Inr x \<longrightarrow> may_move x t \<and> (\<exists>now. x = ord\<lparr>po_status := st, po_updated_at := now\<rparr>))"
  proof (cases "can_transition (po_status ord) st")
    case True
    then obtain y where "latest (f_orders s) (po_id ord) = Some y" "po_status y = po_status ord" "same_terms y ord"
      using i by (auto simp: in_step_def can_transition_def)
    moreover have "r = Inr (ord\<lparr>po_status := st, po_updated_at := rfc3339 E (env_time E (n_time s))\<rparr>)"
      "t = s\<lparr>n_time := n_time s + 1\<rparr>"
      using run True by (auto simp: bnd_def transition_def seqM_def guard_def ret_def)
    ultimately show ?thesis using True
      by (auto simp: may_move_def same_terms_def intro!: own_same exI [of _ y])
  next
    case False
    then show ?thesis using run by (auto simp: bnd_def transition_def seqM_def guard_def own.rel_refl)
  qed
qed

lemma owned_update:
  assumes "po_id x = i"
  shows "owned i (may_move x) (update_order E x) (\<lambda>_ s. latest (f_orders s) i = Some x)"
  unfolding owned_def
proof (intro allI impI)
  fix s r t
  assume m: "may_move x s" and run: "update_order E x s = (r, t)"
  from m obtain y where y: "latest (f_orders s) (po_id x) = Some y" "can_transition (po_status y) (po_status x)" "same_terms y x"
    unfolding may_move_def by blast
  have "own_steps i s t" if "f_orders t = f_orders s @ [x]" using own_append [OF y that] assms by simp
  then show "own_steps i s t \<and> (\<forall>v. r = Inr v \<longrightarrow> latest (f_orders t) i = Some x)"
    using update_order_cases [OF run] assms by (auto simp: own_same latest_append)
qed

lemma may_move_same: "f_orders t = f_orders s \<Longrightarrow> may_move x s \<Longrightarrow> same_terms x x' \<Longrightarrow> po_status x' = po_status x \<Longrightarrow> may_move x' t"
  unfolding may_move_def using same_terms_id same_terms_trans by (metis (no_types, lifting))

definition settle_end :: "string \<Rightarrow> (payment_order \<times> settle_outcome) + payment_order \<Rightarrow> 'c world_scheme \<Rightarrow> bool" where
  "settle_end i res t = (case res of
       Inr x \<Rightarrow> po_id x = i \<and> latest (f_orders t) i = Some x \<and> po_status x = Success
     | Inl (x, so) \<Rightarrow> po_id x = i \<and> in_step x t)"

lemma settled_from_moves:
  "settled_from ord x \<Longrightarrow> po_id x = po_id ord \<and> po_status x = Success \<and> can_transition (po_status ord) (po_status x) \<and> same_terms ord x"
  by (auto simp: settled_from_def same_terms_def)

lemma owned_settle:
  "owned (po_id ord) (\<lambda>s. latest (f_orders s) (po_id ord) = Some ord) (outcome (settle E cfg signer compliance ord))
     (settle_end (po_id ord))"
  unfolding owned_def
proof (intro allI impI)
  fix s and r :: "'e exn + _" and t
  assume l: "latest (f_orders s) (po_id ord) = Some ord" and run: "outcome (settle E cfg signer compliance ord) s = (r, t)"
  obtain q where q: "settle E cfg signer compliance ord s = (q, t)"
    and r: "r = (case q of Inr x \<Rightarrow> Inr (Inr x) | Inl (Err e) \<Rightarrow> Inr (Inl e) | Inl Panic \<Rightarrow> Inl Panic)"
    using run by (auto simp: outcome_def split: prod.splits sum.splits exn.splits)
  have res: "settle_result ord (f_orders s) q (f_orders t)"
    using settle_settles q unfolding settles_def by blast
  have step: "own_steps (po_id ord) s t" if "settled_from ord x" "f_orders t = f_orders s @ [x]" for x
    using own_append [of s x ord t] l settled_from_moves [OF that(1)] that(2) by metis
  show "own_steps (po_id ord) s t \<and> (\<forall>x. r = Inr x \<longrightarrow> settle_end (po_id ord) x t)"
  proof (cases q)
    case (Inr x)
    then have "settled_from ord x" "f_orders t = f_orders s @ [x]" using res by (auto simp: settle_result_def)
    then show ?thesis using step r Inr settled_from_moves [of ord x] by (simp add: settle_end_def latest_append)
  next
    case (Inl e)
    show ?thesis
    proof (cases e)
      case Panic
      then show ?thesis using res Inl r step by (auto simp: settle_result_def own_same)
    next
      case (Err p)
      obtain x so where p: "p = (x, so)" by (cases p)
      from res Inl Err p consider "x = ord \<or> (\<exists>rc. x = ord\<lparr>po_receipt := Some rc\<rparr>)" "f_orders t = f_orders s"
        | "settled_from ord x" "f_orders t = f_orders s \<or> f_orders t = f_orders s @ [x]"
        by (auto simp: settle_result_def)
      then show ?thesis
      proof cases
        case 1
        then have "po_id x = po_id ord" "po_status x = po_status ord" "same_terms ord x" by (auto simp: same_terms_def)
        then show ?thesis using 1(2) l r Inl Err p by (auto simp: settle_end_def in_step_def own_same)
      next
        case 2
        then show ?thesis using step r Inl Err p settled_from_moves [OF 2(1)]
          by (auto simp: settle_end_def in_step_def own_same)
      qed
    qed
  qed
qed

lemma owned_after_settle:
  "owned i (settle_end i res) (after_settle E cfg acc res) (\<lambda>_. reached i ended)"
proof (cases res)
  case (Inl p)
  obtain x so where p: "p = (x, so)" by (cases p)
  show ?thesis
    using after_failure [of x E cfg acc so] unfolding Inl p owned_def advances_def
    by (auto simp: settle_end_def)
next
  case (Inr x)
  have k: "keeps (own_steps i) (after_settle E cfg acc (Inr x))"
    unfolding after_settle_def by (cases acc) (simp add: apply_preference_own own.seqM_ok own.ret_ok)
  show ?thesis
    unfolding owned_def Inr
  proof (intro allI impI)
    fix s r t
    assume e: "settle_end i (Inr x) s" and run: "after_settle E cfg acc (Inr x) s = (r, t)"
    have "own_steps i s t" by (rule keepsD [OF k run])
    moreover from this have "latest (f_orders t) i = Some x"
      using lifecycle_final [of "f_orders s" "f_orders t" i x] e by (simp add: own_steps_def settle_end_def)
    ultimately show "own_steps i s t \<and> (\<forall>v. r = Inr v \<longrightarrow> reached i ended t)"
      using e by (auto simp: reached_def ended_def settle_end_def)
  qed
qed

lemma rollup_keeping: "keeps same_orders (rollup_event E i)"
  unfolding rollup_event_def by (intro keeps_rules) simp_all

lemma owned_finish:
  "owned i (settle_end i res) (bnd (after_settle E cfg acc res) (\<lambda>(x, acc'). seqM (rollup_event E (po_id x)) (ret acc')))
     (\<lambda>_. reached i ended)"
proof (rule owned_bnd [OF owned_after_settle])
  fix v :: "payment_order \<times> nat \<times> nat \<times> string list"
  have "keeps same_orders (case v of (x, acc') \<Rightarrow> seqM (rollup_event E (po_id x)) (ret acc'))"
    by (intro keeps_rules rollup_keeping)
  then show "owned i (reached i ended) (case v of (x, acc') \<Rightarrow> seqM (rollup_event E (po_id x)) (ret acc')) (\<lambda>_. reached i ended)"
    by (rule owned_skip) (simp add: reached_def)
qed

lemma process_order_advances: "advances ord ended (process_order E cfg signer compliance acc ord)"
proof -
  let ?i = "po_id ord"
  let ?late = "\<lambda>x s. may_move x s \<and> (\<exists>now. x = ord\<lparr>po_status := Executing, po_updated_at := now\<rparr>)"
  let ?body = "\<lambda>x. seqM (update_order E x)
      (bnd (outcome (settle E cfg signer compliance x)) (\<lambda>res.
       bnd (after_settle E cfg acc res) (\<lambda>(y, acc'). seqM (rollup_event E (po_id y)) (ret acc'))))"
  have exec: "owned ?i (may_move x) (?body x) (\<lambda>_. reached ?i ended)" if "po_id x = ?i" for x
    unfolding seqM_def [of "update_order E x"]
    by (rule owned_bnd [OF owned_update [OF that]], rule owned_bnd [OF _ owned_finish])
      (use owned_settle [of x E cfg signer compliance] that in simp)
  have since: "owned ?i (?late x) (?body (bump (x\<lparr>po_executing_since := Some since\<rparr>))) (\<lambda>_. reached ?i ended)" for x since
  proof (cases "po_id x = ?i")
    case True
    let ?x = "bump (x\<lparr>po_executing_since := Some since\<rparr>)"
    have x: "same_terms x ?x" "po_status ?x = po_status x" "po_id ?x = ?i"
      using True by (simp_all add: bump_def same_terms_def)
    then show ?thesis using owned_weaken [OF exec [OF x(3)], of "?late x" "\<lambda>_. reached ?i ended"]
      may_move_same [OF refl _ x(1,2)] by blast
  next
    case False
    then have "x \<noteq> ord\<lparr>po_status := Executing, po_updated_at := now\<rparr>" for now by auto
    then show ?thesis by (simp add: owned_def)
  qed
  show ?thesis
    unfolding advances_def process_order_def Let_def
    by (rule owned_bnd [OF owned_transition], rule owned_bnd [OF owned_skip [OF now_rfc3339_keeps [OF clock_ok_fields(1)]] since])
      (simp add: may_move_def)
qed

section \<open>A whole pass\<close>

definition logged :: "payment_order \<Rightarrow> 'c world_scheme \<Rightarrow> bool" where
  "logged x s \<longleftrightarrow> latest (f_orders s) (po_id x) = Some x"

lemma logged_in_step: "logged x s \<Longrightarrow> in_step x s"
  by (auto simp: logged_def in_step_def)

text \<open>Steps of the orders with ids in \<open>I\<close>; the others stay as they are.\<close>

definition group_steps :: "string set \<Rightarrow> 'c world_scheme \<Rightarrow> 'c world_scheme \<Rightarrow> bool" where
  "group_steps I s t \<longleftrightarrow> lifecycle\<^sup>*\<^sup>* (f_orders s) (f_orders t) \<and>
     (\<forall>j. j \<notin> I \<longrightarrow> latest (f_orders s) j \<noteq> None \<longrightarrow> latest (f_orders t) j = latest (f_orders s) j)"

lemma group_same: "f_orders t = f_orders s \<Longrightarrow> group_steps I s t"
  by (simp add: group_steps_def)

lemma group_trans: "group_steps I s t \<Longrightarrow> group_steps J t u \<Longrightarrow> group_steps (I \<union> J) s u"
  by (auto simp: group_steps_def)

lemma own_group: "own_steps i s t = group_steps {i} s t"
  by (simp add: own_steps_def group_steps_def)

lemma group_logged: "group_steps I s t \<Longrightarrow> logged x s \<Longrightarrow> po_id x \<notin> I \<Longrightarrow> logged x t"
  by (simp add: group_steps_def logged_def)

lemma group_reached: "group_steps I s t \<Longrightarrow> reached i F s \<Longrightarrow> i \<notin> I \<Longrightarrow> reached i F t"
  by (auto simp: group_steps_def reached_def)

lemma foldM_orders:
  assumes f: "\<And>acc x. owned (po_id x) (logged x) (f acc x) (\<lambda>_. reached (po_id x) F)"
  shows "foldM f acc xs s = (r, t) \<Longrightarrow> distinct (map po_id xs) \<Longrightarrow> \<forall>x \<in> set xs. logged x s \<Longrightarrow>
    group_steps (po_id ` set xs) s t \<and> (\<forall>v. r = Inr v \<longrightarrow> (\<forall>x \<in> set xs. reached (po_id x) F t))"
proof (induction xs arbitrary: acc s)
  case Nil
  then show ?case by (simp add: ret_def group_same)
next
  case (Cons y ys)
  obtain q u where mid: "f acc y s = (q, u)" by (cases "f acc y s")
  have y: "group_steps {po_id y} s u" "\<And>a. q = Inr a \<Longrightarrow> reached (po_id y) F u"
    using f [of y acc] mid Cons.prems(3) by (auto simp: owned_def own_group)
  have ys: "\<forall>x \<in> set ys. logged x u"
    using Cons.prems(2,3) group_logged [OF y(1)] by (metis distinct.simps(2) image_eqI list.set_intros(2) list.set_map
        list.simps(9) singletonD)
  show ?case
  proof (cases q)
    case (Inl e)
    then have "u = t" "r = Inl e" using Cons.prems(1) mid by (simp_all add: bnd_def)
    then show ?thesis using y(1) by (auto simp: group_steps_def)
  next
    case (Inr a)
    then have "foldM f a ys u = (r, t)" using Cons.prems(1) mid by (simp add: bnd_def)
    from Cons.IH [OF this _ ys] Cons.prems(2)
    have IH: "group_steps (po_id ` set ys) u t" "\<forall>v. r = Inr v \<longrightarrow> (\<forall>x \<in> set ys. reached (po_id x) F t)" by auto
    have "reached (po_id y) F t" using group_reached [OF IH(1) y(2) [OF Inr]] Cons.prems(2) by simp
    then show ?thesis using group_trans [OF y(1) IH(1)] IH(2) by simp
  qed
qed

lemma owned_cases:
  "owned i P m Q \<Longrightarrow> owned i P n Q \<Longrightarrow> owned i P (if b then m else n) Q"
  "owned i P m Q \<Longrightarrow> (\<And>x. owned i P (f x) Q) \<Longrightarrow> owned i P (case z of None \<Rightarrow> m | Some x \<Rightarrow> f x) Q"
  by (simp_all split: option.split)

lemma owned_logged:
  "advances (bump ord) UNIV m \<Longrightarrow> owned (po_id ord) (logged ord) m (\<lambda>_. reached (po_id ord) UNIV)"
  unfolding advances_def owned_def bump_def
  by (auto simp: logged_def in_step_def same_terms_def)

lemma requeue_one_owned: "owned (po_id ord) (logged ord) (requeue_one E cfg c ord) (\<lambda>_. reached (po_id ord) UNIV)"
proof -
  have skip: "owned (po_id ord) (logged ord) (ret v) (\<lambda>_. reached (po_id ord) UNIV)" for v :: "nat \<times> nat"
    by (auto simp: owned_def ret_def own.rel_refl logged_def reached_def)
  have k: "keeps same_orders (seqM (rollup_event E i) (ret v))" for i and v :: "nat \<times> nat"
    by (intro keeps_rules rollup_keeping)
  have failed: "advances (bump ord) UNIV (bnd (mark_failed E (bump ord) reason) (\<lambda>x. seqM (rollup_event E (po_id x)) (ret v)))"
    for reason and v :: "nat \<times> nat"
    unfolding advances_def
    by (rule owned_bnd [OF mark_failed_advances [unfolded advances_def] owned_weaken [OF owned_skip [OF k]]])
      (auto simp: reached_def)
  have again: "advances (bump ord) UNIV (bnd (transition E NotStarted (bump ord)) (\<lambda>x.
     let x3 = x\<lparr>po_executing_since := None, po_next_retry_at := None\<rparr> in
     seqM (update_order E x3) (seqM (audit E ty (pl x3) None) (seqM (rollup_event E (po_id x3)) (ret v)))))"
    for ty pl and v :: "nat \<times> nat"
    unfolding Let_def seqM_def [of "update_order E z" for z]
    by (rule advances_move [where g = "\<lambda>x. x\<lparr>po_executing_since := None, po_next_retry_at := None\<rparr>"])
      (simp_all add: same_terms_def own.seqM_ok same_rel.seqM_ok k order_keeping)
  have expired: "keeps same_orders (executing_expired E since ttl)" for since ttl
    unfolding executing_expired_def by (intro keeps_rules)
  show ?thesis
    unfolding requeue_one_def Let_def [of "bump ord"]
    by (intro owned_cases owned_bnd [OF owned_skip [OF expired]] skip owned_logged [OF failed] owned_logged [OF again])
      (simp add: logged_def)
qed

lemma orders_with_status_spec:
  assumes "shuffle_ok E" "orders_with_status E st s = (Inr os, t)"
  shows "f_orders t = f_orders s" "distinct (map po_id os)" "x \<in> set os \<longleftrightarrow> logged x s \<and> po_status x = st"
proof -
  obtain all u where all: "latest_orders E s = (Inr all, u)" "os = filter (\<lambda>x. po_status x = st) all" "t = u"
    using assms(2) by (auto simp: orders_with_status_def M_Inr)
  note spec = latest_orders_spec [OF assms(1) all(1)]
  show "f_orders t = f_orders s" using latest_orders_run(2) [OF all(1)] all(3) by simp
  show "distinct (map po_id os)" using spec(1) unfolding all(2) by (rule distinct_map_filter)
  have "x \<in> set all" if "logged x s"
  proof -
    have "po_id x \<in> set (map po_id all)" using that spec(2) by (auto simp: logged_def latest_def dest: find_last_Some)
    then obtain y where "y \<in> set all" "po_id y = po_id x" by auto
    then show ?thesis using spec(3) [of y] that by (simp add: logged_def latest_def)
  qed
  then show "x \<in> set os \<longleftrightarrow> logged x s \<and> po_status x = st"
    using spec(3) [of x] unfolding all(2) by (auto simp: logged_def latest_def)
qed

lemma ready_orders_spec:
  assumes "shuffle_ok E" "ready_orders E now s = (Inr os, t)"
  shows "f_orders t = f_orders s" "distinct (map po_id os)"
    "x \<in> set os \<longleftrightarrow> logged x s \<and> (po_status x = NotStarted \<or> po_status x = Failed \<and> is_due now x)"
proof -
  obtain fresh u failed where a: "orders_with_status E NotStarted s = (Inr fresh, u)"
    "orders_with_status E Failed u = (Inr failed, t)" "os = fresh @ filter (is_due now) failed"
    using assms(2) by (auto simp: ready_orders_def M_Inr)
  note f1 = orders_with_status_spec [OF assms(1) a(1)] and f2 = orders_with_status_spec [OF assms(1) a(2)]
  show "f_orders t = f_orders s" using f1(1) f2(1) by simp
  have log: "logged y u = logged y s" for y using f1(1) by (simp add: logged_def)
  show "x \<in> set os \<longleftrightarrow> logged x s \<and> (po_status x = NotStarted \<or> po_status x = Failed \<and> is_due now x)"
    using f1(3) f2(3) unfolding a(3) log by auto
  have "po_id x \<noteq> po_id y" if "x \<in> set fresh" "y \<in> set failed" for x y
  proof
    assume "po_id x = po_id y"
    then have "x = y" using f1(3) [of x] f2(3) [of y] that unfolding log by (simp add: logged_def)
    then show False using f1(3) [of x] f2(3) [of y] that by simp
  qed
  then have "set (map po_id fresh) \<inter> set (map po_id (filter (is_due now) failed)) = {}" by auto
  then show "distinct (map po_id os)"
    using f1(2) distinct_map_filter [OF f2(2)] unfolding a(3) map_append distinct_append by blast
qed

lemma requeue_steps:
  assumes "shuffle_ok E" "requeue_stuck_executing E cfg s = (r, t)"
  shows "\<exists>I. group_steps I s t \<and> (\<forall>x. logged x s \<longrightarrow> po_status x \<noteq> Executing \<longrightarrow> po_id x \<notin> I)"
proof -
  obtain q u where rd: "orders_with_status E Executing s = (q, u)" by (cases "orders_with_status E Executing s")
  have same: "f_orders u = f_orders s"
    using keepsD [OF latest_orders_keeps(2) [OF preorders(1) clock_ok_fields(1)] rd] .
  show ?thesis
  proof (cases q)
    case (Inl e)
    then have "t = u" using assms(2) rd by (simp add: requeue_stuck_executing_def bnd_def)
    then show ?thesis using group_same [OF same] by (auto intro: exI [of _ "{}"])
  next
    case (Inr os)
    then have fold: "foldM (requeue_one E cfg) (0, 0) os u = (r, t)"
      using assms(2) rd by (simp add: requeue_stuck_executing_def bnd_def)
    note spec = orders_with_status_spec [OF assms(1) rd [unfolded Inr]]
    have "group_steps (po_id ` set os) u t"
      using foldM_orders [OF requeue_one_owned fold spec(2)] spec(1,3) by (auto simp: logged_def)
    then have "group_steps (po_id ` set os) s t" using same by (simp add: group_steps_def)
    moreover have "\<forall>x. logged x s \<longrightarrow> po_status x \<noteq> Executing \<longrightarrow> po_id x \<notin> po_id ` set os"
      using spec(3) by (metis (no_types, lifting) imageE logged_def option.inject)
    ultimately show ?thesis by blast
  qed
qed

lemma process_order_owned:
  "owned (po_id ord) (logged ord) (process_order E cfg signer compliance acc ord) (\<lambda>_. reached (po_id ord) ended)"
  using process_order_advances unfolding advances_def by (rule owned_weaken) (auto intro: logged_in_step)

lemma processing_steps:
  assumes "shuffle_ok E" "ready_orders E now s = (Inr os, u)"
    and "foldM (process_order E cfg signer compliance) a os u = (r, t)"
  shows "lifecycle\<^sup>*\<^sup>* (f_orders s) (f_orders t)"
    "r = Inr v \<Longrightarrow> logged x s \<Longrightarrow> po_status x = NotStarted \<Longrightarrow> reached (po_id x) ended t"
proof -
  note spec = ready_orders_spec [OF assms(1,2)]
  have "\<forall>x \<in> set os. logged x u" using spec(1,3) by (simp add: logged_def)
  from foldM_orders [OF process_order_owned assms(3) spec(2) this]
  have all: "\<forall>v. r = Inr v \<longrightarrow> (\<forall>x \<in> set os. reached (po_id x) ended t)" and "group_steps (po_id ` set os) u t" by blast+
  then show "lifecycle\<^sup>*\<^sup>* (f_orders s) (f_orders t)" using spec(1) by (simp add: group_steps_def)
  show "reached (po_id x) ended t" if "r = Inr v" "logged x s" "po_status x = NotStarted"
    using all that spec(3) by blast
qed

definition order_steps :: "'c world_scheme \<Rightarrow> 'c world_scheme \<Rightarrow> bool" where
  "order_steps s t \<longleftrightarrow> lifecycle\<^sup>*\<^sup>* (f_orders s) (f_orders t)"

interpretation order_steps: state_preorder order_steps
  by unfold_locales (auto simp: order_steps_def)

lemma steps_same: "keeps same_orders m \<Longrightarrow> keeps order_steps m"
  by (auto simp: keeps_def order_steps_def)

lemma around_keeping:
  "keeps same_orders (open_wallet E C path pass)" "keeps same_orders (wallet_save E C pass)" "keeps same_orders (load_config E)"
  "keeps same_orders (deferred_pass E cfg)" "keeps same_orders (ready_orders E now)" "keeps same_orders (now_rfc3339 E)"
  unfolding open_wallet_def wallet_open_def read_wallet_file_def wallet_save_def write_wallet_file_def load_config_def
    deferred_pass_def commit_deferred_batch_def batch_new_def write_batch_file_def clear_deferred_commitments_def ready_orders_def
  by (intro keeps_rules keeps_modify; simp)+

lemma processing_keeps:
  assumes "shuffle_ok E" "\<And>os v. keeps order_steps (k os v)"
  shows "keeps order_steps (bnd (ready_orders E now) (\<lambda>os. bnd (foldM (process_order E cfg signer compliance) a os) (k os)))"
proof (rule keepsI)
  fix s r t
  assume run: "bnd (ready_orders E now) (\<lambda>os. bnd (foldM (process_order E cfg signer compliance) a os) (k os)) s = (r, t)"
  obtain q u where rd: "ready_orders E now s = (q, u)" by (cases "ready_orders E now s")
  show "order_steps s t"
  proof (cases q)
    case (Inl e)
    then show ?thesis using run rd keepsD [OF around_keeping(5) rd] by (simp add: bnd_def order_steps_def)
  next
    case (Inr os)
    obtain p w where fold: "foldM (process_order E cfg signer compliance) a os u = (p, w)"
      by (cases "foldM (process_order E cfg signer compliance) a os u")
    have "order_steps s w" using processing_steps(1) [OF assms(1) rd [unfolded Inr] fold] by (simp add: order_steps_def)
    moreover have "order_steps w t"
      using run rd Inr fold keepsD [OF assms(2)] by (cases p) (auto simp: bnd_def order_steps.rel_refl)
    ultimately show ?thesis by (rule order_steps.rel_trans)
  qed
qed

lemma run_once_steps:
  assumes "shuffle_ok E"
  shows "keeps order_steps (run_once E C path pass signer compliance)"
proof -
  have rq: "keeps order_steps (requeue_stuck_executing E cfg)" for cfg
    by (rule keepsI) (use requeue_steps [OF assms] in \<open>force simp: order_steps_def group_steps_def\<close>)
  note around = around_keeping [THEN steps_same]
  show ?thesis
    unfolding run_once_def seqM_def [of "open_wallet E C path pass"]
    by (intro order_steps.bnd_ok [OF around(1)] order_steps.bnd_ok [OF around(3)] order_steps.bnd_ok [OF around(6)]
        order_steps.bnd_ok [OF rq] order_steps.bnd_ok [OF around(4)] keeps_prod processing_keeps assms
        order_steps.seqM_ok order_steps.ret_ok or_err_keeps around)
qed

lemma run_once_serves:
  assumes "shuffle_ok E" "run_once E C path pass signer compliance s = (Inr summary, t)"
    and "latest (f_orders s) i = Some x" "po_status x = NotStarted"
  shows "reached i ended t"
proof -
  from assms(2) obtain u0 cfg u1 now u2 q u3 n u4 os u5 p u6 u7
    where run: "open_wallet E C path pass s = (Inr (), u0)" "load_config E u0 = (Inr cfg, u1)" "now_rfc3339 E u1 = (Inr now, u2)"
      "requeue_stuck_executing E cfg u2 = (Inr q, u3)" "deferred_pass E cfg u3 = (Inr n, u4)"
      "ready_orders E now u4 = (Inr os, u5)" "foldM (process_order E cfg signer compliance) (0, 0, []) os u5 = (Inr p, u6)"
    and save: "wallet_save E C pass u6 = (Inr (), u7)" "t = u7"
    unfolding run_once_def bnd_Inr seqM_Inr by (auto simp: M_Inr split: prod.splits)
  have i: "po_id x = i" by (rule latest_id [OF assms(3)])
  have "logged x u2"
    using assms(3) i keepsD [OF around_keeping(1) run(1)] keepsD [OF around_keeping(3) run(2)] keepsD [OF around_keeping(6) run(3)]
    by (simp add: logged_def)
  moreover obtain I where "group_steps I u2 u3" "\<forall>x. logged x u2 \<longrightarrow> po_status x \<noteq> Executing \<longrightarrow> po_id x \<notin> I"
    using requeue_steps [OF assms(1) run(4)] by blast
  ultimately have "logged x u3" using assms(4) group_logged by fastforce
  then have "logged x u4" using keepsD [OF around_keeping(4) run(5)] by (simp add: logged_def)
  from processing_steps(2) [OF assms(1) run(6,7) refl this assms(4)] have "reached i ended u6" using i by simp
  then show ?thesis using keepsD [OF around_keeping(2) save(1)] save(2) by (simp add: reached_def)
qed

section \<open>Callbacks and histories\<close>

lemma callback_advances:
  "advances ord UNIV (callback_settled E cb ord)" "advances ord UNIV (callback_failed E cb ord)"
proof -
  have "keeps same_orders (seqM (notify E i ev) (audit E ty pl None))" for i ev ty pl
    by (intro keeps_rules order_keeping)
  then show "advances ord UNIV (callback_settled E cb ord)"
    unfolding callback_settled_def Let_def seqM_def [of "update_order E z" for z]
    by (intro advances_move [where g = "\<lambda>x. x\<lparr>po_executing_since := None, po_next_retry_at := None\<rparr>"])
      (simp_all add: same_terms_def)
  have "keeps same_orders (bnd (now_rfc3339 E) (\<lambda>now. append_dlq E (dl now x)))" for dl and x :: payment_order
    by (intro keeps_rules) simp_all
  then show "advances ord UNIV (callback_failed E cb ord)"
    unfolding callback_failed_def seqM_def by (intro advances_move [where g = "\<lambda>x. x"]) (simp_all add: same_terms_def)
qed

lemma get_order_logged:
  assumes "get_order E i s = (r, u)"
  shows "f_orders u = f_orders s" "r = Inr x \<Longrightarrow> logged x s \<and> po_id x = i"
proof -
  show "f_orders u = f_orders s" by (rule get_same(1) [OF assms])
  assume "r = Inr x"
  then have "find_last (\<lambda>y. po_id y = i) (f_orders s) = Some x"
    using order_log.get_ok assms by blast
  then show "logged x s \<and> po_id x = i" by (auto simp: logged_def latest_def dest: find_last_Some)
qed

lemma process_callback_steps: "keeps order_steps (process_callback E cb)"
proof (rule keepsI)
  fix s :: "'c world_scheme" and r t
  assume run: "process_callback E cb s = (r, t)"
  obtain q u where g: "get_order E (sc_order cb) s = (q, u)" by (cases "get_order E (sc_order cb) s")
  note same = get_order_logged [OF g]
  show "order_steps s t"
  proof (cases q)
    case (Inl e)
    then show ?thesis using run g same(1) by (simp add: process_callback_def bnd_def order_steps_def)
  next
    case (Inr ord)
    have i: "in_step ord u" using same(2) [OF Inr] same(1) by (intro logged_in_step) (auto simp: logged_def)
    have "t = u \<or> callback_settled E cb ord u = (r, t) \<or> callback_failed E cb ord u = (r, t)"
      using run g Inr by (auto simp: process_callback_def bnd_def seqM_def guard_def ret_def fail_def throw_def split: if_splits)
    then have "own_steps (po_id ord) u t"
      using callback_advances [of ord E cb] i unfolding advances_defs by (auto simp: own.rel_refl)
    then show ?thesis using same(1) by (simp add: own_steps_def order_steps_def)
  qed
qed

lemma handle_connection_steps: "keeps order_steps (handle_connection E c)"
proof -
  have "keeps same_orders (load_secret E i)" "keeps same_orders (clock_if E b)" "keeps same_orders (send_response c n m)" for i b n m
    unfolding load_secret_def vault_read_def clock_if_def send_response_def by (intro keeps_rules; simp)+
  note k = this [THEN steps_same]
  show ?thesis
    unfolding handle_connection_def
    by (intro keeps_sum keeps_option keeps_prod keeps_if order_steps.throw_ok order_steps.bnd_ok outcome_keeps k
        process_callback_steps)
qed

text \<open>
  The life of the order log: passes of the executor, connections to the webhook receiver
  and new orders, in any sequence and cut off anywhere.
\<close>

inductive service_step :: "env \<Rightarrow> 'c world_scheme \<Rightarrow> 'c world_scheme \<Rightarrow> bool" for E where
  pass: "run_once E C path passphrase signer scorer s = (r, t) \<Longrightarrow> service_step E s t"
| callback: "handle_connection E c s = (r, t) \<Longrightarrow> service_step E s t"
| order: "insert_order E x s = (r, t) \<Longrightarrow> po_status x = NotStarted \<Longrightarrow> service_step E s t"

lemma insert_order_steps:
  assumes "insert_order E x s = (r, t)" "po_status x = NotStarted"
  shows "order_steps s t"
proof (cases "latest (f_orders s) (po_id x)")
  case (Some y)
  then have "y \<in> set (f_orders s)" "po_id y = po_id x" by (auto simp: latest_def dest: find_last_Some)
  from insert_order_known [OF this assms(1)] show ?thesis by (simp add: order_steps_def)
next
  case None
  then show ?thesis using insert_order_log [OF assms(1)] lifecycle.create [OF None assms(2)]
    by (auto simp: order_steps_def)
qed

lemma service_steps:
  assumes "shuffle_ok E" "(service_step E)\<^sup>*\<^sup>* s t"
  shows "order_steps s t"
  using assms(2)
proof (induction rule: rtranclp_induct)
  case (step t u)
  from step.hyps(2) have "order_steps t u"
    by cases (blast intro: keepsD [OF run_once_steps [OF assms(1)]] keepsD [OF handle_connection_steps] insert_order_steps)+
  with step.IH show ?case by (rule order_steps.rel_trans)
qed (rule order_steps.rel_refl)

section \<open>Properties\<close>

lemma example_shuffle: "shuffle_ok bech_env"
  by (simp add: shuffle_ok_def bech_env_def example_env_def)

text \<open>
  C1: The payment service refines the order machine. In every history of executor passes,
  webhook connections and new orders, wherever each of them is cut off by an error or a
  panic, the order log is reached from the one at the start by steps of the abstract
  machine: orders are created \<open>NOT_STARTED\<close>, and each further snapshot follows the latest
  one of its order along a legal transition with the same terms.
\<close>

theorem service_refines_lifecycle:
  assumes "shuffle_ok E" "(service_step E)\<^sup>*\<^sup>* s t"
  shows "lifecycle\<^sup>*\<^sup>* (f_orders s) (f_orders t)"
  using service_steps [OF assms] by (simp add: order_steps_def)

theorem service_refines_lifecycle_witness:
  "\<exists>r t. run_once bech_env example_codec ''w'' ''pw'' None None (example_world\<lparr>f_orders := [example_order]\<rparr>) = (r, t) \<and>
    lifecycle\<^sup>*\<^sup>* [example_order] (f_orders t)"
proof -
  let ?s = "example_world\<lparr>f_orders := [example_order]\<rparr>"
  obtain r t where run: "run_once bech_env example_codec ''w'' ''pw'' None None ?s = (r, t)" by fastforce
  then have "(service_step bech_env)\<^sup>*\<^sup>* ?s t" by (blast intro: service_step.pass)
  from service_refines_lifecycle [OF example_shuffle this] run show ?thesis by auto
qed

text \<open>
  C11: Nothing changes what an order says. After any history every order still exists with
  the payee, amount, currency, conversion, card and routing it had, its signature verifies
  exactly when it did before, and an order that was \<open>SUCCESS\<close> has no new snapshot at all.
\<close>

theorem history_keeps_terms:
  assumes "shuffle_ok E" "(service_step E)\<^sup>*\<^sup>* s t" "latest (f_orders s) i = Some x"
  shows "\<exists>y. latest (f_orders t) i = Some y \<and> same_terms x y \<and> verify_order E y = verify_order E x \<and>
    (po_status x = Success \<longrightarrow> y = x)"
proof -
  have steps: "lifecycle\<^sup>*\<^sup>* (f_orders s) (f_orders t)"
    using service_steps [OF assms(1,2)] by (simp add: order_steps_def)
  obtain y where y: "latest (f_orders t) i = Some y" "same_terms x y" using lifecycle_terms [OF steps assms(3)] by blast
  have "signed_body y = signed_body x" using y(2) by (simp add: signed_body_def same_terms_def)
  moreover have "po_signer y = po_signer x" "po_signature y = po_signature x" "po_id y = po_id x"
    using y(2) by (simp_all add: same_terms_def)
  ultimately have "verify_order E y = verify_order E x" by (simp only: verify_order_def)
  moreover have "po_status x = Success \<Longrightarrow> y = x" using lifecycle_final [OF steps assms(3)] y(1) by simp
  ultimately show ?thesis using y by blast
qed

theorem history_keeps_terms_witness:
  "\<exists>r t y. run_once bech_env example_codec ''w'' ''pw'' None None (example_world\<lparr>f_orders := [example_order]\<rparr>) = (r, t) \<and>
    latest (f_orders t) ''o1'' = Some y \<and> po_amount y = ''5.00''"
proof -
  let ?s = "example_world\<lparr>f_orders := [example_order]\<rparr>"
  obtain r t where run: "run_once bech_env example_codec ''w'' ''pw'' None None ?s = (r, t)" by fastforce
  have "latest (f_orders ?s) ''o1'' = Some example_order" by (simp add: latest_def example_order_def find_last_def)
  from history_keeps_terms [OF example_shuffle _ this, of t] run show ?thesis by (auto simp: same_terms_def example_order_def intro: service_step.pass)
qed

end
