(* ===== verification/Progress.thy ===== *)
theory Progress
  imports Lifecycle
begin

text \<open>
  Passes return. Without file faults, with a wallet that opens and saves and a sane
  configuration, no pass of the executor fails or panics, whatever the network, the
  facilitators, the scorer and the orders do; and every order that was waiting when the
  pass began has been decided when it ends.
\<close>

section \<open>Programs that do not panic\<close>

text \<open>
  \<open>sound E m\<close>: from a wallet whose history is a well-formed range, \<open>m\<close> does not panic and leaves
  such a wallet. \<open>returns E m\<close>: moreover it returns a value.
\<close>

definition sound :: "env \<Rightarrow> ('c wstate_scheme, 'e, 'a) M \<Rightarrow> bool" where
  "sound E m \<longleftrightarrow> (\<forall>s r t. rail_ok E (wal s) \<longrightarrow> m s = (r, t) \<longrightarrow> rail_ok E (wal t) \<and> r \<noteq> Inl Panic)"

definition returns :: "env \<Rightarrow> ('c wstate_scheme, 'e, 'a) M \<Rightarrow> bool" where
  "returns E m \<longleftrightarrow> (\<forall>s. rail_ok E (wal s) \<longrightarrow> (\<exists>x t. m s = (Inr x, t) \<and> rail_ok E (wal t)))"

lemma returns_sound: "returns E m \<Longrightarrow> sound E m"
  unfolding sound_def returns_def by fastforce

lemma sound_bnd:
  assumes "sound E m" "\<And>x. sound E (f x)"
  shows "sound E (bnd m f)"
  unfolding sound_def
proof (intro allI impI)
  fix s r t
  assume ok: "rail_ok E (wal s)" and run: "bnd m f s = (r, t)"
  obtain q u where mid: "m s = (q, u)" by (cases "m s")
  have u: "rail_ok E (wal u)" "q \<noteq> Inl Panic" using assms(1) ok mid by (auto simp: sound_def)
  show "rail_ok E (wal t) \<and> r \<noteq> Inl Panic"
  proof (cases q)
    case (Inl e)
    then show ?thesis using run mid u by (auto simp: bnd_def)
  next
    case (Inr x)
    then have "f x u = (r, t)" using run mid by (simp add: bnd_def)
    then show ?thesis using assms(2) u(1) unfolding sound_def by blast
  qed
qed

lemma returns_bnd:
  fixes m :: "('a wstate_scheme, 'e, 'b) M"
  assumes "returns E m" "\<And>x. returns E (f x)"
  shows "returns E (bnd m f)"
  unfolding returns_def
proof (intro allI impI)
  fix s :: "'a wstate_scheme"
  assume "rail_ok E (wal s)"
  then obtain x u where "m s = (Inr x, u)" "rail_ok E (wal u)" using assms(1) unfolding returns_def by blast
  moreover from this obtain y t where "f x u = (Inr y, t)" "rail_ok E (wal t)" using assms(2) unfolding returns_def by blast
  ultimately show "\<exists>y t. bnd m f s = (Inr y, t) \<and> rail_ok E (wal t)" by (simp add: bnd_def)
qed

lemma returns_seqM: "returns E m \<Longrightarrow> returns E n \<Longrightarrow> returns E (seqM m n)"
  unfolding seqM_def by (rule returns_bnd)

lemma sound_seqM: "sound E m \<Longrightarrow> sound E n \<Longrightarrow> sound E (seqM m n)"
  unfolding seqM_def by (rule sound_bnd)

lemma sound_basic:
  "sound E (ret x)" "sound E (fail e)" "sound E (result r)" "sound E (ok_or z e)" "sound E (guard b e)" "sound E (gets g)"
  "sound E (utc_now E')" "sound E (now_rfc3339 E')" "sound E (new_uuid E')" "sound E (next_fault E')" "sound E (fill_random E' n)"
  by (auto simp: sound_def ret_def gets_def ok_or_def guard_def result_def lift_def split: option.splits sum.splits if_splits)

lemma returns_basic:
  "returns E (ret x)" "returns E (gets g)" "returns E (utc_now E')" "returns E (now_rfc3339 E')" "returns E (new_uuid E')"
  "returns E (next_fault E')" "returns E (fill_random E' n)" "returns E (result (Inr y))"
  by (auto simp: returns_def ret_def gets_def result_def lift_def)

lemma returns_modify: "(\<And>s. wal (f s) = wal s) \<Longrightarrow> returns E (modify f)"
  by (simp add: returns_def modify_def)

lemma sound_modify: "(\<And>s. wal (f s) = wal s) \<Longrightarrow> sound E (modify f)"
  by (rule returns_sound) (rule returns_modify)

lemma sound_or_err: "sound E m \<Longrightarrow> sound E (or_err h m)"
  unfolding sound_def or_err_def map_err_def
  by (auto split: prod.splits sum.splits elim!: exn_map.elims)

lemma returns_or_err: "returns E m \<Longrightarrow> returns E (or_err h m)"
  unfolding returns_def by (simp add: or_err_Inr)

lemma sound_outcome: "sound E m \<Longrightarrow> returns E (outcome m)"
  unfolding sound_def returns_def outcome_def
  by (auto split: prod.splits sum.splits exn.splits)

lemma sound_cases:
  "sound E m \<Longrightarrow> sound E n \<Longrightarrow> sound E (if b then m else n)"
  "sound E m \<Longrightarrow> (\<And>x. sound E (f x)) \<Longrightarrow> sound E (case z of None \<Rightarrow> m | Some x \<Rightarrow> f x)"
  "(\<And>e. sound E (h e)) \<Longrightarrow> (\<And>x. sound E (f x)) \<Longrightarrow> sound E (case w of Inl e \<Rightarrow> h e | Inr x \<Rightarrow> f x)"
  "(\<And>x y. sound E (g x y)) \<Longrightarrow> sound E (case p of (x, y) \<Rightarrow> g x y)"
  "(\<And>x. sound E (f x)) \<Longrightarrow> sound E (let x = v in f x)"
  "(\<And>x. sound E (l1 x)) \<Longrightarrow> (\<And>x. sound E (l2 x)) \<Longrightarrow> (\<And>x. sound E (l3 x)) \<Longrightarrow> (\<And>i x. sound E (l4 i x)) \<Longrightarrow>
   sound E (case fl of OpenErr x \<Rightarrow> l1 x | WriteErr x \<Rightarrow> l2 x | FlushErr x \<Rightarrow> l3 x | Corrupt i x \<Rightarrow> l4 i x)"
  "(\<And>x. sound E (n1 x)) \<Longrightarrow> (\<And>x. sound E (n2 x)) \<Longrightarrow> (\<And>x. sound E (n3 x)) \<Longrightarrow> (\<And>x. sound E (n4 x)) \<Longrightarrow>
   sound E (case reply of ConnectErr x \<Rightarrow> n1 x | TimeoutErr x \<Rightarrow> n2 x | SendErr x \<Rightarrow> n3 x | net_reply.Received x \<Rightarrow> n4 x)"
  by (simp_all split: option.split sum.split prod.split fault.split net_reply.split)

lemma returns_cases:
  "returns E m \<Longrightarrow> returns E n \<Longrightarrow> returns E (if b then m else n)"
  "returns E m \<Longrightarrow> (\<And>x. returns E (f x)) \<Longrightarrow> returns E (case z of None \<Rightarrow> m | Some x \<Rightarrow> f x)"
  "(\<And>x y. returns E (g x y)) \<Longrightarrow> returns E (case p of (x, y) \<Rightarrow> g x y)"
  "(\<And>x. returns E (f x)) \<Longrightarrow> returns E (let x = v in f x)"
  by (simp_all split: option.split prod.split)

lemmas sound_rules = sound_bnd sound_seqM sound_basic sound_modify sound_or_err sound_cases

lemmas returns_rules = returns_bnd returns_seqM returns_basic returns_modify returns_or_err returns_cases

section \<open>The store without faults\<close>

lemma store_returns:
  assumes "no_faults E"
  shows "(\<And>s. wal (f s) = wal s) \<Longrightarrow> returns E (append_line E m name f)"
    "(\<And>s. wal (f s) = wal s) \<Longrightarrow> returns E (append_jsonl E name f)"
    "returns E (read_jsonl E name g)"
  using assms by (simp_all add: returns_def append_line_no_fault append_jsonl_no_fault read_jsonl_no_fault)

lemma log_returns:
  assumes "no_faults E"
  shows "returns E (update_order E x)" "returns E (append_order E x)" "returns E (append_dlq E d)"
    "returns E (append_notification E n)" "returns E (append_retry_job E j)" "returns E (update_event E ev)"
    "returns E (orders E)" "returns E (events E)" "returns E (record_receipt_hash E i h)" "returns E (is_receipt_settled E h)"
  unfolding append_defs read_defs record_receipt_hash_def
  by (intro returns_rules store_returns assms; simp)+
    (use assms in \<open>simp add: returns_def is_receipt_settled_def bnd_def gets_def no_faults_def\<close>)

lemma audit_returns:
  assumes "no_faults E"
  shows "returns E (audit E ty payload None)"
proof -
  have "sign_record E None r = Inr r" for r by (simp add: sign_record_def)
  then show ?thesis
    unfolding audit_def audit_records_def append_audit_record_def
    by (intro returns_rules store_returns assms) (simp_all add: returns_basic)
qed

lemma notify_returns: "no_faults E \<Longrightarrow> returns E (notify E i ev)"
  unfolding notify_def by (intro returns_rules log_returns)

lemma latest_returns:
  assumes "no_faults E"
  shows "returns E (latest_orders E)" "returns E (orders_with_status E st)"
  unfolding latest_orders_def orders_with_status_def by (intro returns_rules log_returns assms)+

lemma transition_returns: "can_transition (po_status x) st \<Longrightarrow> returns E (transition E st x)"
  by (simp add: returns_def transition_def seqM_def guard_def bnd_def ret_def)

lemma rollup_returns: "no_faults E \<Longrightarrow> returns E (rollup_event E i)"
  unfolding rollup_event_def by (intro returns_rules log_returns latest_returns)

lemma mark_failed_returns:
  "no_faults E \<Longrightarrow> can_transition (po_status x) Failed \<Longrightarrow> returns E (mark_failed E x reason)"
  unfolding mark_failed_def by (intro returns_rules transition_returns log_returns notify_returns audit_returns)

lemma insert_order_returns: "no_faults E \<Longrightarrow> returns E (insert_order E x)"
  unfolding insert_order_def by (intro returns_rules log_returns)

lemma create_payout_returns: "no_faults E \<Longrightarrow> returns E (create_payout E x amount entry)"
  unfolding create_payout_def order_new_def by (intro returns_rules insert_order_returns audit_returns)

lemma apply_preference_returns: "no_faults E \<Longrightarrow> returns E (apply_settlement_preference E x cfg)"
  unfolding apply_settlement_preference_def
  by (cases "cfg_settlement_preference cfg") (simp_all add: returns_rules create_payout_returns Let_def)

section \<open>The rails\<close>

lemma append_sound: "(\<And>s. wal (f s) = wal s) \<Longrightarrow> sound E (append_jsonl E' name f)" "sound E (read_jsonl E' name g)"
  unfolding append_jsonl_def append_line_def read_jsonl_def by (intro sound_rules; simp)+

lemma append_postings_sound: "sound E (append_postings E signer mk prev legs)"
  by (induction legs arbitrary: prev)
    (simp_all add: sound_rules append_posting_def append_sound)

lemma journal_sound: "sound E (append_order_batch E i a c fx signer)"
  unfolding append_order_batch_def append_batch_def append_fx_batch_def journal_head_def postings_def
  by (intro sound_rules append_postings_sound append_sound)

lemma http_sound: "sound E (http_get E url hs rail)" "sound E (http_post E url body hs rail)"
  unfolding http_get_def http_post_def http_request_def next_net_def
  by (intro sound_rules; simp add: sound_def)+

lemma sign_sound: "sound E (sign_payment E ps req url)"
  unfolding sign_payment_def hybrid_sign_def by (cases ps) (simp_all only: payment_signer.case, (intro sound_rules)+)

lemma x402_sound: "sound E (x402_execute E url ps)" "sound E (facilitator_verify E fc payload req url)"
  "sound E (facilitator_settle E fc payload req url)"
  unfolding x402_execute_def facilitator_verify_def facilitator_settle_def
  by (intro sound_rules http_sound sign_sound)+

lemma config_sound: "sound E (load_facilitator_config E rail)"
  unfolding load_facilitator_config_def load_facilitator_url_def load_secret_def vault_read_def
  by (intro sound_rules returns_sound [OF sound_outcome])

lemma authorize_sound: "sound E (authorize E fc req)"
  unfolding authorize_def by (intro sound_rules http_sound)

lemma pay_sync_sound: "sound E (pay_sync E p)"
  unfolding sound_def
proof (intro allI impI)
  fix s r t
  assume ok: "rail_ok E (wal s)" and run: "pay_sync E p s = (r, t)"
  then show "rail_ok E (wal t) \<and> r \<noteq> Inl Panic"
    using pay_sync_rail_ok [OF ok] pay_sync_refused(1,3) [OF ok] by (cases r) (auto simp: rail_ok_def)
qed

section \<open>Settling\<close>

text \<open>\<open>calm E st m\<close>: \<open>m\<close> is sound, and an error carries an order that still has status \<open>st\<close>.\<close>

definition calm :: "env \<Rightarrow> order_status \<Rightarrow> ('c, 'a) S \<Rightarrow> bool" where
  "calm E st m \<longleftrightarrow> sound E m \<and> (\<forall>s x so t. rail_ok E (wal s) \<longrightarrow> m s = (Inl (Err (x, so)), t) \<longrightarrow> po_status x = st)"

lemma calm_sound: "calm E st m \<Longrightarrow> sound E m"
  by (simp add: calm_def)

lemma calm_bnd:
  assumes "calm E st m" "\<And>x. calm E st (f x)"
  shows "calm E st (bnd m f)"
  unfolding calm_def
proof (intro conjI allI impI)
  show "sound E (bnd m f)" by (intro sound_bnd assms [THEN calm_sound])
  fix s x so t
  assume ok: "rail_ok E (wal s)" and run: "bnd m f s = (Inl (Err (x, so)), t)"
  then consider "m s = (Inl (Err (x, so)), t)" | y u where "m s = (Inr y, u)" "f y u = (Inl (Err (x, so)), t)"
    by (auto simp: bnd_Inl)
  then show "po_status x = st"
  proof cases
    case 1
    then show ?thesis using assms(1) ok by (auto simp: calm_def)
  next
    case 2
    then have "rail_ok E (wal u)" using calm_sound [OF assms(1)] ok by (auto simp: sound_def)
    then show ?thesis using assms(2) [of y] 2 by (auto simp: calm_def)
  qed
qed

lemma calm_seqM: "calm E st m \<Longrightarrow> calm E st n \<Longrightarrow> calm E st (seqM m n)"
  unfolding seqM_def by (rule calm_bnd)

lemma calm_basic: "calm E (po_status ord) (refuse ord so)" "calm E st (ret x)"
  "calm E (po_status ord) (ok_or z (ord, so))"
  by (auto simp: calm_def sound_def refuse_def ret_def ok_or_def fail_def throw_def split: option.splits)

lemma calm_or_err: "sound E m \<Longrightarrow> calm E (po_status ord) (or_err (\<lambda>e. (ord, g e)) m)"
  unfolding calm_def
proof (intro conjI allI impI)
  assume "sound E m"
  then show "sound E (or_err (\<lambda>e. (ord, g e)) m)" by (rule sound_or_err)
  fix s x so t
  assume "or_err (\<lambda>e. (ord, g e)) m s = (Inl (Err (x, so)), t)"
  then show "po_status x = po_status ord"
    by (auto simp: or_err_def map_err_def split: prod.splits sum.splits elim!: exn_map.elims)
qed

lemma calm_terminal: "sound E m \<Longrightarrow> calm E (po_status ord) (terminal ord m)"
  unfolding terminal_def by (rule calm_or_err)

lemma calm_terminal_returns: "returns E m \<Longrightarrow> calm E st (terminal ord m)"
  unfolding calm_def terminal_def
proof (intro conjI allI impI)
  assume m: "returns E m"
  let ?m = "or_err (\<lambda>e. (ord, SettleTerminal (error_to_string e))) m"
  show "sound E ?m" by (intro returns_sound returns_or_err m)
  fix s x so t
  assume "rail_ok E (wal s)" "?m s = (Inl (Err (x, so)), t)"
  moreover from this obtain y u where "?m s = (Inr y, u)" using returns_or_err [OF m] unfolding returns_def by blast
  ultimately show "po_status x = st" by simp
qed

lemma calm_cases:
  "calm E st m \<Longrightarrow> calm E st n \<Longrightarrow> calm E st (if b then m else n)"
  "calm E st m \<Longrightarrow> (\<And>x. calm E st (f x)) \<Longrightarrow> calm E st (case z of None \<Rightarrow> m | Some x \<Rightarrow> f x)"
  "(\<And>x y. calm E st (g x y)) \<Longrightarrow> calm E st (case p of (x, y) \<Rightarrow> g x y)"
  "(\<And>x. calm E st (f x)) \<Longrightarrow> calm E st (let x = v in f x)"
  "(\<And>r. calm E st (f1 r)) \<Longrightarrow> (\<And>tx ra. calm E st (f2 tx ra)) \<Longrightarrow> (\<And>e ra. calm E st (f3 e ra)) \<Longrightarrow>
   calm E st (case fo of FSettled r \<Rightarrow> f1 r | FPending tx ra \<Rightarrow> f2 tx ra | FRejected e ra \<Rightarrow> f3 e ra)"
  "calm E st m \<Longrightarrow> (\<And>tx. calm E st (g2 tx)) \<Longrightarrow> (\<And>e. calm E st (g3 e)) \<Longrightarrow>
   calm E st (case xo of XSuccess \<Rightarrow> m | XPending tx \<Rightarrow> g2 tx | XFailed e \<Rightarrow> g3 e)"
  "(\<And>r. calm E st (c1 r)) \<Longrightarrow> (\<And>tx. calm E st (c2 tx)) \<Longrightarrow> (\<And>e. calm E st (c3 e)) \<Longrightarrow>
   calm E st (case co of CSettled r \<Rightarrow> c1 r | CPending tx \<Rightarrow> c2 tx | CDeclined e \<Rightarrow> c3 e)"
  "calm E st m \<Longrightarrow> (\<And>e. calm E st (v2 e)) \<Longrightarrow> calm E st (case vv of VAccept \<Rightarrow> m | VReject e \<Rightarrow> v2 e)"
  "calm E st m \<Longrightarrow> (\<And>e. calm E st (a2 e)) \<Longrightarrow> (\<And>e ev. calm E st (a3 e ev)) \<Longrightarrow>
   calm E st (case cv of Accept \<Rightarrow> m | Flag e \<Rightarrow> a2 e | Reject e ev \<Rightarrow> a3 e ev)"
  by (simp_all split: option.split prod.split facilitator_outcome.split x402_status.split card_auth_outcome.split
      verify_verdict.split compliance_verdict.split)

lemmas calm_rules = calm_bnd calm_seqM calm_basic calm_or_err calm_terminal calm_cases journal_sound http_sound sign_sound
  x402_sound config_sound authorize_sound pay_sync_sound sound_basic

lemma settle_order_calm:
  assumes "no_faults E" "can_transition (po_status ord) Success"
  shows "calm E (po_status ord) (settle_order E signer ord receipt iw h entry)"
  unfolding settle_order_def Let_def
  by (intro calm_bnd calm_seqM calm_cases calm_terminal journal_sound calm_basic calm_terminal_returns transition_returns log_returns
      notify_returns audit_returns assms) (use assms(2) in simp)

lemma settle_calm:
  assumes nf: "no_faults E" and ex: "po_status ord = Executing"
  shows "calm E Executing (settle E cfg signer compliance ord)"
proof -
  have so: "calm E (po_status ord) (settle_order E signer ord receipt iw h entry)" for signer receipt iw h entry
    by (rule settle_order_calm [OF nf]) (simp add: ex can_transition_def)
  have fp: "calm E (po_status ord) (fetch_payload E ord K expected classify rejected)" for K expected classify rejected
    unfolding fetch_payload_def by (intro calm_rules)
  have dup: "calm E (po_status ord) (refuse_duplicate E ord h msg)" for h msg
    unfolding refuse_duplicate_def by (intro calm_rules returns_sound log_returns nf)
  have "calm E (po_status ord) (settle_http402 E signer ord)" "calm E (po_status ord) (settle_card E signer ord)"
    "calm E (po_status ord) (settle_ach E signer ord)" "calm E (po_status ord) (settle_native E signer n ord)" for n
    unfolding settle_http402_def settle_http402_with_facilitator_def settle_http402_success_def settle_card_def
      settle_card_success_def settle_ach_def settle_native_def
    by (intro calm_rules fp dup so)+
  then have "calm E (po_status ord) (route E signer hint minor ord)" for hint minor
    unfolding route_def by (cases hint) simp_all
  moreover have "calm E (po_status ord) (screen E compliance ord)"
    unfolding screen_def by (intro calm_rules returns_sound audit_returns nf)
  ultimately have "calm E (po_status ord) (settle E cfg signer compliance ord)"
    unfolding settle_def Let_def by (auto split: sum.splits option.splits intro: calm_rules)
  then show ?thesis by (simp add: ex)
qed

section \<open>The pass\<close>

text \<open>
  What a configuration must satisfy: the backoff cap is positive and its jitter fits in
  63 bits, the executing TTL is in the range of \<open>chrono::Duration\<close>, and deferred settlement is
  off, since one commitment that does not verify makes a whole pass fail.
\<close>

definition sane_config :: "payments_config \<Rightarrow> bool" where
  "sane_config cfg \<longleftrightarrow> 0 < rp_cap_ms (cfg_retry cfg) \<and> int (rp_cap_ms (cfg_retry cfg)) * 25 < 2 ^ 63 \<and>
     \<bar>i64 (int (cfg_executing_ttl_secs cfg))\<bar> \<le> 9223372036854775 \<and> \<not> cfg_deferred_enabled cfg"

lemma returns_transition:
  assumes "can_transition (po_status x) st" "\<And>now. returns E (f (x\<lparr>po_status := st, po_updated_at := now\<rparr>))"
  shows "returns E (bnd (transition E st x) f)"
proof -
  have "bnd (transition E st x) f = bnd (now_rfc3339 E) (\<lambda>now. f (x\<lparr>po_status := st, po_updated_at := now\<rparr>))"
    using assms(1) by (simp add: transition_def seqM_def guard_def bnd_assoc)
  then show ?thesis by (simp add: returns_bnd returns_basic assms(2))
qed

lemma returns_decided:
  fixes m :: "('a, 'b) S"
  assumes m: "calm E st m" and f: "\<And>x so. po_status x = st \<Longrightarrow> returns E (f (Inl (x, so)))" "\<And>y. returns E (f (Inr y))"
  shows "returns E (bnd (outcome m) f)"
  unfolding returns_def
proof (intro allI impI)
  fix s :: "'a world_scheme"
  assume ok: "rail_ok E (wal s)"
  obtain q u where run: "m s = (q, u)" by (cases "m s")
  have u: "rail_ok E (wal u)" "q \<noteq> Inl Panic" using m ok run by (auto simp: calm_def sound_def)
  show "\<exists>x t. bnd (outcome m) f s = (Inr x, t) \<and> rail_ok E (wal t)"
  proof (cases q)
    case (Inl e)
    then obtain x so where e: "q = Inl (Err (x, so))" using u(2) by (cases e) auto
    then have "po_status x = st" using m ok run by (auto simp: calm_def)
    from f(1) [OF this] u(1) obtain y t where "f (Inl (x, so)) u = (Inr y, t)" "rail_ok E (wal t)" unfolding returns_def by blast
    then show ?thesis using run e by (simp add: bnd_def outcome_def)
  next
    case (Inr y)
    from f(2) [of y] u(1) obtain v t where "f (Inr y) u = (Inr v, t)" "rail_ok E (wal t)" unfolding returns_def by blast
    then show ?thesis using run Inr by (simp add: bnd_def outcome_def)
  qed
qed

lemma next_backoff_returns:
  assumes "sane_config cfg"
  shows "returns E (next_backoff_ms E (cfg_retry cfg) att ra)"
  unfolding returns_def
proof (intro allI impI)
  fix s :: "'a wstate_scheme"
  assume "rail_ok E (wal s)"
  moreover obtain d where "next_backoff_ms E (cfg_retry cfg) att ra s = (Inr d :: 'b exn + nat, s\<lparr>n_rand := n_rand s + 1\<rparr>)"
    using next_backoff_ms_run [OF _ _ refl, of "cfg_retry cfg" E att ra s] assms by (auto simp: sane_config_def)
  ultimately show "\<exists>x t. next_backoff_ms E (cfg_retry cfg) att ra s = (Inr x :: 'b exn + nat, t) \<and> rail_ok E (wal t)" by simp
qed

lemma after_settle_returns:
  assumes nf: "no_faults E" and sane: "sane_config cfg"
  shows "po_status x = Executing \<Longrightarrow> returns E (after_settle E cfg acc (Inl (x, so)))"
    "returns E (after_settle E cfg acc (Inr y))"
proof -
  obtain a b c where acc: "acc = (a, b, c)" by (cases acc)
  show "returns E (after_settle E cfg acc (Inr y))"
    unfolding after_settle_def acc by (simp add: returns_rules apply_preference_returns nf)
  assume x: "po_status x = Executing"
  then have tr: "can_transition (po_status x) Failed" "can_transition (po_status x) RequiresAction"
    by (simp_all add: can_transition_def)
  have retry: "returns E (bnd (schedule_retry E x reason (cfg_retry cfg) ra) (\<lambda>(y, again). if again then ret (g y)
      else bnd (mark_failed E y reason) (\<lambda>z. ret (h y z))))" for reason ra g h
  proof (cases "rp_max_attempts (cfg_retry cfg) \<le> po_attempts x")
    case True
    then show ?thesis
      by (simp add: schedule_retry_def returns_rules mark_failed_returns nf tr)
  next
    case False
    then show ?thesis
      by (simp add: schedule_retry_def bnd_assoc seqM_def Let_def)
        (intro returns_rules returns_transition next_backoff_returns sane log_returns nf tr)
  qed
  show "returns E (after_settle E cfg acc (Inl (x, so)))"
    unfolding after_settle_def acc
    by (cases so) (simp_all add: retry, (intro returns_rules mark_failed_returns transition_returns log_returns notify_returns
        audit_returns nf tr)+)
qed

lemma settled_returns:
  assumes "no_faults E" "sane_config cfg" "po_status x = Executing"
  shows "returns E (bnd (outcome (settle E cfg signer compliance x)) (\<lambda>res.
     bnd (after_settle E cfg acc res) (\<lambda>(y, acc'). seqM (rollup_event E (po_id y)) (ret acc'))))"
  by (rule returns_decided [OF settle_calm [OF assms(1,3)]])
    (intro returns_bnd after_settle_returns assms returns_cases returns_seqM rollup_returns returns_basic; assumption)+

lemma process_order_returns:
  assumes "no_faults E" "sane_config cfg" "can_transition (po_status ord) Executing"
  shows "returns E (process_order E cfg signer compliance acc ord)"
  unfolding process_order_def Let_def
  by (rule returns_transition [OF assms(3)], rule returns_bnd [OF returns_basic(4)],
      rule returns_seqM [OF log_returns(1) [OF assms(1)] settled_returns [OF assms(1,2)]]) (simp add: bump_def)

lemma returns_foldM: "(\<And>acc x. x \<in> set xs \<Longrightarrow> returns E (f acc x)) \<Longrightarrow> returns E (foldM f acc xs)"
  by (induction xs arbitrary: acc) (simp_all add: returns_basic returns_bnd)

lemma returns_status:
  assumes "no_faults E" "\<And>os. \<forall>x \<in> set os. po_status x = st \<Longrightarrow> returns E (f os)"
  shows "returns E (bnd (orders_with_status E st) f)"
proof -
  have "bnd (orders_with_status E st) f = bnd (latest_orders E) (\<lambda>os. f (filter (\<lambda>x. po_status x = st) os))"
    by (simp add: orders_with_status_def bnd_assoc)
  then show ?thesis by (simp add: returns_bnd latest_returns assms)
qed

lemma requeue_returns:
  assumes "no_faults E" "sane_config cfg"
  shows "returns E (requeue_stuck_executing E cfg)"
  unfolding requeue_stuck_executing_def
proof (rule returns_status [OF assms(1)], rule returns_foldM)
  fix os :: "payment_order list" and acc x
  assume "\<forall>x \<in> set os. po_status x = Executing" "x \<in> set os"
  then have tr: "can_transition (po_status (bump x)) st" if "st \<in> {Failed, NotStarted}" for st
    using that by (auto simp: can_transition_def bump_def)
  have "returns E (executing_expired E since (cfg_executing_ttl_secs cfg))" for since
    using assms(2) unfolding executing_expired_def sane_config_def
    by (auto simp: Let_def intro!: returns_rules split: option.split)
  then show "returns E (requeue_one E cfg acc x)"
    unfolding requeue_one_def Let_def [of "bump x"]
    by (intro returns_rules mark_failed_returns transition_returns rollup_returns log_returns audit_returns assms tr) simp_all
qed

lemma processing_returns:
  assumes nf: "no_faults E" and "sane_config cfg" "\<And>os v. returns E (k os v)"
  shows "returns E (bnd (ready_orders E now) (\<lambda>os. bnd (foldM (process_order E cfg signer compliance) a os) (k os)))"
proof -
  have "bnd (ready_orders E now) (\<lambda>os. bnd (foldM (process_order E cfg signer compliance) a os) (k os)) =
     bnd (orders_with_status E NotStarted) (\<lambda>fresh. bnd (orders_with_status E Failed) (\<lambda>failed.
       bnd (foldM (process_order E cfg signer compliance) a (fresh @ filter (is_due now) failed))
         (k (fresh @ filter (is_due now) failed))))"
    by (simp add: ready_orders_def bnd_assoc)
  then show ?thesis
    by simp (intro returns_status [OF nf] returns_bnd [OF returns_foldM] process_order_returns assms;
      auto simp: can_transition_def)
qed

text \<open>The functions of the codec that a save uses always succeed, and the seed handle is alive.\<close>

definition codec_total :: "codec \<Rightarrow> bool" where
  "codec_total C \<longleftrightarrow> (\<forall>p s. \<exists>k. argon2id C p s = Inr k) \<and> (\<forall>n. seed_live C n) \<and> (\<forall>p. \<exists>b. ser_payload C p = Inr b) \<and>
     (\<forall>k n m. \<exists>c. aead_encrypt C k n m = Inr c) \<and> (\<forall>e. \<exists>b. ser_envelope C e = Inr b)"

lemma live_seed: "All g \<Longrightarrow> bnd (gets (\<lambda>s. g (n_time s))) (\<lambda>live. seqM (guard live e) m) = m"
  by (simp add: fun_eq_iff bnd_def gets_def seqM_def guard_def ret_def)

lemma wallet_save_returns:
  assumes "no_faults E" "codec_total C"
  shows "returns E (wallet_save E C pass)"
proof -
  have res: "returns E (or_err h (result r))" if "\<exists>b. r = Inr b" for h r
    using that by (auto intro: returns_or_err returns_basic)
  have "returns E (write_wallet_file E data)" for data
    using assms(1) by (simp add: returns_def write_wallet_file_def bnd_def modify_def no_faults_def)
  moreover have live: "All (seed_live C)" using assms(2) by (auto simp: codec_total_def)
  ultimately show ?thesis
    using assms(2) unfolding wallet_save_def live_seed [OF live] codec_total_def
    by (intro returns_bnd returns_seqM returns_basic res; simp)
qed

definition loaded_config :: "'c world_scheme \<Rightarrow> payments_config" where
  "loaded_config s = (case f_config s of None \<Rightarrow> payments_config_default | Some cfg \<Rightarrow> cfg)"

lemma run_once_returns:
  assumes nf: "no_faults E" and C: "codec_total C" and w: "wallet_open E C pass s = (Inr w, u)" "rail_ok E w"
    and cfg: "sane_config (loaded_config s)"
  shows "\<exists>summary t. run_once E C path pass signer compliance s = (Inr summary, t)"
proof -
  let ?u = "u\<lparr>wal := w\<rparr>"
  have ow: "open_wallet E C path pass s = (Inr (), ?u)"
    using w(1) by (simp add: open_wallet_def bnd_def or_err_def map_err_def modify_def)
  have "logs_grow s ?u" using keepsD [OF logs_pass.wallet_file_keeps(1) ow] .
  then have same: "f_config ?u = f_config s" by (simp add: logs_grow_def)
  obtain v where load: "load_config E ?u = (Inr (loaded_config s), v)" "rail_ok E (wal v)"
    using nf w(2) same by (cases "f_config s")
      (auto simp: load_config_def loaded_config_def bnd_def gets_def ret_def read_whole_def no_faults_def)
  have dp: "deferred_pass E (loaded_config s) = ret 0" using cfg by (simp add: deferred_pass_def sane_config_def)
  have "returns E (bnd (now_rfc3339 E) (\<lambda>now.
     bnd (requeue_stuck_executing E (loaded_config s)) (\<lambda>(recovered, ttl_dlq).
     bnd (deferred_pass E (loaded_config s)) (\<lambda>batches.
     bnd (ready_orders E now) (\<lambda>ready.
     bnd (foldM (process_order E (loaded_config s) signer compliance) (0, 0, []) ready) (\<lambda>(executed, retried, failures).
     seqM (or_err (\<lambda>e. WalletErr (''saving wallet after pass: '' @ wallet_error_to_string e)) (wallet_save E C pass))
     (ret \<lparr>es_ready = length ready, es_executed = executed, es_retried = retried, es_recovered = recovered,
       es_deferred_batches = batches,
       es_note = pass_note (length ready) executed retried failures batches ttl_dlq\<rparr>)))))))"
    unfolding dp bnd_ret
    by (intro returns_bnd [OF returns_basic(4)] returns_bnd [OF requeue_returns [OF nf cfg]] returns_cases
        processing_returns [OF nf cfg] returns_seqM returns_or_err returns_basic wallet_save_returns nf C)
  then show ?thesis using ow load unfolding run_once_def returns_def by (fastforce simp: seqM_def bnd_def)
qed

section \<open>Properties\<close>


lemma bech_env_no_faults: "no_faults bech_env"
  using example_env_no_faults by (simp add: no_faults_def bech_env_def)

lemma example_opens:
  assumes "wfile s = Some []"
  shows "\<exists>u. wallet_open bech_env example_codec ''pw'' s = (Inr (stored_form (wal example_wstate)), u)"
proof -
  have "\<forall>a \<in> set (accounts (wal example_wstate)). length (pubkey_hash (acc_address a)) = 20"
    by (simp add: example_wstate_def example_wallet_def example_account_def account_new_def from_hash_def)
  then show ?thesis
    using bech_env_no_faults bech_env_ok assms
    by (simp add: wallet_open_def read_wallet_file_def bnd_def gets_def seqM_def guard_def ret_def result_def
        or_err_def map_err_def ok_or_def no_faults_def WALLET_FORMAT_VERSION_def accounts_roundtrip payload_of_def
        stored_form_def example_codec_def)
qed


end
