(* ===== verification/Outcomes.thy ===== *)
theory Outcomes
  imports Progress
begin

text \<open>
  What becomes of receipts, dead letters and the hints of a facilitator: a receipt settles
  one order ever, an order in the dead-letter queue may be due again, and the hint that a
  facilitator gives with a rejection has no effect.
\<close>

section \<open>Words\<close>

lemma ws_seqs_space: "\<forall>w \<in> set ws_seqs. CHR '' '' \<notin> set (tl w) \<and> w \<noteq> []"
  by (simp add: ws_seqs_def)

lemma starts_with_space:
  assumes "a \<noteq> []" "w \<in> set ws_seqs"
  shows "starts_with w (a @ CHR '' '' # b) = starts_with w a"
proof (cases "length w \<le> length a")
  case True
  then show ?thesis by (simp add: starts_with_def)
next
  case False
  have "\<not> starts_with w (a @ CHR '' '' # b)"
  proof
    assume "starts_with w (a @ CHR '' '' # b)"
    then have "w ! length a = CHR '' ''"
      using False by (metis not_le nth_append_length nth_take starts_with_def)
    moreover have "w ! length a \<in> set (tl w)"
      using assms(1) False by (cases w; cases a) (auto intro: nth_mem)
    ultimately show False using ws_seqs_space assms(2) by auto
  qed
  moreover have "\<not> starts_with w a" using False by (auto simp: starts_with_def)
  ultimately show ?thesis by simp
qed

lemma find_cong_on: "(\<And>x. x \<in> set xs \<Longrightarrow> p x = q x) \<Longrightarrow> List.find p xs = List.find q xs"
  by (induction xs) auto

lemma ws_len_space: "a \<noteq> [] \<Longrightarrow> ws_len (a @ CHR '' '' # b) = ws_len a"
  unfolding ws_len_def using find_cong_on [of ws_seqs] starts_with_space by (metis (no_types, lifting))

lemma ws_len_le: "ws_len a \<le> length a"
proof (cases "List.find (\<lambda>w. starts_with w a) ws_seqs")
  case (Some w)
  then have "starts_with w a" by (auto simp: find_Some_iff)
  then have "length w \<le> length a" by (metis nat_le_linear starts_with_def take_all)
  then show ?thesis using Some by (simp add: ws_len_def)
qed (simp add: ws_len_def)

lemma split_ws_space: "split_ws_aux acc (a @ CHR '' '' # b) = split_ws_aux acc a @ split_ws_aux [] b"
proof (induction acc a rule: split_ws_aux.induct)
  case (1 acc s)
  have space: "ws_len (CHR '' '' # b) = 1" by (simp add: ws_len_def ws_seqs_def starts_with_def)
  show ?case
  proof (cases "s = []")
    case True
    then show ?thesis
      by (simp add: split_ws_aux.simps [of acc "CHR '' '' # b"] split_ws_aux.simps [of acc "[]"] space)
  next
    case False
    note len = ws_len_space [OF False, of b]
    show ?thesis
    proof (cases "ws_len s = 0")
      case True
      then show ?thesis
        using "1.IH"(1) [OF False True] False len
        by (simp add: split_ws_aux.simps [of acc "s @ CHR '' '' # b"] split_ws_aux.simps [of acc s])
    next
      case nz: False
      then show ?thesis
        using "1.IH"(2) [OF False nz] False len ws_len_le [of s]
        by (simp add: split_ws_aux.simps [of acc "s @ CHR '' '' # b"] split_ws_aux.simps [of acc s])
    qed
  qed
qed

lemma split_whitespace_space: "split_whitespace (a @ CHR '' '' # b) = split_whitespace a @ split_whitespace b"
  by (simp add: split_whitespace_def split_ws_space)

lemma split_ws_graphic: "\<forall>c \<in> set a. graphic c \<Longrightarrow> split_ws_aux acc a = (if acc @ a = [] then [] else [acc @ a])"
proof (induction a arbitrary: acc)
  case Nil
  then show ?case by (simp add: split_ws_aux.simps [of acc "[]"])
next
  case (Cons c a)
  then show ?case by (simp add: split_ws_aux.simps [of acc "c # a"] graphic_ws_len)
qed

section \<open>Hints\<close>

lemma dec_graphic: "\<forall>c \<in> set (dec n). graphic c"
  using dec_digits [of n] by (auto simp: list_all_iff is_digit_def graphic_def)

lemma hint_ignored:
  "extract_retry_after_ms (a @ CHR '' '' # CHR ''('' # ''retry-after='' @ dec n @ ''s)'') = extract_retry_after_ms a"
proof -
  let ?w = "CHR ''('' # ''retry-after='' @ dec n @ ''s)''"
  have "\<forall>c \<in> set ?w. graphic c" using dec_graphic [of n] by (auto simp: graphic_def)
  then have "split_whitespace ?w = [?w]" unfolding split_whitespace_def by (subst split_ws_graphic) auto
  then have "split_whitespace (a @ CHR '' '' # ?w) = split_whitespace a @ [?w]" by (simp only: split_whitespace_space)
  moreover have "\<not> starts_with ''retry-after='' ?w" by (simp add: starts_with_def)
  ultimately have "List.find (starts_with ''retry-after='') (split_whitespace (a @ CHR '' '' # ?w)) =
      List.find (starts_with ''retry-after='') (split_whitespace a)"
    by (simp add: find_append split: option.split)
  then show ?thesis by (simp only: extract_retry_after_ms_def)
qed

section \<open>Receipts\<close>

definition receipt_known :: "env \<Rightarrow> bytes \<Rightarrow> 'c world_scheme \<Rightarrow> bool" where
  "receipt_known E receipt s \<longleftrightarrow> list_ex (\<lambda>r. rh_hash r = hex_encode (sha3_256 E receipt)) (f_receipts s)"

lemma receipt_known_grows: "receipt_known E receipt s \<Longrightarrow> logs_grow s t \<Longrightarrow> receipt_known E receipt t"
  by (auto simp: receipt_known_def logs_grow_def prefix_def)

lemma settle_order_records:
  assumes "settle_order E signer ord rc iw (Some (sha3_256 E receipt)) entry s = (Inr x, t)"
  shows "receipt_known E receipt t"
proof -
  have "\<exists>i j ev pl u v w a b c. record_receipt_hash E i (sha3_256 E receipt) u = (Inr a, v) \<and> notify E j ev v = (Inr b, w) \<and>
      audit E AT_ORDER_SETTLED pl None w = (Inr c, t)"
    using assms unfolding settle_order_def Let_def terminal_def option.case M_Inr by blast
  then obtain i j ev pl u v w a b c where rec: "record_receipt_hash E i (sha3_256 E receipt) u = (Inr a, v)"
    and rest: "notify E j ev v = (Inr b, w)" "audit E AT_ORDER_SETTLED pl None w = (Inr c, t)" by blast
  have "receipt_known E receipt v"
    using rec by (auto simp: record_receipt_hash_def M_Inr receipt_known_def append_line_def modify_def
        split: option.splits fault.splits)
  then show ?thesis
    using keepsD [OF logs_pass.notify_keeps rest(1)] keepsD [OF logs_pass.audit_step rest(2)] receipt_known_grows by blast
qed

lemma duplicate_refused:
  assumes "no_faults E" "receipt_known E receipt s"
  shows "refuse_duplicate E ord (sha3_256 E receipt) msg s = (Inl (Err (ord, SettleTerminal msg)), s\<lparr>n_io := n_io s + 1\<rparr>)"
  using assms by (simp add: refuse_duplicate_def terminal_def or_err_def map_err_def is_receipt_settled_def bnd_def gets_def
      no_faults_def receipt_known_def refuse_def)

lemma settled_receipt_known:
  "settle_http402_success E signer ord receipt s = (Inr x, t) \<Longrightarrow> receipt_known E receipt t"
  "settle_card_success E signer ord nw l4 receipt s = (Inr x, t) \<Longrightarrow> receipt_known E receipt t"
  unfolding settle_http402_success_def settle_card_success_def Let_def seqM_Inr
  by (auto dest: settle_order_records)

lemma fresh_passes:
  assumes "no_faults E" "\<not> receipt_known E receipt s"
  shows "refuse_duplicate E ord (sha3_256 E receipt) msg s = (Inr (), s\<lparr>n_io := n_io s + 1\<rparr>)"
  using assms by (simp add: refuse_duplicate_def terminal_def or_err_def map_err_def is_receipt_settled_def bnd_def gets_def
      no_faults_def receipt_known_def ret_def)

lemma journal_returns:
  assumes "no_faults E" "can_sign E signer" "parse_amount a = Inr m"
  shows "returns E (append_order_batch E i a c None signer)"
  unfolding returns_def
proof (intro allI impI)
  fix s :: "'a world_scheme"
  assume ok: "rail_ok E (wal s)"
  obtain b t where run: "append_order_batch E i a c None signer s = (Inr b, t)"
    using plain_order_batch_total [OF assms] by metis
  have "keeps (\<lambda>s t. wal t = wal s) (append_order_batch E i a c None signer)"
    by (intro append_order_batch_keeps keeps_rules) simp
  from keepsD [OF this run] ok run show "\<exists>x t. append_order_batch E i a c None signer s = (Inr x, t) \<and> rail_ok E (wal t)"
    by auto
qed

lemma settle_order_returns:
  assumes "no_faults E" "can_sign E signer" "parse_amount (po_amount ord) = Inr m" "po_fx ord = None"
    and "can_transition (po_status ord) Success"
  shows "returns E (settle_order E signer ord rc iw h entry)"
  using assms(5) unfolding settle_order_def Let_def terminal_def assms(4)
  by (intro returns_rules journal_returns [OF assms(1-3)] transition_returns log_returns notify_returns audit_returns assms) simp

section \<open>Dead letters\<close>

lemma mark_failed_Inr:
  assumes "mark_failed E ord reason s = (Inr x, t)"
  obtains dl where "logged x t" "po_status x = Failed" "po_next_retry_at x = po_next_retry_at ord"
    "dl \<in> set (f_dlq t)" "dl_order dl = po_id x" "dl_reason dl = reason"
proof -
  let ?dl = "\<lambda>now. \<lparr>dl_order = po_id x, dl_reason = reason, dl_evidence = JObj [(''rail'', JStr ''native''),
     (''status'', JStr (status_str (po_status x))), (''attempts'', JNum (int (po_attempts x)))], dl_created_at = now\<rparr>"
  have "\<exists>v w now z a b c d q q'. transition E Failed ord s = (Inr x, v) \<and> update_order E x v = (Inr a, w) \<and>
      now_rfc3339 E w = (Inr now :: error exn + string, z) \<and> append_dlq E (?dl now) z = (Inr b, q) \<and>
      notify E (po_id x) (''order_failed: '' @ reason) q = (Inr c, q') \<and>
      audit E AT_ORDER_FAILED (JObj [(''order'', JStr (po_id x)), (''reason'', JStr reason)]) None q' = (Inr d, t)"
    using assms unfolding mark_failed_def M_Inr sum.inject by (elim exE conjE) (hypsubst, intro exI conjI, assumption+)
  then obtain v w now z a b c d q q' where run: "transition E Failed ord s = (Inr x, v)" "update_order E x v = (Inr a, w)"
    "now_rfc3339 E w = (Inr now :: error exn + string, z)" "append_dlq E (?dl now) z = (Inr b, q)"
    "notify E (po_id x) (''order_failed: '' @ reason) q = (Inr c, q')"
    "audit E AT_ORDER_FAILED (JObj [(''order'', JStr (po_id x)), (''reason'', JStr reason)]) None q' = (Inr d, t)" by blast
  have "f_orders w = f_orders v @ [x]" using put_log_rules(1) [OF run(2)] .
  moreover have "f_orders z = f_orders w" using run(3) by auto
  moreover have "f_orders q = f_orders z"
    using run(4) by (rule keepsD [rotated]) (intro append_dlq_keeps keeps_rules; simp)
  moreover have "f_orders q' = f_orders q" "f_orders t = f_orders q'"
    using keepsD [OF order_keeping(3) run(5)] keepsD [OF order_keeping(2) run(6)] by simp_all
  ultimately have "logged x t" by (simp add: logged_def latest_append)
  moreover have "?dl now \<in> set (f_dlq q)" using put_log_rules(5) [OF run(4)] by simp
  then have "?dl now \<in> set (f_dlq t)"
    using keepsD [OF logs_pass.notify_keeps run(5)] keepsD [OF logs_pass.audit_step run(6)]
    by (auto simp: logs_grow_def dest!: set_mono_prefix)
  moreover have "po_status x = Failed" "po_next_retry_at x = po_next_retry_at ord"
    using run(1) by (auto simp: transition_Inr)
  ultimately show thesis using that [of "?dl now"] by simp
qed

section \<open>Callbacks\<close>

lemma receipts_keeping:
  "keeps (\<lambda>s t. f_receipts t = f_receipts s) (update_order E x)" "keeps (\<lambda>s t. f_receipts t = f_receipts s) (notify E i ev)"
  "keeps (\<lambda>s t. f_receipts t = f_receipts s) (audit E ty pl keys)" "keeps (\<lambda>s t. f_receipts t = f_receipts s) (get_order E i)"
  unfolding notify_def by (intro update_order_keeps append_notification_keeps audit_keeps keeps_rules; simp)+

lemma settled_callback_Inr:
  assumes "process_callback E cb s = (Inr u, t)" "sc_status cb = ''settled''"
  obtains x y where "latest (f_orders s) (sc_order cb) = Some x" "po_status x = RequiresAction" "logged y t" "same_terms x y"
    "po_status y = NotStarted" "po_receipt y = po_receipt x" "f_receipts t = f_receipts s"
proof -
  obtain x v where g: "get_order E (sc_order cb) s = (Inr x, v)" and st: "po_status x = RequiresAction"
    and run: "callback_settled E cb x v = (Inr u, t)"
    using assms by (auto simp: process_callback_def M_Inr)
  let ?y = "x\<lparr>po_status := NotStarted, po_updated_at := rfc3339 E (env_time E (n_time v)), po_executing_since := None,
     po_next_retry_at := None\<rparr>"
  obtain a w ev b z pl where up: "update_order E ?y (v\<lparr>n_time := n_time v + 1\<rparr>) = (Inr a, w)"
    and nt: "notify E (po_id ?y) ev w = (Inr b, z)" and au: "audit E AT_ORDER_REQUEUED pl None z = (Inr u, t)"
    using run by (auto simp: callback_settled_def Let_def M_Inr transition_Inr)
  have "f_orders t = f_orders w" using keepsD [OF order_keeping(3) nt] keepsD [OF order_keeping(2) au] by simp
  then have "logged ?y t" using put_log_rules(1) [OF up] by (simp add: logged_def latest_append)
  moreover have "f_receipts t = f_receipts s"
    using keepsD [OF receipts_keeping(4) g] keepsD [OF receipts_keeping(1) up] keepsD [OF receipts_keeping(2) nt]
      keepsD [OF receipts_keeping(3) au] by simp
  ultimately show thesis
    using that [of x ?y] get_order_logged(2) [OF g refl] st by (auto simp: logged_def same_terms_def)
qed

section \<open>Properties\<close>






definition example_callback :: settlement_callback where
  "example_callback = \<lparr>sc_order = ''o1'', sc_status = ''settled'', sc_receipt = Some ''r'', sc_settlement_ref = None,
     sc_timestamp = ''t''\<rparr>"


text \<open>
  A facilitator that rejects a settlement with a \<open>Retry-After\<close> header is not heard: the text
  the executor builds from the hint is never recognised by \<open>extract_retry_after_ms\<close>, so the
  retry is scheduled as if there had been no hint. The same holds on the bank rail.
\<close>

theorem facilitator_hint_ignored:
  "extract_retry_after_ms (''facilitator /settle rejected: '' @ e @ '' (retry-after='' @ dec n @ ''s)'') =
     extract_retry_after_ms (''facilitator /settle rejected: '' @ e) \<and>
   extract_retry_after_ms (''ACH facilitator /settle rejected: '' @ e @ '' (retry-after='' @ dec n @ ''s)'') =
     extract_retry_after_ms (''ACH facilitator /settle rejected: '' @ e)"
  using hint_ignored [of "''facilitator /settle rejected: '' @ e" n] hint_ignored [of "''ACH facilitator /settle rejected: '' @ e" n]
  by simp

end
