(* ===== verification/Reconcile.thy ===== *)
theory Reconcile
  imports Journal Checkpoints Card_Vault
begin

text \<open>
  \<open>origin-payments/src/reconcile.rs\<close>: settlement files of a payment provider are pulled,
  stamped with their content hash and compared with the orders the store has as settled;
  a run is checkpointed in the mountain range and kept. A file of the two directories is
  a name with its parsed contents; a file that does not parse and a directory that cannot
  be listed are faults of the environment. Dates and currencies contain no path separator.
\<close>

section \<open>Settlement files\<close>

record settlement_row =
  sr_order :: string
  sr_amount :: string

record settlement_file =
  sf_rail :: string
  sf_date :: string
  sf_currency :: string
  sf_rows :: "settlement_row list"
  sf_content_hash :: string

definition row_json :: "settlement_row \<Rightarrow> json" where
  "row_json r = JObj [(''payment_order_id'', JStr (sr_order r)), (''amount'', JStr (sr_amount r))]"

definition settlement_body :: "settlement_file \<Rightarrow> json" where
  "settlement_body f = JObj [(''rail'', JStr (sf_rail f)), (''date'', JStr (sf_date f)),
     (''currency'', JStr (sf_currency f)), (''rows'', JArr (map row_json (sf_rows f)))]"

definition compute_hash :: "env \<Rightarrow> settlement_file \<Rightarrow> string" where
  "compute_hash E f = hex_encode (sha3_256 E (json_to_vec E (settlement_body f)))"

definition verify_stamp :: "env \<Rightarrow> settlement_file \<Rightarrow> bool" where
  "verify_stamp E f \<longleftrightarrow> sf_content_hash f = compute_hash E f"

section \<open>Runs\<close>

datatype reconcile_status = RClean | RMismatches | RFailed

datatype mismatch_class = CMatch | CAdjustable | CUnclassifiable

record reconcile_mismatch =
  rm_run :: string
  rm_order :: string
  rm_psp_amount :: "string option"
  rm_journal_amount :: "string option"
  rm_class :: mismatch_class
  rm_evidence :: "string list"

record reconcile_run =
  rr_id :: string
  rr_date :: string
  rr_psp_files :: "settlement_file list"
  rr_journal_root :: bytes
  rr_matches :: nat
  rr_mismatches :: "reconcile_mismatch list"
  rr_mmr_checkpoint :: bytes
  rr_status :: reconcile_status
  rr_created_at :: string

record books = world +
  f_settlement :: "(string \<times> settlement_file) list"
  f_runs :: "(string \<times> reconcile_run) list"

type_synonym ('c, 'a) B = "('c books_scheme, error, 'a) M"

section \<open>Writing a file\<close>

text \<open>\<open>base.json\<close> is written as \<open>base.tmp\<close> and renamed; the name \<open>.json\<close> has no extension.\<close>

definition tmp_name :: "string \<Rightarrow> string" where
  "tmp_name base = (if base = [] then ''.json.tmp'' else base @ ''.tmp'')"

definition write_atomic ::
  "env \<Rightarrow> string \<Rightarrow> string \<Rightarrow> string \<Rightarrow> ('c world_scheme \<Rightarrow> 'c world_scheme) \<Rightarrow> ('c, unit) W" where
  "write_atomic E serializing dir base f = bnd (next_fault E) (\<lambda>mkdir. case mkdir of
       Some z \<Rightarrow> fail (IoError (''creating '' @ path_of E dir @ '': '' @ fault_text z))
     | None \<Rightarrow> write_file E serializing (dir @ ''/'' @ tmp_name base) (dir @ ''/'' @ base @ ''.json'') f)"

definition settlement_base :: "string \<Rightarrow> string \<Rightarrow> string" where
  "settlement_base date currency = (if currency = [] then date else date @ ''.'' @ currency)"

definition pull :: "env \<Rightarrow> string \<Rightarrow> string \<Rightarrow> string \<Rightarrow> settlement_row list \<Rightarrow> ('c, settlement_file) B" where
  "pull E rail date currency rows =
     (let file = \<lparr>sf_rail = rail, sf_date = date, sf_currency = currency, sf_rows = rows, sf_content_hash = []\<rparr>;
          stamped = file\<lparr>sf_content_hash := compute_hash E file\<rparr> in
      seqM (write_atomic E ''serializing settlement file'' ''settlement'' (settlement_base date currency)
        (\<lambda>s. s\<lparr>f_settlement := put (settlement_base date currency @ ''.json'') stamped (f_settlement s)\<rparr>))
      (ret stamped))"

section \<open>Exporting settled orders\<close>

text \<open>A \<open>BTreeMap\<close> as its sorted list of entries: insertion, and pushing to an entry's list.\<close>

fun bt_insert :: "string \<Rightarrow> 'v \<Rightarrow> (string \<times> 'v) list \<Rightarrow> (string \<times> 'v) list" where
  "bt_insert k v [] = [(k, v)]"
| "bt_insert k v ((k', v') # m) =
     (if k = k' then (k, v) # m else if k < k' then (k, v) # (k', v') # m else (k', v') # bt_insert k v m)"

definition bt_push :: "string \<Rightarrow> 'v \<Rightarrow> (string \<times> 'v list) list \<Rightarrow> (string \<times> 'v list) list" where
  "bt_push k v m = bt_insert k ((case map_of m k of None \<Rightarrow> [] | Some vs \<Rightarrow> vs) @ [v]) m"

definition settlement_currency :: "payment_order \<Rightarrow> string" where
  "settlement_currency x = (case po_fx x of Some fx \<Rightarrow> fx_to fx | None \<Rightarrow> po_currency x)"

definition rows_by_currency :: "payment_order list \<Rightarrow> (string \<times> settlement_row list) list" where
  "rows_by_currency os = fold (\<lambda>x. bt_push (settlement_currency x) \<lparr>sr_order = po_id x, sr_amount = po_amount x\<rparr>)
     (filter (\<lambda>x. po_status x = Success) os) []"

definition export_file :: "env \<Rightarrow> string \<Rightarrow> string \<Rightarrow> settlement_file list \<Rightarrow> string \<times> settlement_row list \<Rightarrow>
    ('c, settlement_file list) B" where
  "export_file E rail date files entry = (case entry of (currency, rows) \<Rightarrow>
     let base = date @ ''.'' @ currency;
         file = \<lparr>sf_rail = rail, sf_date = date, sf_currency = currency, sf_rows = rows, sf_content_hash = []\<rparr>;
         stamped = file\<lparr>sf_content_hash := compute_hash E file\<rparr> in
     seqM (write_file E ''serializing settlement file'' (''settlement/'' @ tmp_name base) (''settlement/'' @ base @ ''.json'')
       (\<lambda>s. s\<lparr>f_settlement := put (base @ ''.json'') stamped (f_settlement s)\<rparr>))
     (ret (files @ [stamped])))"

definition export_per_currency :: "env \<Rightarrow> string \<Rightarrow> string \<Rightarrow> ('c, settlement_file list) B" where
  "export_per_currency E rail date = bnd (orders E) (\<lambda>os. bnd (next_fault E) (\<lambda>mkdir. case mkdir of
       Some z \<Rightarrow> fail (IoError (''creating '' @ path_of E ''settlement'' @ '': '' @ fault_text z))
     | None \<Rightarrow> foldM (export_file E rail date) [] (rows_by_currency os)))"

section \<open>Loading\<close>

definition read_settlement_file :: "env \<Rightarrow> string \<Rightarrow> settlement_file \<Rightarrow> ('c, settlement_file) B" where
  "read_settlement_file E name f = (let path = path_of E (''settlement/'' @ name) in
     bnd (next_fault E) (\<lambda>z. case z of
       Some (Corrupt i e) \<Rightarrow> fail (SettlementFileInvalid path (''parsing: '' @ e))
     | Some z \<Rightarrow> fail (IoError (''reading '' @ path @ '': '' @ fault_text z))
     | None \<Rightarrow> seqM (guard (verify_stamp E f) (SettlementStampMismatch path)) (ret f)))"

definition no_file :: "env \<Rightarrow> string \<Rightarrow> error" where
  "no_file E date = SettlementFileInvalid (path_of E (''settlement/'' @ date @ ''.json''))
     ''no settlement file pulled for this date''"

definition load :: "env \<Rightarrow> string \<Rightarrow> ('c, settlement_file) B" where
  "load E date = bnd (gets f_settlement) (\<lambda>m. case map_of m (date @ ''.json'') of
       None \<Rightarrow> fail (no_file E date)
     | Some f \<Rightarrow> read_settlement_file E (date @ ''.json'') f)"

definition is_extra :: "string \<Rightarrow> string \<Rightarrow> bool" where
  "is_extra date n \<longleftrightarrow> starts_with (date @ ''.'') n \<and> ends_with ''.json'' n \<and> n \<noteq> date @ ''.json''"

definition load_extra :: "env \<Rightarrow> (string \<times> settlement_file) list \<Rightarrow> settlement_file list \<Rightarrow> string \<Rightarrow>
    ('c, settlement_file list) B" where
  "load_extra E m files n = bnd (read_settlement_file E n (the (map_of m n))) (\<lambda>f. ret (files @ [f]))"

definition load_all :: "env \<Rightarrow> string \<Rightarrow> ('c, settlement_file list) B" where
  "load_all E date = bnd (gets f_settlement) (\<lambda>m.
     bnd (case map_of m (date @ ''.json'') of None \<Rightarrow> ret [] | Some _ \<Rightarrow> bnd (load E date) (\<lambda>f. ret [f])) (\<lambda>legacy.
     bnd (next_fault E) (\<lambda>z. case z of
       Some z \<Rightarrow> fail (IoError (''reading '' @ path_of E ''settlement'' @ '': '' @ fault_text z))
     | None \<Rightarrow>
         bnd (foldM (load_extra E m) legacy (sort (filter (is_extra date) (map fst m)))) (\<lambda>files.
         seqM (guard (files \<noteq> []) (no_file E date)) (ret files)))))"

section \<open>Comparing\<close>

definition amount_eq :: "string \<Rightarrow> string \<Rightarrow> bool" where
  "amount_eq a b = (case (parse_amount a, parse_amount b) of (Inr x, Inr y) \<Rightarrow> x = y | _ \<Rightarrow> a = b)"

definition internal_view :: "payment_order list \<Rightarrow> (string \<times> string) list" where
  "internal_view os = fold (\<lambda>x. bt_insert (po_id x) (po_amount x)) (filter (\<lambda>x. po_status x = Success) os) []"

definition psp_view :: "settlement_file list \<Rightarrow> (string \<times> string) list" where
  "psp_view fs = fold (\<lambda>r. bt_insert (sr_order r) (sr_amount r)) (concat (map sf_rows fs)) []"

definition order_ids :: "(string \<times> string) list \<Rightarrow> (string \<times> string) list \<Rightarrow> string list" where
  "order_ids psp internal = sort (map fst psp @ filter (\<lambda>i. i \<notin> set (map fst psp)) (map fst internal))"

fun compare_ids :: "string \<Rightarrow> string \<Rightarrow> (string \<times> string) list \<Rightarrow> (string \<times> string) list \<Rightarrow> nat \<Rightarrow>
    reconcile_mismatch list \<Rightarrow> string list \<Rightarrow> nat \<times> reconcile_mismatch list" where
  "compare_ids run date psp internal matches mismatches [] = (matches, mismatches)"
| "compare_ids run date psp internal matches mismatches (i # ids) =
     (let p = map_of psp i; j = map_of internal i;
          mismatch = (\<lambda>c. \<lparr>rm_run = run, rm_order = i, rm_psp_amount = p, rm_journal_amount = j, rm_class = c,
            rm_evidence = [''settlement '' @ date]\<rparr>) in
      case (p, j) of
        (Some a, Some b) \<Rightarrow>
          if amount_eq a b then compare_ids run date psp internal (matches + 1) mismatches ids
          else compare_ids run date psp internal matches (mismatches @ [mismatch CAdjustable]) ids
      | _ \<Rightarrow> compare_ids run date psp internal matches (mismatches @ [mismatch CUnclassifiable]) ids)"

definition stamps :: "settlement_file list \<Rightarrow> bytes" where
  "stamps fs = concat (map (\<lambda>f. case hex_decode (sf_content_hash f) of None \<Rightarrow> [] | Some b \<Rightarrow> b) fs)"

text \<open>The second half of \<open>run\<close>: checkpoint and record.\<close>

definition close_run :: "env \<Rightarrow> string \<Rightarrow> string \<Rightarrow> settlement_file list \<Rightarrow> nat \<times> reconcile_mismatch list \<Rightarrow>
    ('c, reconcile_run) B" where
  "close_run E run_id date settlements found =
     bnd (journal_head E) (\<lambda>journal_root.
     bnd (checkpoint_mmr E (sha3_256 E (stamps settlements @ journal_root))) (\<lambda>cp.
     bnd (now_rfc3339 E) (\<lambda>now.
     let run = \<lparr>rr_id = run_id, rr_date = date, rr_psp_files = settlements, rr_journal_root = journal_root,
           rr_matches = fst found, rr_mismatches = snd found, rr_mmr_checkpoint = cp,
           rr_status = (if snd found = [] then RClean else RMismatches), rr_created_at = now\<rparr> in
     seqM (write_atomic E ''serializing run'' ''reconcile'' run_id
       (\<lambda>s. s\<lparr>f_runs := put (run_id @ ''.json'') run (f_runs s)\<rparr>))
     (ret run))))"

definition reconcile :: "env \<Rightarrow> string option \<Rightarrow> ('c, reconcile_run) B" where
  "reconcile E day =
     bnd (case day of Some d \<Rightarrow> ret d | None \<Rightarrow> bnd (utc_now E) (\<lambda>t. ret (ymd E t))) (\<lambda>date.
     bnd (load_all E date) (\<lambda>settlements.
     bnd (new_uuid E) (\<lambda>run_id.
     bnd (orders E) (\<lambda>os.
     let psp = psp_view settlements; internal = internal_view os in
     close_run E run_id date settlements (compare_ids run_id date psp internal 0 [] (order_ids psp internal))))))"

section \<open>Past runs\<close>

text \<open>A stable sort, newest date first, then newest creation time.\<close>

definition newer :: "reconcile_run \<Rightarrow> reconcile_run \<Rightarrow> bool" where
  "newer a b \<longleftrightarrow> rr_date b < rr_date a \<or> rr_date a = rr_date b \<and> rr_created_at b < rr_created_at a"

fun insert_run :: "reconcile_run \<Rightarrow> reconcile_run list \<Rightarrow> reconcile_run list" where
  "insert_run r [] = [r]"
| "insert_run r (x # xs) = (if newer x r then x # insert_run r xs else r # x # xs)"

definition read_run :: "env \<Rightarrow> (string \<times> reconcile_run) list \<Rightarrow> reconcile_run list \<Rightarrow> string \<Rightarrow>
    ('c, reconcile_run list) B" where
  "read_run E m runs n = bnd (next_fault E) (\<lambda>z. case z of
       None \<Rightarrow> ret (runs @ [the (map_of m n)])
     | Some (Corrupt i e) \<Rightarrow> ret runs
     | Some z \<Rightarrow> fail (IoError (''reading '' @ path_of E (''reconcile/'' @ n) @ '': '' @ fault_text z)))"

definition list_runs :: "env \<Rightarrow> ('c, reconcile_run list) B" where
  "list_runs E = bnd (gets f_runs) (\<lambda>m. if m = [] then ret [] else
     bnd (next_fault E) (\<lambda>z. case z of
       Some z \<Rightarrow> fail (IoError (''reading '' @ path_of E ''reconcile'' @ '': '' @ fault_text z))
     | None \<Rightarrow> bnd (gets n_io) (\<lambda>n. bnd (foldM (read_run E m) [] (env_shuffle E n (map fst m))) (\<lambda>runs.
         ret (foldr insert_run runs [])))))"

definition load_run :: "env \<Rightarrow> string \<Rightarrow> ('c, reconcile_run) B" where
  "load_run E run_id = (let path = path_of E (''reconcile/'' @ run_id @ ''.json'') in
     bnd (gets f_runs) (\<lambda>m. bnd (next_fault E) (\<lambda>z. case (z, map_of m (run_id @ ''.json'')) of
       (None, Some r) \<Rightarrow> ret r
     | (Some (Corrupt i e), Some r) \<Rightarrow> fail (StoreCorrupted (''parsing run '' @ run_id @ '': '' @ e))
     | (Some z, _) \<Rightarrow> fail (IoError (''reading '' @ path @ '': '' @ fault_text z))
     | (None, None) \<Rightarrow> fail (IoError (''reading '' @ path @ '': No such file or directory (os error 2)'')))))"

section \<open>Sorted entries\<close>

lemma bt_insert_keys: "set (map fst (bt_insert k v m)) = insert k (set (map fst m))"
  by (induction k v m rule: bt_insert.induct) auto

lemma bt_insert_sorted: "sorted_wrt (<) (map fst m) \<Longrightarrow> sorted_wrt (<) (map fst (bt_insert k v m))"
proof (induction k v m rule: bt_insert.induct)
  case (2 k v k' v' m)
  have "\<forall>x \<in> set (map fst (bt_insert k v m)). k' < x" if "k' < k"
    unfolding bt_insert_keys using 2 that by auto
  with 2 show ?case by (auto simp: not_less_iff_gr_or_eq)
qed simp

lemma bt_insert_lookup:
  "sorted_wrt (<) (map fst m) \<Longrightarrow> map_of (bt_insert k v m) i = (if i = k then Some v else map_of m i)"
  by (induction k v m rule: bt_insert.induct) auto

text \<open>A map filled in order holds, for each key, the value inserted last.\<close>

lemma bt_fold_spec:
  assumes "sorted_wrt (<) (map fst m)"
  shows "sorted_wrt (<) (map fst (fold (\<lambda>x. bt_insert (key x) (val x)) xs m)) \<and>
    map_of (fold (\<lambda>x. bt_insert (key x) (val x)) xs m) i =
      (case find_last (\<lambda>x. key x = i) xs of Some x \<Rightarrow> Some (val x) | None \<Rightarrow> map_of m i)"
  using assms
proof (induction xs rule: rev_induct)
  case (snoc x xs)
  then show ?case by (auto simp: bt_insert_sorted bt_insert_lookup)
qed simp

lemma sorted_less_sort: "distinct xs \<Longrightarrow> sorted_wrt (<) (sort xs)" for xs :: "string list"
  by (simp add: strict_sorted_iff)

section \<open>What a run reports\<close>

text \<open>
  What the provider and the store say about an order: the last row of the settlement
  files that names it, and its last settled snapshot.
\<close>

definition psp_amount :: "settlement_file list \<Rightarrow> string \<Rightarrow> string option" where
  "psp_amount fs i = map_option sr_amount (find_last (\<lambda>r. sr_order r = i) (concat (map sf_rows fs)))"

definition settled_amount :: "payment_order list \<Rightarrow> string \<Rightarrow> string option" where
  "settled_amount os i = map_option po_amount (find_last (\<lambda>x. po_id x = i) (filter (\<lambda>x. po_status x = Success) os))"

definition agree :: "string option \<Rightarrow> string option \<Rightarrow> bool" where
  "agree p j = (case (p, j) of (Some a, Some b) \<Rightarrow> amount_eq a b | _ \<Rightarrow> False)"

definition verdict :: "string option \<Rightarrow> string option \<Rightarrow> mismatch_class" where
  "verdict p j = (if agree p j then CMatch else if p \<noteq> None \<and> j \<noteq> None then CAdjustable else CUnclassifiable)"

lemma psp_view_spec: "sorted_wrt (<) (map fst (psp_view fs)) \<and> map_of (psp_view fs) i = psp_amount fs i"
  using bt_fold_spec [where m = "[]" and key = sr_order and val = sr_amount and xs = "concat (map sf_rows fs)" and i = i]
  by (auto simp: psp_view_def psp_amount_def split: option.splits)

lemma internal_view_spec:
  "sorted_wrt (<) (map fst (internal_view os)) \<and> map_of (internal_view os) i = settled_amount os i"
  using bt_fold_spec [where m = "[]" and key = po_id and val = po_amount
      and xs = "filter (\<lambda>x. po_status x = Success) os" and i = i]
  by (auto simp: internal_view_def settled_amount_def split: option.splits)

lemma key_iff: "i \<in> set (map fst m) \<longleftrightarrow> map_of m i \<noteq> None"
  by (simp add: map_of_eq_None_iff)

lemma order_ids_spec:
  "sorted_wrt (<) (order_ids (psp_view fs) (internal_view os)) \<and>
   set (order_ids (psp_view fs) (internal_view os)) = {i. psp_amount fs i \<noteq> None \<or> settled_amount os i \<noteq> None}"
proof
  have "distinct (map fst (psp_view fs))" "distinct (map fst (internal_view os))"
    using psp_view_spec internal_view_spec by (auto simp: strict_sorted_iff)
  then have "distinct (map fst (psp_view fs) @ filter (\<lambda>i. i \<notin> set (map fst (psp_view fs))) (map fst (internal_view os)))"
    by auto
  then show "sorted_wrt (<) (order_ids (psp_view fs) (internal_view os))"
    unfolding order_ids_def by (rule sorted_less_sort)
  have "i \<in> set (order_ids (psp_view fs) (internal_view os)) \<longleftrightarrow>
      i \<in> set (map fst (psp_view fs)) \<or> i \<in> set (map fst (internal_view os))" for i
    by (auto simp: order_ids_def)
  then show "set (order_ids (psp_view fs) (internal_view os)) = {i. psp_amount fs i \<noteq> None \<or> settled_amount os i \<noteq> None}"
    by (auto simp: key_iff psp_view_spec internal_view_spec simp del: set_map)
qed

definition mismatch_of :: "string \<Rightarrow> string \<Rightarrow> string option \<Rightarrow> string option \<Rightarrow> string \<Rightarrow> reconcile_mismatch" where
  "mismatch_of run date p j i = \<lparr>rm_run = run, rm_order = i, rm_psp_amount = p, rm_journal_amount = j,
     rm_class = verdict p j, rm_evidence = [''settlement '' @ date]\<rparr>"

lemma compare_ids_spec:
  "compare_ids run date psp internal n ms ids =
     (n + length (filter (\<lambda>i. agree (map_of psp i) (map_of internal i)) ids),
      ms @ map (\<lambda>i. mismatch_of run date (map_of psp i) (map_of internal i) i)
        (filter (\<lambda>i. \<not> agree (map_of psp i) (map_of internal i)) ids))"
proof (induction ids arbitrary: n ms)
  case (Cons i ids)
  show ?case
    by (cases "map_of psp i"; cases "map_of internal i")
      (simp_all add: Cons.IH Let_def agree_def mismatch_of_def verdict_def)
qed simp

section \<open>Which files a run reads\<close>

definition day_files :: "string \<Rightarrow> (string \<times> settlement_file) list \<Rightarrow> settlement_file list" where
  "day_files date m = (case map_of m (date @ ''.json'') of None \<Rightarrow> [] | Some f \<Rightarrow> [f]) @
     map (\<lambda>n. the (map_of m n)) (sort (filter (is_extra date) (map fst m)))"

lemma read_settlement_Inr: "read_settlement_file E n f s = (Inr x, t) \<longleftrightarrow>
    env_faults E (n_io s) = None \<and> verify_stamp E f \<and> x = f \<and> t = s\<lparr>n_io := n_io s + 1\<rparr>"
  by (auto simp: read_settlement_file_def bnd_def seqM_def guard_def ret_def Let_def split: option.splits fault.splits)

lemma load_extra_Inr: "load_extra E m acc n s = (Inr fs, t) \<longleftrightarrow> env_faults E (n_io s) = None \<and>
    verify_stamp E (the (map_of m n)) \<and> fs = acc @ [the (map_of m n)] \<and> t = s\<lparr>n_io := n_io s + 1\<rparr>"
  by (auto simp: load_extra_def M_Inr read_settlement_Inr)

lemma load_extra_returns:
  "no_faults E \<Longrightarrow> verify_stamp E (the (map_of m n)) \<Longrightarrow>
   load_extra E m acc n s = (Inr (acc @ [the (map_of m n)]), s\<lparr>n_io := n_io s + 1\<rparr>)"
  by (simp add: load_extra_Inr no_faults_def)

lemma read_all_Inr:
  "foldM (load_extra E m) acc ns s = (Inr fs, t) \<Longrightarrow>
   fs = acc @ map (\<lambda>n. the (map_of m n)) ns \<and> (\<forall>n \<in> set ns. verify_stamp E (the (map_of m n))) \<and> (\<exists>k. t = s\<lparr>n_io := k\<rparr>)"
proof (induction ns arbitrary: acc s)
  case Nil
  then show ?case by (auto simp: M_Inr intro: exI [of _ "n_io s"])
next
  case (Cons n ns)
  from Cons.prems have ok: "verify_stamp E (the (map_of m n))"
    and rest: "foldM (load_extra E m) (acc @ [the (map_of m n)]) ns (s\<lparr>n_io := n_io s + 1\<rparr>) = (Inr fs, t)"
    by (auto simp: M_Inr load_extra_Inr)
  from Cons.IH [OF rest] ok show ?case by auto
qed

lemma read_all_returns:
  "no_faults E \<Longrightarrow> \<forall>n \<in> set ns. verify_stamp E (the (map_of m n)) \<Longrightarrow>
   foldM (load_extra E m) acc ns s = (Inr (acc @ map (\<lambda>n. the (map_of m n)) ns), s\<lparr>n_io := n_io s + length ns\<rparr>)"
  by (induction ns arbitrary: acc s)
    (simp_all add: ret_def bnd_def load_extra_returns)

lemma load_all_Inr:
  assumes "load_all E date s = (Inr fs, t)"
  shows "fs = day_files date (f_settlement s) \<and> fs \<noteq> [] \<and> (\<forall>f \<in> set fs. verify_stamp E f) \<and> (\<exists>k. t = s\<lparr>n_io := k\<rparr>)"
proof -
  let ?m = "f_settlement s"
  from assms obtain legacy u k where
    l: "(case map_of ?m (date @ ''.json'') of None \<Rightarrow> ret [] | Some _ \<Rightarrow> bnd (load E date) (\<lambda>f. ret [f])) s = (Inr legacy, u)"
    and rest: "foldM (load_extra E ?m) legacy
      (sort (filter (is_extra date) (map fst ?m))) (u\<lparr>n_io := n_io u + 1\<rparr>) = (Inr fs, t)" and ne: "fs \<noteq> []"
    by (auto simp: load_all_def M_Inr split: option.splits)
  have leg: "legacy = (case map_of ?m (date @ ''.json'') of None \<Rightarrow> [] | Some f \<Rightarrow> [f]) \<and>
      (\<forall>f \<in> set legacy. verify_stamp E f) \<and> (\<exists>k. u = s\<lparr>n_io := k\<rparr>)"
    using l by (auto simp: M_Inr load_def read_settlement_Inr intro: exI [of _ "n_io s"] split: option.splits)
  from read_all_Inr [OF rest] leg ne show ?thesis by (auto simp: day_files_def)
qed

lemma load_all_returns:
  assumes "no_faults E" "day_files date (f_settlement s) \<noteq> []" "\<forall>f \<in> set (day_files date (f_settlement s)). verify_stamp E f"
  shows "\<exists>k. load_all E date s = (Inr (day_files date (f_settlement s)), s\<lparr>n_io := k\<rparr>)"
proof -
  let ?m = "f_settlement s" and ?extra = "sort (filter (is_extra date) (map fst (f_settlement s)))"
  obtain k where l: "(case map_of ?m (date @ ''.json'') of None \<Rightarrow> ret [] | Some _ \<Rightarrow> bnd (load E date) (\<lambda>f. ret [f])) s =
      (Inr (case map_of ?m (date @ ''.json'') of None \<Rightarrow> [] | Some f \<Rightarrow> [f]) :: error exn + settlement_file list, s\<lparr>n_io := k\<rparr>)"
  proof (cases "map_of ?m (date @ ''.json'')")
    case None
    then show ?thesis using that [of "n_io s"] by (simp add: ret_def)
  next
    case (Some f)
    with assms show ?thesis using that [of "n_io s + 1"]
      by (simp add: load_def bnd_def gets_def read_settlement_file_def seqM_def guard_def ret_def no_faults_def day_files_def Let_def)
  qed
  have "\<forall>n \<in> set ?extra. verify_stamp E (the (map_of ?m n))"
    using assms(3) by (auto simp: day_files_def)
  from read_all_returns [OF assms(1) this, of _ "s\<lparr>n_io := Suc k\<rparr>"] l assms(1,2) show ?thesis
    by (auto simp: load_all_def bnd_def gets_def seqM_def guard_def ret_def no_faults_def day_files_def)
qed

lemma put_lookup [simp]: "map_of (put k v m) i = (if i = k then Some v else map_of m i)"
  by (induction m) (auto simp: put_def)

lemma write_atomic_Inr:
  "write_atomic E msg dir base f s = (Inr x, t) \<Longrightarrow> t = f (s\<lparr>n_io := n_io s + 2\<rparr>)"
  by (auto simp: write_atomic_def write_file_def bnd_def modify_def split: option.splits fault.splits)

text \<open>A pulled file is read by the next run of its day.\<close>

lemma set_put: "set (map fst (put k v m)) = insert k (set (map fst m))"
  by (auto simp: put_def)

lemma pull_read_back:
  assumes "pull E rail date currency rows s = (Inr f, t)"
  shows "verify_stamp E f \<and> sf_rows f = rows \<and> f \<in> set (day_files date (f_settlement t))"
proof -
  let ?n = "settlement_base date currency @ ''.json''"
  from assms have f: "verify_stamp E f" "sf_rows f = rows"
    and w: "f_settlement t = put ?n f (f_settlement s)"
    by (auto simp: pull_def Let_def M_Inr verify_stamp_def compute_hash_def settlement_body_def dest!: write_atomic_Inr)
  have "f \<in> set (day_files date (put ?n f (f_settlement s)))"
  proof (cases "currency = []")
    case True
    then show ?thesis by (simp add: day_files_def settlement_base_def)
  next
    case False
    then have "is_extra date ?n"
      by (simp add: is_extra_def settlement_base_def starts_with_def ends_with_def)
    then have "?n \<in> set (sort (filter (is_extra date) (map fst (put ?n f (f_settlement s)))))"
      using set_put [of ?n f "f_settlement s"] by auto
    then show ?thesis unfolding day_files_def by (force simp del: set_sort)
  qed
  with f w show ?thesis by simp
qed

text \<open>Every run that returns went through these steps.\<close>

definition found_by :: "reconcile_run \<Rightarrow> payment_order list \<Rightarrow> nat \<times> reconcile_mismatch list" where
  "found_by r os = compare_ids (rr_id r) (rr_date r) (psp_view (rr_psp_files r)) (internal_view os) 0 []
     (order_ids (psp_view (rr_psp_files r)) (internal_view os))"

lemma close_run_Inr:
  assumes "close_run E run date fs found s = (Inr r, t)"
  shows "rr_id r = run \<and> rr_date r = date \<and> rr_psp_files r = fs \<and> (rr_matches r, rr_mismatches r) = found \<and>
    rr_status r = (if rr_mismatches r = [] then RClean else RMismatches) \<and>
    rr_journal_root r = chain_head (posting_hash E) GENESIS_HASH (f_journal s) \<and>
    cp_append (blake3 E) (store_mmr s) (sha3_256 E (stamps fs @ rr_journal_root r)) =
      Some (store_mmr t, rr_mmr_checkpoint r) \<and>
    map_of (f_runs t) (run @ ''.json'') = Some r"
proof -
  from assms obtain u v where j: "journal_head E s = (Inr (rr_journal_root r), u)"
    and k: "checkpoint_mmr E (sha3_256 E (stamps fs @ rr_journal_root r)) u = (Inr (rr_mmr_checkpoint r), v)"
    and w: "write_atomic E ''serializing run'' ''reconcile'' run
      (\<lambda>s. s\<lparr>f_runs := put (run @ ''.json'') r (f_runs s)\<rparr>) (v\<lparr>n_time := n_time v + 1\<rparr>) = (Inr (), t)"
    and r: "rr_id r = run \<and> rr_date r = date \<and> rr_psp_files r = fs \<and> (rr_matches r, rr_mismatches r) = found \<and>
      rr_status r = (if rr_mismatches r = [] then RClean else RMismatches)"
    by (auto simp: close_run_def Let_def M_Inr)
  have "f_mmr u = f_mmr s"
    by (rule keepsD [OF journal_head_keeps [OF same_rel.state_preorder_axioms [of f_mmr]] j]) (simp add: clock_ok_def)
  with journal_head_Inr [OF j] checkpoint_mmr_Inr [OF k] write_atomic_Inr [OF w] r show ?thesis
    by (auto simp: store_mmr_def)
qed

lemma reconcile_Inr:
  assumes "reconcile E day s = (Inr r, t)"
  shows "\<exists>u. close_run E (rr_id r) (rr_date r) (rr_psp_files r) (found_by r (f_orders s)) u = (Inr r, t) \<and>
    f_journal u = f_journal s \<and> f_mmr u = f_mmr s \<and>
    rr_psp_files r = day_files (rr_date r) (f_settlement s) \<and> rr_psp_files r \<noteq> [] \<and>
    (\<forall>f \<in> set (rr_psp_files r). verify_stamp E f) \<and> (\<forall>d. day = Some d \<longrightarrow> rr_date r = d)"
proof -
  from assms obtain date s1 fs s2 os u where
    d: "(case day of Some d \<Rightarrow> ret d | None \<Rightarrow> bnd (utc_now E) (\<lambda>t. ret (ymd E t))) s = (Inr date :: error exn + string, s1)"
    and l: "load_all E date s1 = (Inr fs, s2)"
    and o: "orders E (s2\<lparr>n_uuid := n_uuid s2 + 1\<rparr>) = (Inr os, u)"
    and c: "close_run E (env_uuid E (n_uuid s2)) date fs (compare_ids (env_uuid E (n_uuid s2)) date (psp_view fs) (internal_view os) 0 []
      (order_ids (psp_view fs) (internal_view os))) u = (Inr r, t)"
    by (auto simp: reconcile_def Let_def M_Inr)
  have d': "(\<exists>n. s1 = s\<lparr>n_time := n\<rparr>) \<and> (\<forall>d. day = Some d \<longrightarrow> date = d)"
    using d by (auto simp: M_Inr intro: exI [of _ "n_time s"] split: option.splits)
  have o': "os = f_orders s2 \<and> (\<exists>k. u = s2\<lparr>n_uuid := n_uuid s2 + 1, n_io := k\<rparr>)"
    using o by (auto simp: orders_def read_jsonl_def bnd_def gets_def split: option.splits fault.splits)
  from load_all_Inr [OF l] obtain k where l': "fs = day_files date (f_settlement s1)" "fs \<noteq> []" "\<forall>f \<in> set fs. verify_stamp E f"
    "s2 = s1\<lparr>n_io := k\<rparr>" by blast
  have "found_by r (f_orders s) = compare_ids (env_uuid E (n_uuid s2)) date (psp_view fs) (internal_view os) 0 []
      (order_ids (psp_view fs) (internal_view os))"
    using close_run_Inr [OF c] d' o' l'(4) by (auto simp: found_by_def)
  with c close_run_Inr [OF c] d' o' l' show ?thesis by (intro exI [of _ u]) auto
qed

text \<open>Without file faults a run returns as soon as there is a file of the day and all carry their stamp.\<close>

lemma write_atomic_no_fault: "no_faults E \<Longrightarrow>
    write_atomic E m dir base f s = (Inr (), f (s\<lparr>n_io := n_io s + 2\<rparr>))"
  by (simp add: write_atomic_def write_file_def bnd_def modify_def no_faults_def)

lemma close_run_returns:
  assumes "no_faults E" "digests32 E" "checkpointed E s hs"
  shows "\<exists>r t. close_run E run date fs found s = (Inr r, t)"
proof -
  obtain h where h: "journal_head E s = (Inr h :: error exn + bytes, s\<lparr>n_io := n_io s + 1\<rparr>)"
    using journal_head_no_fault [OF assms(1)] by blast
  have "checkpointed E (s\<lparr>n_io := n_io s + 1\<rparr>) hs" using assms(3) by (simp add: checkpointed_def store_mmr_def)
  then obtain root t where "checkpoint_mmr E (sha3_256 E (stamps fs @ h)) (s\<lparr>n_io := n_io s + 1\<rparr>) = (Inr root, t)"
    using checkpoint_mmr_total [OF assms(1)] assms(2) unfolding digests32_def by blast
  with h show ?thesis
    by (simp add: close_run_def bnd_def seqM_def Let_def write_atomic_no_fault [OF assms(1)] ret_def)
qed

lemma reconcile_returns:
  assumes "no_faults E" "digests32 E" "checkpointed E s hs" "day_files d (f_settlement s) \<noteq> []"
    "\<forall>f \<in> set (day_files d (f_settlement s)). verify_stamp E f"
  shows "\<exists>r t. reconcile E (Some d) s = (Inr r, t)"
proof -
  obtain k where l: "load_all E d s = (Inr (day_files d (f_settlement s)), s\<lparr>n_io := k\<rparr>)"
    using load_all_returns [OF assms(1,4,5)] by blast
  let ?u = "s\<lparr>n_uuid := n_uuid s + 1, n_io := k + 1\<rparr>"
  have "checkpointed E ?u hs" using assms(3) by (simp add: checkpointed_def store_mmr_def)
  from close_run_returns [OF assms(1,2) this] l assms(1) show ?thesis
    by (simp add: reconcile_def bnd_def orders_def read_jsonl_def gets_def ret_def no_faults_def Let_def)
qed

section \<open>Listing runs\<close>

lemma insert_run_set: "set (insert_run r rs) = insert r (set rs)"
  by (induction r rs rule: insert_run.induct) auto

lemma newer_trans: "\<not> newer b a \<Longrightarrow> \<not> newer c b \<Longrightarrow> \<not> newer c a"
  by (auto simp: newer_def)

lemma insert_run_sorted:
  "sorted_wrt (\<lambda>a b. \<not> newer b a) rs \<Longrightarrow> sorted_wrt (\<lambda>a b. \<not> newer b a) (insert_run r rs)"
proof (induction r rs rule: insert_run.induct)
  case (2 r x xs)
  show ?case
  proof (cases "newer x r")
    case True
    then have "\<not> newer r x" by (auto simp: newer_def)
    with 2 True show ?thesis by (simp add: insert_run_set)
  next
    case False
    have "\<not> newer y r" if "y \<in> set xs" for y
      using 2(2) that False newer_trans [of x r y] by simp
    with 2 False show ?thesis by simp
  qed
qed simp

lemma runs_newest_first: "sorted_wrt (\<lambda>a b. \<not> newer b a) (foldr insert_run rs []) \<and> set (foldr insert_run rs []) = set rs"
  by (induction rs) (simp_all add: insert_run_sorted insert_run_set)

section \<open>Properties\<close>

text \<open>
  C13: A reconciliation reports exactly what differs. A run that returns has compared every
  order that the provider's files of the day name or the store has as settled: the ones
  whose amounts agree are counted, every other one is listed once, in order, with both
  amounts and its class, and the run is \<open>CLEAN\<close> exactly when there is no such order. All
  files it used carry a valid stamp.
\<close>

theorem reconcile_exact:
  assumes "reconcile E (Some d) s = (Inr r, t)"
  shows "let fs = rr_psp_files r; p = psp_amount fs; j = settled_amount (f_orders s);
      named = {i. p i \<noteq> None \<or> j i \<noteq> None} in
    fs = day_files d (f_settlement s) \<and> (\<forall>f \<in> set fs. verify_stamp E f) \<and>
    rr_matches r = card {i \<in> named. agree (p i) (j i)} \<and>
    (\<exists>ids. sorted_wrt (<) ids \<and> set ids = {i \<in> named. \<not> agree (p i) (j i)} \<and>
      rr_mismatches r = map (\<lambda>i. mismatch_of (rr_id r) d (p i) (j i) i) ids) \<and>
    (rr_status r = RClean \<longleftrightarrow> (\<forall>i \<in> named. agree (p i) (j i)))"
proof -
  from reconcile_Inr [OF assms] obtain u where
    c: "close_run E (rr_id r) (rr_date r) (rr_psp_files r) (found_by r (f_orders s)) u = (Inr r, t)"
    and fs: "rr_psp_files r = day_files d (f_settlement s)" "\<forall>f \<in> set (rr_psp_files r). verify_stamp E f" "rr_date r = d"
    by auto
  let ?p = "psp_amount (rr_psp_files r)" and ?j = "settled_amount (f_orders s)"
  let ?ids = "order_ids (psp_view (rr_psp_files r)) (internal_view (f_orders s))"
  note ids = order_ids_spec [of "rr_psp_files r" "f_orders s"]
  have found: "(rr_matches r, rr_mismatches r) = (length (filter (\<lambda>i. agree (?p i) (?j i)) ?ids),
      map (\<lambda>i. mismatch_of (rr_id r) d (?p i) (?j i) i) (filter (\<lambda>i. \<not> agree (?p i) (?j i)) ?ids))"
    using close_run_Inr [OF c] fs(3) by (simp add: found_by_def compare_ids_spec psp_view_spec internal_view_spec)
  have st: "rr_status r = (if rr_mismatches r = [] then RClean else RMismatches)"
    using close_run_Inr [OF c] by blast
  have "distinct ?ids" using ids by (simp add: strict_sorted_iff)
  then have "rr_matches r = card {i. (?p i \<noteq> None \<or> ?j i \<noteq> None) \<and> agree (?p i) (?j i)}"
    using found ids distinct_card [of "filter (\<lambda>i. agree (?p i) (?j i)) ?ids"] by simp
  moreover have "sorted_wrt (<) (filter (\<lambda>i. \<not> agree (?p i) (?j i)) ?ids)"
    using ids by (blast intro: sorted_wrt_filter)
  moreover have "rr_status r = RClean \<longleftrightarrow> (\<forall>i. ?p i \<noteq> None \<or> ?j i \<noteq> None \<longrightarrow> agree (?p i) (?j i))"
    using found st ids by (auto simp: filter_empty_conv)
  ultimately show ?thesis
    using found ids fs unfolding Let_def by (intro conjI exI [of _ "filter (\<lambda>i. \<not> agree (?p i) (?j i)) ?ids"]) auto
qed

text \<open>A store with one settled order and a provider's file that names it with a different amount.\<close>

definition example_file :: settlement_file where
  "example_file = (let f = \<lparr>sf_rail = ''card'', sf_date = ''d'', sf_currency = [], sf_rows = [\<lparr>sr_order = ''o1'', sr_amount = ''7.00''\<rparr>],
     sf_content_hash = []\<rparr> in f\<lparr>sf_content_hash := compute_hash example_env f\<rparr>)"

definition example_books :: books where
  "example_books = world.extend (empty_world\<lparr>f_orders := [example_order\<lparr>po_status := Success\<rparr>]\<rparr>)
     (books.fields [(''d.json'', example_file)] [])"

lemma example_stamp: "verify_stamp example_env example_file"
  by (simp add: example_file_def verify_stamp_def compute_hash_def settlement_body_def Let_def)

lemma example_day: "day_files ''d'' (f_settlement example_books) = [example_file]"
  by (simp add: day_files_def example_books_def world.defs books.defs is_extra_def)

lemma example_books_checkpointed: "checkpointed example_env example_books []"
  by (rule checkpointed_empty [OF _ example_env_digests]) (simp add: example_books_def world.defs empty_world_def)

lemma example_run: "\<exists>r t. reconcile example_env (Some ''d'') example_books = (Inr r, t)"
  by (rule reconcile_returns [OF example_env_no_faults example_env_digests example_books_checkpointed])
    (simp_all add: example_day example_stamp)

theorem reconcile_exact_witness:
  "\<exists>r t. reconcile example_env (Some ''d'') example_books = (Inr r, t) \<and> rr_psp_files r = [example_file] \<and> rr_status r \<noteq> RClean"
proof -
  obtain r t where run: "reconcile example_env (Some ''d'') example_books = (Inr r, t)" using example_run by blast
  note ex = reconcile_exact [OF run, unfolded Let_def]
  have fs: "rr_psp_files r = [example_file]" using ex example_day by simp
  have p: "psp_amount [example_file] ''o1'' = Some ''7.00''"
    by (simp add: psp_amount_def example_file_def find_last_def Let_def)
  have j: "settled_amount (f_orders example_books) ''o1'' = Some ''5.00''"
    by (simp add: settled_amount_def example_books_def world.defs example_order_def find_last_def)
  have "parse_amount ''7.00'' = Inr 700" "parse_amount ''5.00'' = Inr 500" by code_simp+
  then have "\<not> agree (Some ''7.00'') (Some ''5.00'')" by (simp add: agree_def amount_eq_def)
  with ex p j fs have "rr_status r \<noteq> RClean" by force
  with run fs show ?thesis by blast
qed



end
