(* ===== verification/Wire_Bytes.thy ===== *)
theory Wire_Bytes
  imports RustText
begin

text \<open>
  Vocabulary of the channel and network theories: integers read back from their
  bytes, 64-bit subtraction, an operation on one field of a structure (\<open>within\<close>),
  and loops that overwrite a vector in place.
\<close>

section \<open>Integers from bytes\<close>

text \<open>\<open>from_be_bytes\<close> and \<open>from_le_bytes\<close>.\<close>

fun of_le_bytes :: "bytes \<Rightarrow> nat" where
  "of_le_bytes [] = 0"
| "of_le_bytes (b # bs) = unat b + 256 * of_le_bytes bs"

definition of_be_bytes :: "bytes \<Rightarrow> nat" where
  "of_be_bytes bs = of_le_bytes (rev bs)"

lemma of_le_bytes_le_bytes: "n < 256 ^ k \<Longrightarrow> of_le_bytes (le_bytes k n) = n"
proof (induction k arbitrary: n)
  case (Suc k)
  then have "n div 256 < 256 ^ k" by (simp add: less_mult_imp_div_less mult.commute)
  with Suc.IH show ?case by (simp add: unat_of_nat mod_div_mult_eq take_bit_eq_mod)
qed simp

lemma of_be_bytes_be_bytes: "n < 256 ^ k \<Longrightarrow> of_be_bytes (be_bytes k n) = n"
  by (simp add: of_be_bytes_def be_bytes_def of_le_bytes_le_bytes)

lemma of_le_bytes_less: "of_le_bytes bs < 256 ^ length bs"
proof (induction bs)
  case (Cons b bs)
  have "unat b < 2 ^ LENGTH(8)" by (rule unsigned_less)
  with Cons show ?case by simp
qed simp

lemma of_be_bytes_less: "of_be_bytes bs < 256 ^ length bs"
  using of_le_bytes_less [of "rev bs"] by (simp add: of_be_bytes_def)

section \<open>Arithmetic\<close>

text \<open>Release builds wrap. \<open>saturating_sub\<close> is subtraction on \<open>nat\<close>.\<close>

definition u64_sub :: "nat \<Rightarrow> nat \<Rightarrow> nat" where
  "u64_sub a b = (a + 2 ^ 64 - b) mod 2 ^ 64"

definition u64_add :: "nat \<Rightarrow> nat \<Rightarrow> nat" where
  "u64_add a b = (a + b) mod 2 ^ 64"

lemma u64_sub_id:
  assumes "b \<le> a" "a < 2 ^ 64"
  shows "u64_sub a b = a - b"
proof -
  have "a + 2 ^ 64 - b = (a - b) + 2 ^ 64" using assms(1) by simp
  moreover have "a - b < 2 ^ 64" using assms(2) by (rule less_imp_diff_less)
  ultimately show ?thesis by (simp only: u64_sub_def mod_add_self2 mod_less)
qed

lemma u64_add_id: "a + b < 2 ^ 64 \<Longrightarrow> u64_add a b = a + b"
  by (simp add: u64_add_def)

section \<open>An operation on one field\<close>

text \<open>\<open>self.field.op(..)\<close>: the operation sees the field and the rest of the structure stays.\<close>

definition within :: "('s \<Rightarrow> 'f) \<Rightarrow> ('f \<Rightarrow> 's \<Rightarrow> 's) \<Rightarrow> ('f, 'e, 'a) se \<Rightarrow> ('s, 'e, 'a) se" where
  "within get put m = (\<lambda>s. case m (get s) of (r, f) \<Rightarrow> (r, put f s))"

lemma within_eq: "within get put m s = (r, t) \<longleftrightarrow> (\<exists>f. m (get s) = (r, f) \<and> t = put f s)"
  by (auto simp: within_def split: prod.splits)

section \<open>Loops that overwrite a vector\<close>

definition sweep :: "(nat \<Rightarrow> 'a list \<Rightarrow> 'a) \<Rightarrow> 'a list \<Rightarrow> 'a list" where
  "sweep f xs = fold (\<lambda>i ys. ys[i := f i ys]) [0..<length xs] xs"

text \<open>A loop whose step \<open>i\<close> reads only what is not overwritten yet computes from the old vector.\<close>

lemma sweep_prefix:
  assumes "\<And>i ys zs. i < length ys \<Longrightarrow> length ys = length zs \<Longrightarrow> (\<forall>j. i \<le> j \<longrightarrow> j < length ys \<longrightarrow> ys ! j = zs ! j) \<Longrightarrow> f i ys = f i zs"
    and "n \<le> length xs"
  shows "fold (\<lambda>i ys. ys[i := f i ys]) [0..<n] xs = map (\<lambda>i. f i xs) [0..<n] @ drop n xs"
  using assms(2)
proof (induction n)
  case (Suc n)
  let ?ys = "map (\<lambda>i. f i xs) [0..<n] @ drop n xs"
  have "f n ?ys = f n xs" using Suc.prems by (intro assms(1)) (auto simp: nth_append)
  moreover have "drop n xs = xs ! n # drop (Suc n) xs" using Suc.prems by (simp add: Cons_nth_drop_Suc)
  ultimately show ?case using Suc by (simp add: list_update_append)
qed simp

lemma sweep_eq:
  assumes "\<And>i ys zs. i < length ys \<Longrightarrow> length ys = length zs \<Longrightarrow> (\<forall>j. i \<le> j \<longrightarrow> j < length ys \<longrightarrow> ys ! j = zs ! j) \<Longrightarrow> f i ys = f i zs"
  shows "sweep f xs = map (\<lambda>i. f i xs) [0..<length xs]"
proof -
  have "fold (\<lambda>i ys. ys[i := f i ys]) [0..<length xs] xs = map (\<lambda>i. f i xs) [0..<length xs] @ drop (length xs) xs"
    by (rule sweep_prefix) (erule (2) assms, rule order_refl)
  then show ?thesis by (simp only: sweep_def drop_all order_refl append_Nil2)
qed

section \<open>Chunks of one size\<close>

text \<open>\<open>chunks_exact(n)\<close>: the rest that does not fill a chunk is left out.\<close>

function chunks_exact :: "nat \<Rightarrow> 'a list \<Rightarrow> 'a list list" where
  "chunks_exact n xs = (if n = 0 \<or> length xs < n then [] else take n xs # chunks_exact n (drop n xs))"
  by auto
termination
  by (relation "measure (\<lambda>(n, xs). length xs)") auto

declare chunks_exact.simps [simp del]

lemma chunks_exact_Nil [simp]: "chunks_exact n [] = []"
  by (subst chunks_exact.simps) auto

lemma chunks_exact_concat: "0 < n \<Longrightarrow> (\<And>x. x \<in> set xs \<Longrightarrow> length x = n) \<Longrightarrow> chunks_exact n (concat xs) = xs"
proof (induction xs)
  case (Cons x xs)
  then have "length x = n" "chunks_exact n (concat xs) = xs" by simp_all
  with Cons.prems(1) show ?case by (simp add: chunks_exact.simps [of n "x @ concat xs"])
qed simp

lemma length_concat_aligned: "(\<And>x. x \<in> set xs \<Longrightarrow> length x = n) \<Longrightarrow> length (concat xs) mod n = 0"
  by (induction xs) auto

end
