(* ===== verification/Channel_Wire.thy ===== *)
theory Channel_Wire
  imports Wire_Bytes
begin

text \<open>
  The wire format of \<open>origin-channel\<close>: its errors (\<open>error.rs\<close>), cipher suites
  (\<open>types.rs\<close>), length-prefixed frames (\<open>codec.rs\<close>), data and handshake messages
  (\<open>message.rs\<close>) and the offer of cipher suites (\<open>negotiation.rs\<close>).
  The lemmas show that every encoder is inverted by its decoder, also when more
  bytes follow or the frame is still incomplete.
\<close>

section \<open>Errors and suites\<close>

datatype channel_error =
    ChHandshake string | ChInvalidMessage string | ChDecryption string | ChReplay nat
  | ChNegotiation string | ChCodec string | ChNoSession | ChKey string
  | ChUsageLimitExceeded string | ChIo string | ChOther string

fun channel_error_str :: "channel_error \<Rightarrow> string" where
  "channel_error_str (ChHandshake m) = ''handshake failed: '' @ m"
| "channel_error_str (ChInvalidMessage m) = ''invalid message: '' @ m"
| "channel_error_str (ChDecryption m) = ''decryption failed: '' @ m"
| "channel_error_str (ChReplay q) = ''replay detected: seq '' @ dec q"
| "channel_error_str (ChNegotiation m) = ''negotiation failed: '' @ m"
| "channel_error_str (ChCodec m) = ''codec error: '' @ m"
| "channel_error_str ChNoSession = ''session not established''"
| "channel_error_str (ChKey m) = ''key error: '' @ m"
| "channel_error_str (ChUsageLimitExceeded m) = ''AEAD usage limit exceeded: '' @ m"
| "channel_error_str (ChIo m) = ''io error: '' @ m"
| "channel_error_str (ChOther m) = m"

datatype cipher_suite = XChaCha20Poly1305

definition suite_as_u8 :: "cipher_suite \<Rightarrow> byte" where
  "suite_as_u8 s = (case s of XChaCha20Poly1305 \<Rightarrow> 1)"

definition suite_from_u8 :: "byte \<Rightarrow> cipher_suite option" where
  "suite_from_u8 v = (if v = 1 then Some XChaCha20Poly1305 else None)"

definition suite_nonce_len :: "cipher_suite \<Rightarrow> nat" where
  "suite_nonce_len s = 24"

definition suite_tag_len :: "cipher_suite \<Rightarrow> nat" where
  "suite_tag_len s = 16"

lemma suite_from_as [simp]: "suite_from_u8 (suite_as_u8 s) = Some s"
  by (cases s) (simp add: suite_from_u8_def suite_as_u8_def)

section \<open>Frames\<close>

definition MAX_FRAME_SIZE :: nat where
  "MAX_FRAME_SIZE = 16 * 1024 * 1024"

definition LENGTH_PREFIX_SIZE :: nat where
  "LENGTH_PREFIX_SIZE = 4"

definition encode_frame :: "bytes \<Rightarrow> channel_error + bytes" where
  "encode_frame payload =
     (if length payload > MAX_FRAME_SIZE
      then Inl (ChCodec (''payload too large: '' @ dec (length payload) @ '' bytes (max '' @ dec MAX_FRAME_SIZE @ '')''))
      else Inr (be_bytes 4 (length payload) @ payload))"

definition decode_frame :: "bytes \<Rightarrow> channel_error + (bytes \<times> nat) option" where
  "decode_frame buf =
     (if length buf < LENGTH_PREFIX_SIZE then Inr None
      else let len = of_be_bytes (take 4 buf); total = LENGTH_PREFIX_SIZE + len in
        if len > MAX_FRAME_SIZE
        then Inl (ChCodec (''frame size '' @ dec len @ '' exceeds maximum '' @ dec MAX_FRAME_SIZE))
        else if length buf < total then Inr None
        else Inr (Some (drop LENGTH_PREFIX_SIZE (take total buf), total)))"

definition encode_typed :: "byte \<Rightarrow> bytes \<Rightarrow> channel_error + bytes" where
  "encode_typed msg_type payload = encode_frame (msg_type # payload)"

definition decode_typed :: "bytes \<Rightarrow> channel_error + (byte \<times> bytes \<times> nat) option" where
  "decode_typed buf = (case decode_frame buf of
       Inl e \<Rightarrow> Inl e
     | Inr None \<Rightarrow> Inr None
     | Inr (Some (inner, consumed)) \<Rightarrow>
         (case inner of [] \<Rightarrow> Inl (ChCodec ''empty frame body'')
          | tag # payload \<Rightarrow> Inr (Some (tag, payload, consumed))))"

lemma encode_frame_Inr:
  "encode_frame p = Inr f \<longleftrightarrow> length p \<le> MAX_FRAME_SIZE \<and> f = be_bytes 4 (length p) @ p"
  by (auto simp: encode_frame_def)

lemma frame_length_fits: "length p \<le> MAX_FRAME_SIZE \<Longrightarrow> of_be_bytes (be_bytes 4 (length p)) = length p"
  by (rule of_be_bytes_be_bytes) (simp add: MAX_FRAME_SIZE_def)

lemma decode_frame_prefix:
  assumes "encode_frame p = Inr f"
  shows "decode_frame (f @ rest) = Inr (Some (p, length f))"
  using assms by (simp add: encode_frame_Inr decode_frame_def LENGTH_PREFIX_SIZE_def frame_length_fits Let_def)

lemma decode_frame_partial:
  assumes "encode_frame p = Inr f" "n < length f"
  shows "decode_frame (take n f) = Inr None"
proof (cases "n < 4")
  case False
  with assms have "take 4 (take n f) = be_bytes 4 (length p)" by (simp add: encode_frame_Inr min_def)
  with assms False show ?thesis
    by (simp add: encode_frame_Inr decode_frame_def LENGTH_PREFIX_SIZE_def frame_length_fits Let_def)
qed (auto simp: decode_frame_def LENGTH_PREFIX_SIZE_def)

lemma encode_typed_length: "encode_typed t p = Inr f \<Longrightarrow> length f = 5 + length p"
  by (simp add: encode_typed_def encode_frame_Inr)

lemma decode_typed_prefix: "encode_typed t p = Inr f \<Longrightarrow> decode_typed (f @ rest) = Inr (Some (t, p, length f))"
  by (simp add: encode_typed_def decode_typed_def decode_frame_prefix)

lemma decode_typed_partial: "encode_typed t p = Inr f \<Longrightarrow> n < length f \<Longrightarrow> decode_typed (take n f) = Inr None"
  by (simp add: encode_typed_def decode_typed_def decode_frame_partial)

text \<open>A decoded frame never takes more than the buffer holds, and never more than the cap.\<close>

lemma decode_frame_bounds:
  assumes "decode_frame buf = Inr (Some (p, n))"
  shows "n \<le> length buf" "length p \<le> MAX_FRAME_SIZE" "n = 4 + length p"
  using assms by (auto simp: decode_frame_def LENGTH_PREFIX_SIZE_def Let_def split: if_splits)

section \<open>Messages\<close>

definition MSG_HANDSHAKE_1 :: byte where "MSG_HANDSHAKE_1 = 0x01"
definition MSG_HANDSHAKE_2 :: byte where "MSG_HANDSHAKE_2 = 0x02"
definition MSG_HANDSHAKE_3 :: byte where "MSG_HANDSHAKE_3 = 0x03"
definition MSG_DATA :: byte where "MSG_DATA = 0x10"
definition MSG_CLOSE :: byte where "MSG_CLOSE = 0x20"
definition MSG_PING :: byte where "MSG_PING = 0x30"
definition MSG_PONG :: byte where "MSG_PONG = 0x31"

definition HEADER_SIZE :: nat where
  "HEADER_SIZE = 33"

record channel_message =
  cm_type :: byte
  cm_seq :: nat
  cm_nonce :: bytes
  cm_ciphertext :: bytes

definition message_to_bytes :: "channel_message \<Rightarrow> bytes" where
  "message_to_bytes m = cm_type m # be_bytes 8 (cm_seq m) @ cm_nonce m @ cm_ciphertext m"

definition message_from_bytes :: "bytes \<Rightarrow> channel_error + channel_message" where
  "message_from_bytes data =
     (let min = HEADER_SIZE + suite_tag_len XChaCha20Poly1305 in
      if length data < min
      then Inl (ChInvalidMessage (''message too short: '' @ dec (length data) @ '' bytes (min '' @ dec min @ '')''))
      else Inr \<lparr>cm_type = data ! 0, cm_seq = of_be_bytes (take 8 (drop 1 data)),
                cm_nonce = take 24 (drop 9 data), cm_ciphertext = drop 33 data\<rparr>)"

definition wire_size :: "channel_message \<Rightarrow> nat" where
  "wire_size m = 4 + HEADER_SIZE + length (cm_ciphertext m)"

text \<open>The Rust types fix the width of the sequence number and of the nonce.\<close>

definition message_ok :: "channel_message \<Rightarrow> bool" where
  "message_ok m \<longleftrightarrow> cm_seq m < 2 ^ 64 \<and> length (cm_nonce m) = 24 \<and> 16 \<le> length (cm_ciphertext m)"

lemma message_from_to:
  assumes "message_ok m"
  shows "message_from_bytes (message_to_bytes m) = Inr m"
proof -
  have "of_be_bytes (be_bytes 8 (cm_seq m)) = cm_seq m"
    using assms by (intro of_be_bytes_be_bytes) (simp add: message_ok_def)
  with assms show ?thesis
    by (simp add: message_ok_def message_from_bytes_def message_to_bytes_def HEADER_SIZE_def suite_tag_len_def)
qed

lemma message_from_bytes_ok: "message_from_bytes data = Inr m \<Longrightarrow> message_ok m"
  using of_be_bytes_less [of "take 8 (drop 1 data)"]
  by (auto simp: message_from_bytes_def message_ok_def HEADER_SIZE_def suite_tag_len_def Let_def split: if_splits)

record handshake_message =
  hm_type :: byte
  hm_ephemeral_pk :: bytes
  hm_payload :: bytes

definition handshake_to_bytes :: "handshake_message \<Rightarrow> bytes" where
  "handshake_to_bytes m = hm_type m # hm_ephemeral_pk m @ hm_payload m"

definition handshake_from_bytes :: "bytes \<Rightarrow> channel_error + handshake_message" where
  "handshake_from_bytes data =
     (if length data < 33 then Inl (ChHandshake ''handshake message too short (need 33+ bytes)'')
      else Inr \<lparr>hm_type = data ! 0, hm_ephemeral_pk = take 32 (drop 1 data), hm_payload = drop 33 data\<rparr>)"

lemma handshake_from_to:
  "length (hm_ephemeral_pk m) = 32 \<Longrightarrow> handshake_from_bytes (handshake_to_bytes m) = Inr m"
  by (simp add: handshake_from_bytes_def handshake_to_bytes_def)

section \<open>Negotiation\<close>

definition NEGOTIATION_VERSION :: byte where
  "NEGOTIATION_VERSION = 1"

record negotiation =
  ng_version :: byte
  ng_suites :: "cipher_suite list"

definition negotiation_offer :: negotiation where
  "negotiation_offer = \<lparr>ng_version = NEGOTIATION_VERSION, ng_suites = [XChaCha20Poly1305]\<rparr>"

text \<open>\<open>self.suites.len() as u8\<close> keeps the low byte of the length.\<close>

definition negotiation_to_bytes :: "negotiation \<Rightarrow> bytes" where
  "negotiation_to_bytes n = ng_version n # of_nat (length (ng_suites n)) # map suite_as_u8 (ng_suites n)"

fun read_suites :: "bytes \<Rightarrow> channel_error + cipher_suite list" where
  "read_suites [] = Inr []"
| "read_suites (b # bs) = (case suite_from_u8 b of
     None \<Rightarrow> Inl (ChNegotiation (''unknown suite 0x'' @ hex_encode [b]))
   | Some s \<Rightarrow> (case read_suites bs of Inl e \<Rightarrow> Inl e | Inr ss \<Rightarrow> Inr (s # ss)))"

definition negotiation_from_bytes :: "bytes \<Rightarrow> channel_error + negotiation" where
  "negotiation_from_bytes data =
     (if length data < 2 then Inl (ChNegotiation ''too short'')
      else if data ! 0 \<noteq> NEGOTIATION_VERSION
      then Inl (ChNegotiation (''unsupported version '' @ dec (unat (data ! 0))))
      else let count = unat (data ! 1) in
        if length data < 2 + count then Inl (ChNegotiation ''truncated suite list'')
        else case read_suites (take count (drop 2 data)) of
            Inl e \<Rightarrow> Inl e
          | Inr suites \<Rightarrow> if suites = [] then Inl (ChNegotiation ''empty suite list'')
                         else Inr \<lparr>ng_version = data ! 0, ng_suites = suites\<rparr>)"

fun select_suite :: "cipher_suite list \<Rightarrow> cipher_suite list \<Rightarrow> channel_error + cipher_suite" where
  "select_suite [] supported = Inl (ChNegotiation ''no mutually supported cipher suite'')"
| "select_suite (offered # ss) supported =
     (if offered \<in> set supported then Inr offered else select_suite ss supported)"

definition negotiation_select :: "negotiation \<Rightarrow> cipher_suite list \<Rightarrow> channel_error + cipher_suite" where
  "negotiation_select n supported = select_suite (ng_suites n) supported"

lemma read_suites_map: "read_suites (map suite_as_u8 ss) = Inr ss"
  by (induction ss) auto

lemma negotiation_from_to:
  assumes "ng_version n = NEGOTIATION_VERSION" "ng_suites n \<noteq> []" "length (ng_suites n) < 256"
  shows "negotiation_from_bytes (negotiation_to_bytes n) = Inr n"
proof -
  have "unat (of_nat (length (ng_suites n)) :: byte) = length (ng_suites n)"
    using assms(3) by (simp add: unat_of_nat take_bit_eq_mod)
  with assms(1,2) show ?thesis
    by (simp add: negotiation_from_bytes_def negotiation_to_bytes_def read_suites_map Let_def)
qed

lemma select_suite_spec:
  "select_suite offered supported = (case List.find (\<lambda>s. s \<in> set supported) offered of
     None \<Rightarrow> Inl (ChNegotiation ''no mutually supported cipher suite'') | Some s \<Rightarrow> Inr s)"
  by (induction offered) auto

end
