(* ===== verification/Channel_Window.thy ===== *)
theory Channel_Window
  imports Channel_Wire
begin

text \<open>
  Replay protection and nonces of \<open>origin-channel\<close> (\<open>replay.rs\<close>, \<open>nonce_tracker.rs\<close>).
  The replay window keeps a bitmap of the sequence numbers at and above a moving
  floor. It is shown to be equivalent to a plain set of accepted numbers, whatever
  the window size and the order of arrival. The locale \<open>replay_filter\<close> states what a
  replay filter promises its clients; the window and the handshake tracker of
  \<open>origin-network\<close> both implement it.
\<close>

unbundle bit_operations_syntax

section \<open>Replay filters\<close>

text \<open>
  \<open>check f s\<close> says whether \<open>f\<close> is fresh and records it; \<open>key f\<close> is what is recorded of \<open>f\<close>
  (nothing for an item that is not tracked). \<open>holds s ks\<close> relates a state to the keys
  accepted so far, latest first, and \<open>keep ks\<close> are the keys still remembered.
\<close>

fun feed :: "('f \<Rightarrow> 's \<Rightarrow> bool \<times> 's) \<Rightarrow> 's \<Rightarrow> 'f list \<Rightarrow> bool list \<times> 's" where
  "feed check s [] = ([], s)"
| "feed check s (f # fs) = (case check f s of (b, t) \<Rightarrow> case feed check t fs of (bs, u) \<Rightarrow> (b # bs, u))"

definition accepted_keys :: "('f \<Rightarrow> 'k option) \<Rightarrow> 'f list \<Rightarrow> bool list \<Rightarrow> 'k list" where
  "accepted_keys key fs bs = rev (List.map_filter (\<lambda>(f, b). if b then key f else None) (zip fs bs))"

definition never_while_kept :: "('k list \<Rightarrow> 'k list) \<Rightarrow> 'k list \<Rightarrow> bool" where
  "never_while_kept keep ks \<longleftrightarrow> (\<forall>xs k ys. ks = xs @ k # ys \<longrightarrow> k \<notin> set (keep ys))"

lemma never_while_kept_Cons:
  "never_while_kept keep (k # ks) \<longleftrightarrow> k \<notin> set (keep ks) \<and> never_while_kept keep ks"
  by (auto simp: never_while_kept_def Cons_eq_append_conv)

lemma never_while_kept_id: "never_while_kept (\<lambda>ks. ks) ks \<longleftrightarrow> distinct ks"
  by (induction ks) (auto simp: never_while_kept_Cons, simp add: never_while_kept_def)

locale replay_filter =
  fixes check :: "'f \<Rightarrow> 's \<Rightarrow> bool \<times> 's"
    and key :: "'f \<Rightarrow> 'k option"
    and keep :: "'k list \<Rightarrow> 'k list"
    and holds :: "'s \<Rightarrow> 'k list \<Rightarrow> bool"
  assumes untracked: "holds s ks \<Longrightarrow> key f = None \<Longrightarrow> check f s = (b, t) \<Longrightarrow> holds t ks"
    and fresh_only: "holds s ks \<Longrightarrow> key f = Some k \<Longrightarrow> check f s = (True, t) \<Longrightarrow>
          k \<notin> set (keep ks) \<and> holds t (k # ks)"
    and refused: "holds s ks \<Longrightarrow> key f = Some k \<Longrightarrow> check f s = (False, t) \<Longrightarrow> holds t ks"
begin

lemma feed_holds:
  "holds s ks \<Longrightarrow> never_while_kept keep ks \<Longrightarrow> feed check s fs = (bs, t) \<Longrightarrow>
   holds t (accepted_keys key fs bs @ ks) \<and> never_while_kept keep (accepted_keys key fs bs @ ks)"
proof (induction fs arbitrary: s ks bs)
  case (Cons f fs)
  obtain b u where step: "check f s = (b, u)" by (cases "check f s")
  then obtain bs' where rest: "feed check u fs = (bs', t)" "bs = b # bs'"
    using Cons.prems(3) by (auto split: prod.splits)
  show ?case
  proof (cases "if b then key f else None")
    case None
    have "holds u ks"
    proof (cases "key f")
      case None
      then show ?thesis by (rule untracked [OF Cons.prems(1) _ step])
    next
      case (Some k)
      with None step have "check f s = (False, u)" by (auto split: if_splits)
      then show ?thesis by (rule refused [OF Cons.prems(1) Some])
    qed
    with Cons.IH [OF _ Cons.prems(2) rest(1)] None rest(2) show ?thesis
      by (simp add: accepted_keys_def map_filter_simps)
  next
    case (Some k)
    then have "key f = Some k" "b" by (auto split: if_splits)
    with step have "check f s = (True, u)" by simp
    from fresh_only [OF Cons.prems(1) \<open>key f = Some k\<close> this]
    have "k \<notin> set (keep ks)" "holds u (k # ks)" by auto
    with Cons.IH [OF _ _ rest(1), of "k # ks"] Cons.prems(2) Some rest(2) show ?thesis
      by (simp add: accepted_keys_def map_filter_simps never_while_kept_Cons)
  qed
qed (simp add: accepted_keys_def map_filter_simps)

lemma accepted_once:
  assumes "holds s []" and "feed check s fs = (bs, t)"
  shows "never_while_kept keep (accepted_keys key fs bs)"
  using feed_holds [OF assms(1) _ assms(2)] by (simp add: never_while_kept_def)

end

section \<open>The replay window\<close>

definition DEFAULT_WINDOW_SIZE :: nat where
  "DEFAULT_WINDOW_SIZE = 1024"

record replay_window =
  rw_highest :: nat
  rw_bitmap :: "64 word list"
  rw_size :: nat
  rw_initialized :: bool

definition window_new :: "nat \<Rightarrow> replay_window" where
  "window_new window_size = \<lparr>rw_highest = 0, rw_bitmap = replicate ((window_size + 63) div 64) 0,
     rw_size = window_size, rw_initialized = False\<rparr>"

definition bm_get :: "64 word list \<Rightarrow> nat \<Rightarrow> bool" where
  "bm_get bitmap offset =
     (let wd = offset div 64; b = offset mod 64 in
      if wd \<ge> length bitmap then False else drop_bit b (bitmap ! wd) AND 1 = 1)"

definition bm_set :: "64 word list \<Rightarrow> nat \<Rightarrow> 64 word list" where
  "bm_set bitmap offset =
     (let wd = offset div 64; b = offset mod 64 in
      if wd < length bitmap then bitmap[wd := bitmap ! wd OR push_bit b 1] else bitmap)"

definition window_advance :: "nat \<Rightarrow> nat \<Rightarrow> 64 word list \<Rightarrow> 64 word list" where
  "window_advance window_size shift bitmap =
     (if shift \<ge> window_size then map (\<lambda>w. 0) bitmap
      else let word_shift = shift div 64; bit_shift = shift mod 64;
             moved = (if word_shift > 0
               then sweep (\<lambda>i bm. if i + word_shift < length bm then bm ! (i + word_shift) else 0) bitmap
               else bitmap)
        in if bit_shift > 0
           then sweep (\<lambda>i bm. if i + 1 < length bm
                  then drop_bit bit_shift (bm ! i) OR push_bit (64 - bit_shift) (bm ! (i + 1))
                  else drop_bit bit_shift (bm ! i)) moved
           else moved)"

definition window_floor :: "replay_window \<Rightarrow> nat" where
  "window_floor w = rw_highest w - u64_sub (rw_size w) 1"

definition window_accept :: "nat \<Rightarrow> (replay_window, channel_error, unit) se" where
  "window_accept seq w =
     (if \<not> rw_initialized w then
        let w1 = w\<lparr>rw_highest := seq, rw_initialized := True\<rparr> in
        (Inr (), w1\<lparr>rw_bitmap := bm_set (rw_bitmap w1) (seq - window_floor w1)\<rparr>)
      else if seq < window_floor w then (Inl (ChReplay seq), w)
      else let w1 = (if seq > rw_highest w then
                let floor_shift = (seq - u64_sub (rw_size w) 1) - window_floor w in
                w\<lparr>rw_highest := seq,
                  rw_bitmap := if floor_shift > 0 then window_advance (rw_size w) floor_shift (rw_bitmap w)
                               else rw_bitmap w\<rparr>
              else w);
            offset = seq - window_floor w1 in
        if offset \<ge> rw_size w1 then (Inl (ChReplay seq), w1)
        else if bm_get (rw_bitmap w1) offset then (Inl (ChReplay seq), w1)
        else (Inr (), w1\<lparr>rw_bitmap := bm_set (rw_bitmap w1) offset\<rparr>))"

section \<open>Nonces\<close>

record nonce_tracker =
  nt_next :: nat
  nt_label :: string

definition nonce_tracker_new :: "string \<Rightarrow> nonce_tracker" where
  "nonce_tracker_new label = \<lparr>nt_next = 0, nt_label = label\<rparr>"

definition counter_to_nonce :: "nat \<Rightarrow> bytes" where
  "counter_to_nonce counter = le_bytes 8 counter @ replicate 16 0"

definition next_nonce :: "(nonce_tracker, channel_error, bytes) se" where
  "next_nonce t =
     (if nt_next t = u64_max
      then (Inl (ChOther (nt_label t @ '' nonce counter exhausted (2^64 messages)'')), t)
      else (Inr (counter_to_nonce (nt_next t)), t\<lparr>nt_next := nt_next t + 1\<rparr>))"

section \<open>The bitmap\<close>

lemma bm_get_iff: "bm_get bm i \<longleftrightarrow> i div 64 < length bm \<and> bit (bm ! (i div 64)) (i mod 64)"
  by (simp add: bm_get_def Let_def and_one_eq bit_iff_odd_drop_bit odd_iff_mod_2_eq_one not_le)

lemma bm_get_zero [simp]: "\<not> bm_get (map (\<lambda>w. 0) bm) i" "\<not> bm_get (replicate n 0) i"
  by (simp_all add: bm_get_iff)

lemma length_bm_set [simp]: "length (bm_set bm i) = length bm"
  by (simp add: bm_set_def Let_def)

lemma bm_get_set:
  assumes "i < 64 * length bm"
  shows "bm_get (bm_set bm i) j \<longleftrightarrow> j = i \<or> bm_get bm j"
proof -
  have "i div 64 < length bm" using assms by (simp add: less_mult_imp_div_less mult.commute)
  moreover have "j = i \<longleftrightarrow> j div 64 = i div 64 \<and> j mod 64 = i mod 64" by (metis div_mult_mod_eq)
  moreover have "j mod 64 < 64" by simp
  ultimately show ?thesis
    by (auto simp: bm_get_iff bm_set_def Let_def bit_or_iff bit_exp_iff nth_list_update split: if_splits)
qed

definition shift_words :: "nat \<Rightarrow> 64 word list \<Rightarrow> 64 word list" where
  "shift_words k bm = sweep (\<lambda>i bm. if i + k < length bm then bm ! (i + k) else 0) bm"

definition shift_bits :: "nat \<Rightarrow> 64 word list \<Rightarrow> 64 word list" where
  "shift_bits k bm = sweep (\<lambda>i bm. if i + 1 < length bm
     then drop_bit k (bm ! i) OR push_bit (64 - k) (bm ! (i + 1)) else drop_bit k (bm ! i)) bm"

lemma shift_words_eq: "shift_words k bm = map (\<lambda>i. if i + k < length bm then bm ! (i + k) else 0) [0..<length bm]"
  unfolding shift_words_def by (rule sweep_eq) auto

lemma shift_bits_eq: "shift_bits k bm = map (\<lambda>i. if i + 1 < length bm
     then drop_bit k (bm ! i) OR push_bit (64 - k) (bm ! (i + 1)) else drop_bit k (bm ! i)) [0..<length bm]"
  unfolding shift_bits_def by (rule sweep_eq) auto

lemma get_shift_words: "bm_get (shift_words k bm) i \<longleftrightarrow> bm_get bm (i + 64 * k)"
  by (auto simp: bm_get_iff shift_words_eq add.commute split: if_splits)

lemma bm_get_at: "r < 64 \<Longrightarrow> bm_get bm (64 * q + r) \<longleftrightarrow> q < length bm \<and> bit (bm ! q) r"
  by (simp add: bm_get_iff)

lemma get_shift_bits:
  assumes "k < 64"
  shows "bm_get (shift_bits k bm) i \<longleftrightarrow> bm_get bm (i + k)"
proof -
  obtain q r where i: "i = 64 * q + r" "r < 64" by (metis mod_less_divisor mult_div_mod_eq zero_less_numeral)
  have "bm_get (shift_bits k bm) i \<longleftrightarrow> q < length bm \<and>
      (bit (bm ! q) (k + r) \<or> Suc q < length bm \<and> 64 - k \<le> r \<and> bit (bm ! Suc q) (r - (64 - k)))"
    unfolding i(1) bm_get_at [OF i(2)] using i(2)
    by (auto simp: shift_bits_eq bit_or_iff bit_drop_bit_eq bit_push_bit_iff split: if_splits)
  also have "\<dots> \<longleftrightarrow> bm_get bm (i + k)"
  proof (cases "k + r < 64")
    case True
    with i have "i + k = 64 * q + (k + r)" "\<not> 64 - k \<le> r" by auto
    with True show ?thesis by (simp only: bm_get_at) blast
  next
    case False
    then have "\<not> bit (bm ! q) (k + r)" using bit_imp_le_length [of "bm ! q" "k + r"] by auto
    moreover have "i + k = 64 * Suc q + (r - (64 - k))" "r - (64 - k) < 64" "64 - k \<le> r" using i False assms by auto
    ultimately show ?thesis by (simp only: bm_get_at) auto
  qed
  finally show ?thesis .
qed

lemma length_shift [simp]: "length (shift_words k bm) = length bm" "length (shift_bits k bm) = length bm"
  by (simp_all add: shift_words_eq shift_bits_eq)

lemma shift_0 [simp]: "shift_words 0 bm = bm"
  by (rule nth_equalityI) (simp_all add: shift_words_eq)

lemma window_advance_eq:
  "window_advance n k bm = (if k \<ge> n then map (\<lambda>w. 0) bm
     else if k mod 64 > 0 then shift_bits (k mod 64) (shift_words (k div 64) bm) else shift_words (k div 64) bm)"
  unfolding window_advance_def Let_def shift_words_def [symmetric] shift_bits_def [symmetric] by simp

lemma length_window_advance [simp]: "length (window_advance n k bm) = length bm"
  by (simp add: window_advance_eq)

lemma get_window_advance: "k < n \<Longrightarrow> bm_get (window_advance n k bm) i \<longleftrightarrow> bm_get bm (i + k)"
proof -
  assume "k < n"
  have "i + k mod 64 + 64 * (k div 64) = i + k" by simp
  with \<open>k < n\<close> show ?thesis by (auto simp: window_advance_eq get_shift_bits get_shift_words add.assoc)
qed


section \<open>The window against a set\<close>

definition fresh_seq :: "nat \<Rightarrow> nat set \<Rightarrow> nat \<Rightarrow> bool" where
  "fresh_seq n S seq \<longleftrightarrow> seq \<notin> S \<and> (\<forall>h \<in> S. h < seq + n)"

definition window_rel :: "replay_window \<Rightarrow> nat set \<Rightarrow> bool" where
  "window_rel w S \<longleftrightarrow> 0 < rw_size w \<and> rw_size w < 2 ^ 64 \<and> rw_size w \<le> 64 * length (rw_bitmap w)
     \<and> finite S \<and> (rw_initialized w \<longleftrightarrow> S \<noteq> {}) \<and> (S \<noteq> {} \<longrightarrow> rw_highest w = Max S)
     \<and> (\<forall>i. bm_get (rw_bitmap w) i \<longleftrightarrow> window_floor w + i \<in> S)"

lemma window_new_rel: "0 < n \<Longrightarrow> n < 2 ^ 64 \<Longrightarrow> window_rel (window_new n) {}"
  by (simp add: window_rel_def window_new_def)

lemma floor_eq: "0 < rw_size w \<Longrightarrow> rw_size w < 2 ^ 64 \<Longrightarrow> window_floor w = rw_highest w - (rw_size w - 1)"
  unfolding window_floor_def by (subst u64_sub_id) auto

lemma accept_first:
  assumes "window_rel w {}"
  shows "\<exists>w'. window_accept seq w = (Inr (), w') \<and> window_rel w' {seq} \<and> rw_size w' = rw_size w"
proof -
  let ?w = "w\<lparr>rw_highest := seq, rw_initialized := True\<rparr>"
  have n: "0 < rw_size w" "rw_size w < 2 ^ 64" "rw_size w \<le> 64 * length (rw_bitmap w)" "\<not> rw_initialized w"
    "\<And>i. \<not> bm_get (rw_bitmap w) i" using assms by (auto simp: window_rel_def)
  have f: "window_floor ?w = seq - (rw_size w - 1)" using floor_eq [of ?w] n by simp
  then have "seq - window_floor ?w < 64 * length (rw_bitmap w)" using n by linarith
  note g = bm_get_set [OF this]
  let ?v = "?w\<lparr>rw_bitmap := bm_set (rw_bitmap w) (seq - window_floor ?w)\<rparr>"
  have "window_floor ?v = window_floor ?w" by (simp add: window_floor_def)
  with g n f have "window_rel ?v {seq}" by (auto simp: window_rel_def)
  moreover have "window_accept seq w = (Inr (), ?v)" using n by (simp add: window_accept_def Let_def)
  ultimately show ?thesis by (intro exI [of _ ?v]) simp
qed

text \<open>The window after it has moved up to a new highest number.\<close>

definition moved_up :: "nat \<Rightarrow> replay_window \<Rightarrow> replay_window" where
  "moved_up seq w = (let floor_shift = (seq - u64_sub (rw_size w) 1) - window_floor w in
     w\<lparr>rw_highest := seq,
       rw_bitmap := if floor_shift > 0 then window_advance (rw_size w) floor_shift (rw_bitmap w) else rw_bitmap w\<rparr>)"

lemma accept_moved_up:
  assumes "rw_initialized w" "rw_highest w < seq"
  shows "window_accept seq w = (let w1 = moved_up seq w; offset = seq - window_floor w1 in
     if offset \<ge> rw_size w1 then (Inl (ChReplay seq), w1)
     else if bm_get (rw_bitmap w1) offset then (Inl (ChReplay seq), w1)
     else (Inr (), w1\<lparr>rw_bitmap := bm_set (rw_bitmap w1) offset\<rparr>))"
proof -
  have "\<not> seq < window_floor w" using assms(2) by (simp add: window_floor_def)
  with assms show ?thesis by (simp only: window_accept_def moved_up_def not_True_eq_False if_True if_False Let_def)
qed

lemma moved_up_rel:
  assumes "window_rel w S" "S \<noteq> {}" "rw_highest w < seq"
  shows "bm_get (rw_bitmap (moved_up seq w)) i \<longleftrightarrow> window_floor (moved_up seq w) + i \<in> S"
    and "window_floor (moved_up seq w) = seq - (rw_size w - 1)"
    and "length (rw_bitmap (moved_up seq w)) = length (rw_bitmap w)"
proof -
  have n: "0 < rw_size w" "rw_size w < 2 ^ 64" and g: "\<And>i. bm_get (rw_bitmap w) i \<longleftrightarrow> window_floor w + i \<in> S"
    and S: "\<And>h. h \<in> S \<Longrightarrow> h \<le> rw_highest w" using assms by (auto simp: window_rel_def)
  have f: "window_floor w = rw_highest w - (rw_size w - 1)" by (rule floor_eq [OF n])
  show f': "window_floor (moved_up seq w) = seq - (rw_size w - 1)"
    using floor_eq [of "moved_up seq w"] n by (simp add: moved_up_def Let_def)
  show "length (rw_bitmap (moved_up seq w)) = length (rw_bitmap w)" by (simp add: moved_up_def Let_def)
  let ?k = "window_floor (moved_up seq w) - window_floor w"
  have le: "window_floor w \<le> window_floor (moved_up seq w)" using f f' assms(3) by simp
  have "u64_sub (rw_size w) 1 = rw_size w - 1" using n by (intro u64_sub_id) auto
  then have bm: "rw_bitmap (moved_up seq w) =
      (if ?k > 0 then window_advance (rw_size w) ?k (rw_bitmap w) else rw_bitmap w)"
    unfolding f' by (simp add: moved_up_def Let_def)
  show "bm_get (rw_bitmap (moved_up seq w)) i \<longleftrightarrow> window_floor (moved_up seq w) + i \<in> S"
  proof (cases "?k < rw_size w")
    case True
    then have "bm_get (rw_bitmap (moved_up seq w)) i \<longleftrightarrow> bm_get (rw_bitmap w) (i + ?k)"
      using bm by (auto simp: get_window_advance)
    also have "\<dots> \<longleftrightarrow> window_floor (moved_up seq w) + i \<in> S" using g le by (simp add: add.commute)
    finally show ?thesis .
  next
    case False
    then have "rw_highest w < window_floor (moved_up seq w) + i" using f n(1) by linarith
    with S have "window_floor (moved_up seq w) + i \<notin> S" by (meson not_less)
    moreover have "rw_bitmap (moved_up seq w) = map (\<lambda>w. 0) (rw_bitmap w)"
      using False bm n(1) by (auto simp: window_advance_eq)
    ultimately show ?thesis by simp
  qed
qed

text \<open>Marking a number at or above the floor that is not above the highest one.\<close>

lemma mark_rel:
  assumes "0 < rw_size w" "rw_size w < 2 ^ 64" "rw_size w \<le> 64 * length (rw_bitmap w)" "finite S" "rw_initialized w"
    and "\<And>i. bm_get (rw_bitmap w) i \<longleftrightarrow> window_floor w + i \<in> S"
    and "window_floor w \<le> seq" "seq \<le> rw_highest w" "rw_highest w = Max (insert seq S)"
  shows "window_rel (w\<lparr>rw_bitmap := bm_set (rw_bitmap w) (seq - window_floor w)\<rparr>) (insert seq S)"
proof -
  let ?v = "w\<lparr>rw_bitmap := bm_set (rw_bitmap w) (seq - window_floor w)\<rparr>"
  have "window_floor w = rw_highest w - (rw_size w - 1)" by (rule floor_eq [OF assms(1,2)])
  then have "seq - window_floor w < 64 * length (rw_bitmap w)" using assms by linarith
  note bm_get_set [OF this]
  moreover have "window_floor ?v = window_floor w" by (simp add: window_floor_def)
  ultimately show ?thesis using assms by (auto simp: window_rel_def)
qed

lemma accept_rel:
  assumes "window_rel w S"
  shows "if fresh_seq (rw_size w) S seq
     then \<exists>w'. window_accept seq w = (Inr (), w') \<and> window_rel w' (insert seq S) \<and> rw_size w' = rw_size w
     else window_accept seq w = (Inl (ChReplay seq), w)"
proof (cases "S = {}")
  case True
  with assms accept_first show ?thesis by (auto simp: fresh_seq_def)
next
  case False
  with assms have n: "0 < rw_size w" "rw_size w < 2 ^ 64" "rw_size w \<le> 64 * length (rw_bitmap w)" "finite S"
    "rw_initialized w" "rw_highest w = Max S" and g: "\<And>i. bm_get (rw_bitmap w) i \<longleftrightarrow> window_floor w + i \<in> S"
    by (auto simp: window_rel_def)
  have H: "rw_highest w \<in> S" "\<And>h. h \<in> S \<Longrightarrow> h \<le> rw_highest w" using n(4,6) False by auto
  have f: "window_floor w = rw_highest w - (rw_size w - 1)" by (rule floor_eq [OF n(1,2)])
  have hi: "fresh_seq (rw_size w) S seq \<longleftrightarrow> seq \<notin> S \<and> rw_highest w < seq + rw_size w"
    using H by (force simp: fresh_seq_def)
  consider "seq < window_floor w" | "window_floor w \<le> seq" "seq \<le> rw_highest w" | "rw_highest w < seq" by linarith
  then show ?thesis
  proof cases
    case 1
    with f n(1) have "\<not> rw_highest w < seq + rw_size w" by linarith
    with 1 hi n(5) show ?thesis by (simp add: window_accept_def)
  next
    case 2
    then have off: "seq - window_floor w < rw_size w" "bm_get (rw_bitmap w) (seq - window_floor w) \<longleftrightarrow> seq \<in> S"
      using f n(1) g by auto
    have "rw_highest w = Max (insert seq S)" using 2(2) n(4,6) False by (simp add: max_def)
    note mark_rel [OF n(1-5) g 2 this]
    moreover have "rw_highest w < seq + rw_size w" using 2 f n(1) by linarith
    ultimately show ?thesis using 2 off hi n(5) by (simp add: window_accept_def Let_def)
  next
    case 3
    let ?m = "moved_up seq w"
    note up = moved_up_rel [OF assms False 3]
    have m: "rw_size ?m = rw_size w" "rw_initialized ?m" "rw_highest ?m = seq" using n(5) by (simp_all add: moved_up_def Let_def)
    have "seq \<notin> S" using 3 H(2) by (meson not_less)
    have off: "seq - window_floor ?m < rw_size w" "window_floor ?m \<le> seq" using up(2) n(1) by auto
    then have "\<not> bm_get (rw_bitmap ?m) (seq - window_floor ?m)" using up(1) \<open>seq \<notin> S\<close> by simp
    then have "window_accept seq w = (Inr (), ?m\<lparr>rw_bitmap := bm_set (rw_bitmap ?m) (seq - window_floor ?m)\<rparr>)"
      using off m(1) by (simp add: accept_moved_up [OF n(5) 3] Let_def)
    moreover have "Max S \<le> seq" using 3 unfolding n(6) by (rule less_imp_le)
    then have "max seq (Max S) = seq" by (rule max_absorb1)
    then have "rw_highest ?m = Max (insert seq S)" unfolding Max_insert [OF n(4) False] m(3) by (rule sym)
    then have "window_rel (?m\<lparr>rw_bitmap := bm_set (rw_bitmap ?m) (seq - window_floor ?m)\<rparr>) (insert seq S)"
      using n m up off by (intro mark_rel) auto
    moreover have "fresh_seq (rw_size w) S seq" using hi 3 \<open>seq \<notin> S\<close> by simp
    ultimately show ?thesis using m(1) by simp
  qed
qed


definition window_check :: "nat \<Rightarrow> replay_window \<Rightarrow> bool \<times> replay_window" where
  "window_check seq w = (case window_accept seq w of (r, t) \<Rightarrow> (r = Inr (), t))"

lemma window_check_rel:
  assumes "window_rel w S"
  shows "\<exists>t. window_check seq w = (fresh_seq (rw_size w) S seq, t) \<and> rw_size t = rw_size w \<and>
    window_rel t (if fresh_seq (rw_size w) S seq then insert seq S else S)"
  using accept_rel [OF assms, of seq] assms by (auto simp: window_check_def split: if_splits)

interpretation window: replay_filter window_check Some "\<lambda>ks. ks" "\<lambda>w ks. window_rel w (set ks)"
proof unfold_locales
  fix s ks f k t
  assume "window_rel s (set ks)" "Some f = Some k" "window_check f s = (True, t)"
  then show "k \<notin> set ks \<and> window_rel t (set (k # ks))"
    using window_check_rel [of s "set ks" f] by (auto simp: fresh_seq_def)
next
  fix s ks f k t
  assume "window_rel s (set ks)" "Some f = Some k" "window_check f s = (False, t)"
  then show "window_rel t (set ks)" using window_check_rel [of s "set ks" f] by auto
qed simp

text \<open>The reference: a set of all numbers accepted so far, and how far a number may lag.\<close>

fun set_run :: "nat \<Rightarrow> nat set \<Rightarrow> nat list \<Rightarrow> bool list" where
  "set_run n S [] = []"
| "set_run n S (q # qs) = fresh_seq n S q # set_run n (if fresh_seq n S q then insert q S else S) qs"

lemma feed_window: "window_rel w S \<Longrightarrow> fst (feed window_check w qs) = set_run (rw_size w) S qs"
proof (induction qs arbitrary: w S)
  case (Cons q qs)
  obtain t where "window_check q w = (fresh_seq (rw_size w) S q, t)" "rw_size t = rw_size w"
    "window_rel t (if fresh_seq (rw_size w) S q then insert q S else S)"
    using window_check_rel [OF Cons.prems, of q] by blast
  with Cons.IH show ?case by (simp add: split_beta)
qed simp

lemma counter_to_nonce_inj: "counter_to_nonce a = counter_to_nonce b \<Longrightarrow> a < 2 ^ 64 \<Longrightarrow> b < 2 ^ 64 \<Longrightarrow> a = b"
  by (rule le_bytes_inj [of _ 8]) (simp_all add: counter_to_nonce_def)

lemma length_counter_to_nonce [simp]: "length (counter_to_nonce n) = 24"
  by (simp add: counter_to_nonce_def)

section \<open>Properties\<close>

text \<open>
  C24: For every window size and every sequence of arriving sequence numbers, in any
  order and with any gaps, the bitmap window answers exactly like a set of all numbers
  accepted so far: a number is accepted when it is new and less than a window's length
  behind the highest one. So no number is accepted twice.
\<close>

theorem window_matches_set:
  assumes "0 < n" "n < 2 ^ 64"
  shows "fst (feed window_check (window_new n) qs) = set_run n {} qs
    \<and> distinct (accepted_keys Some qs (set_run n {} qs))"
proof
  show eq: "fst (feed window_check (window_new n) qs) = set_run n {} qs"
    using feed_window [OF window_new_rel [OF assms]] by (simp add: window_new_def)
  obtain bs t where "feed window_check (window_new n) qs = (bs, t)" by (cases "feed window_check (window_new n) qs")
  with eq window.accepted_once [OF _ this] window_new_rel [OF assms]
  show "distinct (accepted_keys Some qs (set_run n {} qs))" by (simp add: never_while_kept_id)
qed

theorem window_matches_set_witness:
  "fst (feed window_check (window_new 128) [0, 5, 3, 3, 70, 200, 5, 100]) = [True, True, True, False, True, True, False, True]"
  using window_matches_set [of 128 "[0, 5, 3, 3, 70, 200, 5, 100]"] by (simp add: fresh_seq_def)


end
