(* ===== verification/Channel_Session.thy ===== *)
theory Channel_Session
  imports Channel_Window
begin

text \<open>
  Key schedule (\<open>ratchet.rs\<close>), usage limits (\<open>usage_limit.rs\<close>) and the ratcheted session
  (\<open>session.rs\<close>) of \<open>origin-channel\<close>. The primitives of \<open>origin-crypto-sdk\<close> are the
  fields of \<open>channel_crypto\<close>; \<open>hkdf_ok\<close>, \<open>aead_ok\<close> and \<open>dh_ok\<close> state their documented
  behaviour. The lemmas describe what a receiver sees of the messages that are in
  flight: \<open>in_flight\<close> relates the receiving half of one session to the sending half of
  the other.
\<close>

section \<open>The primitives\<close>

record channel_crypto =
  cc_hkdf :: "bytes \<Rightarrow> bytes option \<Rightarrow> bytes \<Rightarrow> nat \<Rightarrow> string + bytes"
  cc_seal :: "bytes \<Rightarrow> bytes \<Rightarrow> bytes \<Rightarrow> string + bytes"
  cc_open :: "bytes \<Rightarrow> bytes \<Rightarrow> bytes \<Rightarrow> string + bytes"
  cc_sha3 :: "bytes \<Rightarrow> bytes"
  cc_public :: "bytes \<Rightarrow> bytes"
  cc_dh :: "bytes \<Rightarrow> bytes \<Rightarrow> string + bytes"
  cc_generate :: "nat \<Rightarrow> string + bytes"

text \<open>HKDF produces as many bytes as are asked for, up to 255 blocks of 32.\<close>

definition hkdf_ok :: "channel_crypto \<Rightarrow> bool" where
  "hkdf_ok C \<longleftrightarrow> (\<forall>ikm salt info n. n \<le> 255 * 32 \<longrightarrow>
     (\<exists>okm. cc_hkdf C ikm salt info n = Inr okm \<and> length okm = n))"

text \<open>
  The AEAD seals every plaintext that its 32-bit block counter can address (block 0 makes
  the tag's key), adds a tag of 16 bytes, and opens what it sealed.
\<close>

definition AEAD_MAX :: nat where
  "AEAD_MAX = 64 * (2 ^ 32 - 1)"

definition aead_ok :: "channel_crypto \<Rightarrow> bool" where
  "aead_ok C \<longleftrightarrow> (\<forall>k n p. length k = 32 \<longrightarrow> length n = 24 \<longrightarrow> length p \<le> AEAD_MAX \<longrightarrow>
     (\<exists>c. cc_seal C k n p = Inr c \<and> length c = length p + 16 \<and> cc_open C k n c = Inr p))"

section \<open>Key schedule\<close>

definition RATCHET_INIT_LABEL :: string where "RATCHET_INIT_LABEL = ''origin-channel:ratchet:v1''"
definition MESSAGE_KEY_LABEL :: string where "MESSAGE_KEY_LABEL = ''origin-channel:message:v1''"
definition CHAIN_ADVANCE_LABEL :: string where "CHAIN_ADVANCE_LABEL = ''origin-channel:chain:v1''"
definition DH_RATCHET_LABEL :: string where "DH_RATCHET_LABEL = ''origin-channel:dh-ratchet:v1''"

record ratchet_keys =
  rk_root :: bytes
  rk_send_chain :: bytes
  rk_recv_chain :: bytes

definition init_ratchet :: "channel_crypto \<Rightarrow> bytes \<Rightarrow> bool \<Rightarrow> channel_error + ratchet_keys" where
  "init_ratchet C shared_secret is_initiator =
     (case cc_hkdf C shared_secret None (str_bytes RATCHET_INIT_LABEL) 96 of
        Inl e \<Rightarrow> Inl (ChKey (''ratchet init HKDF failed: '' @ e))
      | Inr okm \<Rightarrow> let root = take 32 okm; chain_a = take 32 (drop 32 okm); chain_b = take 32 (drop 64 okm) in
          Inr (if is_initiator then \<lparr>rk_root = root, rk_send_chain = chain_a, rk_recv_chain = chain_b\<rparr>
               else \<lparr>rk_root = root, rk_send_chain = chain_b, rk_recv_chain = chain_a\<rparr>))"

definition derive_message_key :: "channel_crypto \<Rightarrow> bytes \<Rightarrow> channel_error + bytes \<times> bytes" where
  "derive_message_key C chain_key =
     (case cc_hkdf C chain_key None (str_bytes MESSAGE_KEY_LABEL) 32 of
        Inl e \<Rightarrow> Inl (ChKey (''message key HKDF failed: '' @ e))
      | Inr msg_key \<Rightarrow> (case cc_hkdf C chain_key None (str_bytes CHAIN_ADVANCE_LABEL) 32 of
            Inl e \<Rightarrow> Inl (ChKey (''chain advance HKDF failed: '' @ e))
          | Inr next_chain \<Rightarrow> Inr (msg_key, next_chain)))"

definition dh_ratchet :: "channel_crypto \<Rightarrow> bytes \<Rightarrow> bytes \<Rightarrow> channel_error + ratchet_keys" where
  "dh_ratchet C root_key dh_shared_secret =
     (case cc_hkdf C root_key (Some dh_shared_secret) (str_bytes DH_RATCHET_LABEL) 96 of
        Inl e \<Rightarrow> Inl (ChKey (''DH ratchet HKDF failed: '' @ e))
      | Inr okm \<Rightarrow> Inr \<lparr>rk_root = take 32 okm, rk_send_chain = take 32 (drop 32 okm),
                       rk_recv_chain = take 32 (drop 64 okm)\<rparr>)"

section \<open>Usage limits\<close>

definition DEFAULT_MAX_MESSAGES :: nat where "DEFAULT_MAX_MESSAGES = 2 ^ 20"
definition DEFAULT_MAX_BYTES :: nat where "DEFAULT_MAX_BYTES = 2 ^ 34"

record aead_limits =
  al_max_messages :: nat
  al_max_bytes :: nat

definition aead_limits_default :: aead_limits where
  "aead_limits_default = \<lparr>al_max_messages = DEFAULT_MAX_MESSAGES, al_max_bytes = DEFAULT_MAX_BYTES\<rparr>"

record direction_usage =
  du_messages :: nat
  du_bytes :: nat

definition direction_usage_default :: direction_usage where
  "direction_usage_default = \<lparr>du_messages = 0, du_bytes = 0\<rparr>"

record usage_tracker =
  ut_limits :: aead_limits
  ut_send :: direction_usage
  ut_recv :: direction_usage

definition usage_tracker_new :: "aead_limits \<Rightarrow> usage_tracker" where
  "usage_tracker_new limits =
     \<lparr>ut_limits = limits, ut_send = direction_usage_default, ut_recv = direction_usage_default\<rparr>"

definition check_and_record :: "aead_limits \<Rightarrow> nat \<Rightarrow> string \<Rightarrow> (direction_usage, channel_error, unit) se" where
  "check_and_record limits plaintext_len direction d =
     (let new_messages = u64_add (du_messages d) 1; new_bytes = u64_add (du_bytes d) plaintext_len in
      if new_messages > al_max_messages limits
      then (Inl (ChUsageLimitExceeded (direction @ '' message limit reached ('' @ dec (du_messages d) @ ''/''
              @ dec (al_max_messages limits) @ '')'')), d)
      else if new_bytes > al_max_bytes limits
      then (Inl (ChUsageLimitExceeded (direction @ '' byte limit reached ('' @ dec (du_bytes d) @ ''/''
              @ dec (al_max_bytes limits) @ '')'')), d)
      else (Inr (), \<lparr>du_messages = new_messages, du_bytes = new_bytes\<rparr>))"

definition check_send :: "nat \<Rightarrow> (usage_tracker, channel_error, unit) se" where
  "check_send plaintext_len t =
     within ut_send (\<lambda>d t. t\<lparr>ut_send := d\<rparr>) (check_and_record (ut_limits t) plaintext_len ''send'') t"

definition check_recv :: "nat \<Rightarrow> (usage_tracker, channel_error, unit) se" where
  "check_recv ciphertext_len t =
     within ut_recv (\<lambda>d t. t\<lparr>ut_recv := d\<rparr>) (check_and_record (ut_limits t) (ciphertext_len - 16) ''recv'') t"

definition direction_exhausted :: "usage_tracker \<Rightarrow> direction_usage \<Rightarrow> bool" where
  "direction_exhausted t d \<longleftrightarrow>
     du_messages d \<ge> al_max_messages (ut_limits t) \<or> du_bytes d \<ge> al_max_bytes (ut_limits t)"

definition send_exhausted :: "usage_tracker \<Rightarrow> bool" where
  "send_exhausted t = direction_exhausted t (ut_send t)"

definition recv_exhausted :: "usage_tracker \<Rightarrow> bool" where
  "recv_exhausted t = direction_exhausted t (ut_recv t)"

definition needs_rotation :: "usage_tracker \<Rightarrow> bool" where
  "needs_rotation t \<longleftrightarrow> direction_exhausted t (ut_send t) \<or> direction_exhausted t (ut_recv t)"

definition usage_reset :: "usage_tracker \<Rightarrow> usage_tracker" where
  "usage_reset t = t\<lparr>ut_send := direction_usage_default, ut_recv := direction_usage_default\<rparr>"

section \<open>The session\<close>

record ratcheted_session =
  rs_keys :: ratchet_keys
  rs_send_nonce :: nonce_tracker
  rs_replay :: replay_window
  rs_usage :: usage_tracker
  rs_send_seq :: nat

definition session_new :: "ratchet_keys \<Rightarrow> aead_limits \<Rightarrow> ratcheted_session" where
  "session_new keys limits = \<lparr>rs_keys = keys, rs_send_nonce = nonce_tracker_new ''send'',
     rs_replay = window_new 1024, rs_usage = usage_tracker_new limits, rs_send_seq = 0\<rparr>"

definition session_with_defaults :: "ratchet_keys \<Rightarrow> ratcheted_session" where
  "session_with_defaults keys = session_new keys aead_limits_default"

definition session_encrypt :: "channel_crypto \<Rightarrow> bytes \<Rightarrow> (ratcheted_session, channel_error, channel_message) se" where
  "session_encrypt C plaintext =
     seqM (within rs_usage (\<lambda>u s. s\<lparr>rs_usage := u\<rparr>) (check_send (length plaintext)))
     (bnd (\<lambda>s. (derive_message_key C (rk_send_chain (rs_keys s)), s)) (\<lambda>(msg_key, next_chain).
      seqM (modify (\<lambda>s. s\<lparr>rs_keys := (rs_keys s)\<lparr>rk_send_chain := next_chain\<rparr>\<rparr>))
      (bnd (within rs_send_nonce (\<lambda>n s. s\<lparr>rs_send_nonce := n\<rparr>) next_nonce) (\<lambda>nonce.
       bnd (map_err (\<lambda>e. ChKey (''encrypt failed: '' @ e)) (lift (cc_seal C msg_key nonce plaintext))) (\<lambda>ciphertext.
       bnd (gets rs_send_seq) (\<lambda>seq.
       seqM (modify (\<lambda>s. s\<lparr>rs_send_seq := u64_add (rs_send_seq s) 1\<rparr>))
       (ret \<lparr>cm_type = MSG_DATA, cm_seq = seq, cm_nonce = nonce, cm_ciphertext = ciphertext\<rparr>)))))))"

definition session_decrypt :: "channel_crypto \<Rightarrow> channel_message \<Rightarrow> (ratcheted_session, channel_error, bytes) se" where
  "session_decrypt C msg =
     seqM (within rs_replay (\<lambda>w s. s\<lparr>rs_replay := w\<rparr>) (window_accept (cm_seq msg)))
     (seqM (within rs_usage (\<lambda>u s. s\<lparr>rs_usage := u\<rparr>) (check_recv (length (cm_ciphertext msg))))
     (bnd (\<lambda>s. (derive_message_key C (rk_recv_chain (rs_keys s)), s)) (\<lambda>(recv_key, next_chain).
      seqM (modify (\<lambda>s. s\<lparr>rs_keys := (rs_keys s)\<lparr>rk_recv_chain := next_chain\<rparr>\<rparr>))
      (map_err (\<lambda>e. ChDecryption (''AEAD failed: '' @ e)) (lift (cc_open C recv_key (cm_nonce msg) (cm_ciphertext msg)))))))"

definition session_rotate :: "ratchet_keys \<Rightarrow> ratcheted_session \<Rightarrow> ratcheted_session" where
  "session_rotate new_keys s = s\<lparr>rs_keys := new_keys, rs_usage := usage_reset (rs_usage s),
     rs_send_nonce := nonce_tracker_new ''send'', rs_send_seq := 0, rs_replay := window_new 1024\<rparr>"

section \<open>Two sessions in step\<close>

lemma hkdf_yields: "hkdf_ok C \<Longrightarrow> n \<le> 8160 \<Longrightarrow> \<exists>okm. cc_hkdf C ikm salt info n = Inr okm \<and> length okm = n"
  by (simp add: hkdf_ok_def)

lemma derive_key_ok: "hkdf_ok C \<Longrightarrow> \<exists>k c'. derive_message_key C c = Inr (k, c') \<and> length k = 32 \<and> length c' = 32"
proof -
  assume ok: "hkdf_ok C"
  have "\<exists>okm. cc_hkdf C c None (str_bytes l) 32 = Inr okm \<and> length okm = 32" for l
    using ok unfolding hkdf_ok_def by simp
  from this [of MESSAGE_KEY_LABEL] this [of CHAIN_ADVANCE_LABEL] show ?thesis
    by (auto simp: derive_message_key_def)
qed

lemma aead_seals: "aead_ok C \<Longrightarrow> length k = 32 \<Longrightarrow> length n = 24 \<Longrightarrow> length p \<le> AEAD_MAX \<Longrightarrow> \<exists>c. cc_seal C k n p = Inr c"
  unfolding aead_ok_def by blast

lemma aead_opens:
  assumes "aead_ok C" "length k = 32" "length n = 24" "length p \<le> AEAD_MAX" "cc_seal C k n p = Inr c"
  shows "length c = length p + 16" "cc_open C k n c = Inr p"
  using assms unfolding aead_ok_def by (metis Inr_inject)+

lemma check_and_record_Inr: "check_and_record lim n d u = (Inr (), u') \<longleftrightarrow>
    u64_add (du_messages u) 1 \<le> al_max_messages lim \<and> u64_add (du_bytes u) n \<le> al_max_bytes lim
    \<and> u' = \<lparr>du_messages = u64_add (du_messages u) 1, du_bytes = u64_add (du_bytes u) n\<rparr>"
  by (auto simp: check_and_record_def Let_def)

lemma check_and_record_cases:
  obtains u' where "check_and_record lim n d u = (Inr (), u')"
  | e where "check_and_record lim n d u = (Inl (ChUsageLimitExceeded e), u)"
proof -
  have "(\<exists>u'. check_and_record lim n d u = (Inr (), u')) \<or>
      (\<exists>e. check_and_record lim n d u = (Inl (ChUsageLimitExceeded e), u))"
    by (simp add: check_and_record_def Let_def)
  with that show thesis by blast
qed

text \<open>
  The state of one direction, on either side: chain key, usage counters and the next
  sequence number. \<open>in_flight C lim h ps ms h'\<close>: the messages \<open>ms\<close> carry \<open>ps\<close> and lead a half
  in state \<open>h\<close> to state \<open>h'\<close>.
\<close>

type_synonym half = "bytes \<times> direction_usage \<times> nat"

inductive in_flight :: "channel_crypto \<Rightarrow> aead_limits \<Rightarrow> half \<Rightarrow> bytes list \<Rightarrow> channel_message list \<Rightarrow> half \<Rightarrow> bool"
  for C :: channel_crypto and lim :: aead_limits where
  none: "in_flight C lim h [] [] h"
| more: "in_flight C lim (c, u, q) (p # ps) (\<lparr>cm_type = MSG_DATA, cm_seq = q, cm_nonce = counter_to_nonce q, cm_ciphertext = ct\<rparr> # ms) h"
    if "derive_message_key C c = Inr (k, c')" "check_and_record lim (length p) d u = (Inr (), u')"
      "cc_seal C k (counter_to_nonce q) p = Inr ct" "length p \<le> AEAD_MAX" "q < u64_max"
      "in_flight C lim (c', u', q + 1) ps ms h"

inductive_cases in_flight_ConsE: "in_flight C lim h (p # ps) ms h'"
inductive_cases in_flight_NilE: "in_flight C lim h [] ms h'"

lemma in_flight_append:
  "in_flight C lim h ps ms h' \<Longrightarrow> in_flight C lim h' qs ns h'' \<Longrightarrow> in_flight C lim h (ps @ qs) (ms @ ns) h''"
  by (induction rule: in_flight.induct) (auto intro: in_flight.intros)

lemma in_flight_length: "in_flight C lim h ps ms h' \<Longrightarrow> length ms = length ps"
  by (induction rule: in_flight.induct) auto

lemma in_flight_messages_ok: "in_flight C lim h ps ms h' \<Longrightarrow> aead_ok C \<Longrightarrow> hkdf_ok C \<Longrightarrow> m \<in> set ms \<Longrightarrow> message_ok m"
proof (induction rule: in_flight.induct)
  case (more c k c' p d u u' q ct ps ms h)
  have "length k = 32" using derive_key_ok [OF more.prems(2), of c] more.hyps(1) by auto
  then have "16 \<le> length ct" using aead_opens(1) [OF more.prems(1) _ _ more.hyps(4,3)] by simp
  moreover have "q < 2 ^ 64" using more.hyps(5) by (simp add: u64_max_def)
  ultimately show ?case using more by (auto simp: message_ok_def)
qed simp

definition send_half :: "ratcheted_session \<Rightarrow> half" where
  "send_half s = (rk_send_chain (rs_keys s), ut_send (rs_usage s), rs_send_seq s)"

definition recv_half :: "nat \<Rightarrow> ratcheted_session \<Rightarrow> half" where
  "recv_half r s = (rk_recv_chain (rs_keys s), ut_recv (rs_usage s), r)"

text \<open>A session that has sent and received (\<open>r\<close> messages) without gaps in its current epoch.\<close>

definition session_ok :: "aead_limits \<Rightarrow> nat \<Rightarrow> ratcheted_session \<Rightarrow> bool" where
  "session_ok lim r s \<longleftrightarrow> ut_limits (rs_usage s) = lim \<and> al_max_messages lim < u64_max
     \<and> nt_next (rs_send_nonce s) = rs_send_seq s \<and> du_messages (ut_send (rs_usage s)) = rs_send_seq s
     \<and> rs_send_seq s \<le> al_max_messages lim
     \<and> rw_size (rs_replay s) = 1024 \<and> window_rel (rs_replay s) {0..<r}"

lemma session_new_ok: "al_max_messages lim < u64_max \<Longrightarrow> session_ok lim 0 (session_new keys lim)"
  using window_new_rel [of 1024]
  by (simp add: session_ok_def session_new_def usage_tracker_new_def nonce_tracker_new_def direction_usage_default_def window_new_def)

lemma rotate_ok: "session_ok lim r s \<Longrightarrow> session_ok lim 0 (session_rotate keys s)"
  using window_new_rel [of 1024]
  by (simp add: session_ok_def session_rotate_def usage_reset_def nonce_tracker_new_def direction_usage_default_def window_new_def)

text \<open>Sending either changes nothing because the budget is used up, or puts one message into flight.\<close>

lemma encrypt_sends:
  assumes "hkdf_ok C" "aead_ok C" "session_ok lim r s" "length p \<le> AEAD_MAX"
  obtains e where "session_encrypt C p s = (Inl (ChUsageLimitExceeded e), s)"
  | m t where "session_encrypt C p s = (Inr m, t)" "in_flight C lim (send_half s) [p] [m] (send_half t)"
      "session_ok lim r t" "recv_half r t = recv_half r s" "cm_type m = MSG_DATA" "length (cm_ciphertext m) = length p + 16"
proof -
  note ok = assms(3) [unfolded session_ok_def]
  let ?d = "check_and_record lim (length p) ''send'' (ut_send (rs_usage s))"
  obtain k c' where k: "derive_message_key C (rk_send_chain (rs_keys s)) = Inr (k, c')" "length k = 32"
    using derive_key_ok [OF assms(1)] by blast
  consider u' where "?d = (Inr (), u')" | e where "?d = (Inl (ChUsageLimitExceeded e), ut_send (rs_usage s))"
    by (rule check_and_record_cases)
  then show thesis
  proof cases
    case 1
    let ?q = "rs_send_seq s"
    have q: "?q < u64_max" "?q + 1 \<le> al_max_messages lim" "du_messages u' = ?q + 1"
      using 1 ok by (auto simp: check_and_record_Inr u64_add_id u64_max_def)
    obtain ct where ct: "cc_seal C k (counter_to_nonce ?q) p = Inr ct" "length ct = length p + 16"
      using aead_seals [OF assms(2) k(2) length_counter_to_nonce assms(4)]
        aead_opens(1) [OF assms(2) k(2) length_counter_to_nonce assms(4)] by blast
    let ?m = "\<lparr>cm_type = MSG_DATA, cm_seq = ?q, cm_nonce = counter_to_nonce ?q, cm_ciphertext = ct\<rparr>"
    let ?t = "s\<lparr>rs_keys := (rs_keys s)\<lparr>rk_send_chain := c'\<rparr>, rs_send_nonce := (rs_send_nonce s)\<lparr>nt_next := ?q + 1\<rparr>,
      rs_usage := (rs_usage s)\<lparr>ut_send := u'\<rparr>, rs_send_seq := ?q + 1\<rparr>"
    have "u64_add ?q 1 = ?q + 1" using q(1) by (intro u64_add_id) (simp add: u64_max_def)
    then have "session_encrypt C p s = (Inr ?m, ?t)"
      using 1 ok k(1) q(1) ct(1)
      by (simp add: session_encrypt_def check_send_def within_def se_defs next_nonce_def)
    moreover have "in_flight C lim (send_half s) [p] [?m] (send_half ?t)"
      using in_flight.more [OF k(1) 1 ct(1) assms(4) q(1) in_flight.none] by (simp add: send_half_def)
    moreover have "session_ok lim r ?t" using ok q by (simp add: session_ok_def)
    ultimately show thesis using ct(2) by (intro that(2) [of ?m ?t]) (simp_all add: recv_half_def)
  next
    case (2 e)
    then have "session_encrypt C p s = (Inl (ChUsageLimitExceeded e), s)"
      using ok by (simp add: session_encrypt_def check_send_def within_def se_defs)
    then show thesis by (rule that(1))
  qed
qed

text \<open>Receiving the first message in flight always succeeds and returns its plaintext.\<close>

lemma decrypt_delivers:
  assumes "hkdf_ok C" "aead_ok C" "session_ok lim r s"
    and "in_flight C lim (recv_half r s) (p # ps) (m # ms) h"
  obtains t where "session_decrypt C m s = (Inr p, t)" "in_flight C lim (recv_half (r + 1) t) ps ms h"
    "session_ok lim (r + 1) t" "send_half t = send_half s"
proof -
  note ok = assms(3) [unfolded session_ok_def]
  from assms(4) obtain k c' d u' ct where f: "derive_message_key C (rk_recv_chain (rs_keys s)) = Inr (k, c')"
    "check_and_record lim (length p) d (ut_recv (rs_usage s)) = (Inr (), u')"
    "cc_seal C k (counter_to_nonce r) p = Inr ct" "length p \<le> AEAD_MAX" "in_flight C lim (c', u', r + 1) ps ms h"
    "m = \<lparr>cm_type = MSG_DATA, cm_seq = r, cm_nonce = counter_to_nonce r, cm_ciphertext = ct\<rparr>"
    by (auto simp: recv_half_def elim: in_flight_ConsE)
  have "length k = 32" using derive_key_ok [OF assms(1)] f(1) by (metis Inr_inject prod.inject)
  note ct = aead_opens [OF assms(2) this length_counter_to_nonce f(4,3)]
  have "fresh_seq 1024 {0..<r} r" by (auto simp: fresh_seq_def)
  with accept_rel [of "rs_replay s" "{0..<r}" r] ok obtain w where
    w: "window_accept r (rs_replay s) = (Inr (), w)" "window_rel w (insert r {0..<r})" "rw_size w = 1024" by auto
  have "check_and_record lim (length p) ''recv'' (ut_recv (rs_usage s)) = (Inr (), u')"
    using f(2) by (simp add: check_and_record_Inr)
  then have "session_decrypt C m s = (Inr p, s\<lparr>rs_replay := w, rs_usage := (rs_usage s)\<lparr>ut_recv := u'\<rparr>,
      rs_keys := (rs_keys s)\<lparr>rk_recv_chain := c'\<rparr>\<rparr>)" (is "_ = (_, ?t)")
    using f(1,6) ct ok w(1) by (simp add: session_decrypt_def check_recv_def within_def se_defs)
  moreover have "insert r {0..<r} = {0..<r + 1}" by auto
  then have "session_ok lim (r + 1) ?t" using ok w by (simp add: session_ok_def)
  ultimately show thesis using f(5) by (intro that [of ?t]) (simp_all add: recv_half_def send_half_def)
qed


section \<open>Every history of one epoch\<close>

datatype session_op = Encrypt bytes | Decrypt channel_message

fun session_run :: "channel_crypto \<Rightarrow> ratcheted_session \<Rightarrow> session_op list \<Rightarrow> (bytes \<times> channel_message) list \<times> ratcheted_session" where
  "session_run C s [] = ([], s)"
| "session_run C s (Encrypt p # ops) = (case session_encrypt C p s of
     (Inl e, t) \<Rightarrow> session_run C t ops
   | (Inr m, t) \<Rightarrow> (case session_run C t ops of (sent, u) \<Rightarrow> ((p, m) # sent, u)))"
| "session_run C s (Decrypt m # ops) = (case session_decrypt C m s of (r, t) \<Rightarrow> session_run C t ops)"

definition send_budget_ok :: "aead_limits \<Rightarrow> ratcheted_session \<Rightarrow> bool" where
  "send_budget_ok lim s \<longleftrightarrow> ut_limits (rs_usage s) = lim \<and> al_max_messages lim < u64_max \<and> al_max_bytes lim \<le> 2 ^ 63
     \<and> du_messages (ut_send (rs_usage s)) \<le> al_max_messages lim \<and> du_bytes (ut_send (rs_usage s)) \<le> al_max_bytes lim"

text \<open>\<open>spent s t n b\<close>: the send direction recorded at least \<open>n\<close> messages with \<open>b\<close> bytes between \<open>s\<close> and \<open>t\<close>.\<close>

definition spent :: "ratcheted_session \<Rightarrow> ratcheted_session \<Rightarrow> nat \<Rightarrow> nat \<Rightarrow> bool" where
  "spent s t n b \<longleftrightarrow> du_messages (ut_send (rs_usage s)) + n \<le> du_messages (ut_send (rs_usage t))
     \<and> du_bytes (ut_send (rs_usage s)) + b \<le> du_bytes (ut_send (rs_usage t))"

lemma check_send_budget:
  assumes "check_send n u = (r, u')" "ut_limits u = lim" "al_max_messages lim < u64_max" "al_max_bytes lim \<le> 2 ^ 63"
    "du_messages (ut_send u) \<le> al_max_messages lim" "du_bytes (ut_send u) \<le> al_max_bytes lim" "n < 2 ^ 63"
  shows "r = Inr () \<and> u' = u\<lparr>ut_send := \<lparr>du_messages = du_messages (ut_send u) + 1, du_bytes = du_bytes (ut_send u) + n\<rparr>\<rparr>
        \<and> du_messages (ut_send u) + 1 \<le> al_max_messages lim \<and> du_bytes (ut_send u) + n \<le> al_max_bytes lim
    \<or> (\<exists>e. r = Inl e) \<and> u' = u"
proof -
  have "u64_add (du_messages (ut_send u)) 1 = du_messages (ut_send u) + 1"
    using assms(3,5) by (intro u64_add_id) (simp add: u64_max_def)
  moreover have "u64_add (du_bytes (ut_send u)) n = du_bytes (ut_send u) + n"
    using assms(4,6,7) by (intro u64_add_id) simp
  ultimately show ?thesis
    using assms(1,2) by (auto simp: check_send_def within_def check_and_record_def Let_def split: if_splits)
qed

text \<open>What a call leaves behind, whatever the primitives do and whether it succeeds or not.\<close>

lemma encrypt_effect:
  assumes "session_encrypt C p s = (r, t)" "send_budget_ok lim s" "length p < 2 ^ 63"
  shows "send_budget_ok lim t \<and> nt_next (rs_send_nonce s) \<le> nt_next (rs_send_nonce t) \<and>
    (case r of Inl e \<Rightarrow> spent s t 0 0
     | Inr m \<Rightarrow> spent s t 1 (length p) \<and> cm_nonce m = counter_to_nonce (nt_next (rs_send_nonce s)) \<and> nt_next (rs_send_nonce s) \<noteq> u64_max
         \<and> nt_next (rs_send_nonce t) = nt_next (rs_send_nonce s) + 1)"
proof -
  note b = assms(2) [unfolded send_budget_ok_def]
  obtain q u where c: "check_send (length p) (rs_usage s) = (q, u)" by (cases "check_send (length p) (rs_usage s)")
  note eff = check_send_budget [OF c, of lim]
  show ?thesis
    using assms(1) c eff b assms(3)
    by (auto simp: session_encrypt_def within_def se_defs next_nonce_def send_budget_ok_def spent_def
        split: sum.splits prod.splits if_splits)
qed

lemma decrypt_effect: "session_decrypt C m s = (r, t) \<Longrightarrow>
    rs_send_nonce t = rs_send_nonce s \<and> ut_send (rs_usage t) = ut_send (rs_usage s) \<and> ut_limits (rs_usage t) = ut_limits (rs_usage s)"
  by (auto simp: session_decrypt_def within_def se_defs check_recv_def split: sum.splits prod.splits)


definition op_fits :: "session_op \<Rightarrow> bool" where
  "op_fits op \<longleftrightarrow> (case op of Encrypt p \<Rightarrow> length p < 2 ^ 63 | Decrypt m \<Rightarrow> True)"

lemma session_run_effect:
  assumes "session_run C s ops = (sent, t)" "send_budget_ok lim s" "list_all op_fits ops" "nt_next (rs_send_nonce s) \<le> u64_max"
  shows "send_budget_ok lim t \<and> spent s t (length sent) (\<Sum>(p, m)\<leftarrow>sent. length p) \<and>
    (\<exists>ns. map (cm_nonce \<circ> snd) sent = map counter_to_nonce ns \<and> sorted_wrt (<) ns
       \<and> (\<forall>n \<in> set ns. nt_next (rs_send_nonce s) \<le> n \<and> n < u64_max))"
  using assms
proof (induction ops arbitrary: s sent)
  case Nil
  then show ?case by (simp add: spent_def)
next
  case (Cons op ops)
  show ?case
  proof (cases op)
    case (Decrypt m)
    then obtain r u where d: "session_decrypt C m s = (r, u)" by (cases "session_decrypt C m s")
    from decrypt_effect [OF d] Cons.prems Decrypt d Cons.IH [of u sent]
    show ?thesis by (auto simp: send_budget_ok_def spent_def)
  next
    case (Encrypt p)
    then obtain r u where e: "session_encrypt C p s = (r, u)" by (cases "session_encrypt C p s")
    have "length p < 2 ^ 63" using Cons.prems(3) Encrypt by (simp add: op_fits_def)
    note eff = encrypt_effect [OF e Cons.prems(2) this]
    have next_ok: "send_budget_ok lim u" "list_all op_fits ops" using eff Cons.prems(3) by simp_all
    show ?thesis
    proof (cases r)
      case (Inl err)
      then have nt: "nt_next (rs_send_nonce u) \<le> u64_max" using e Cons.prems(4)
        by (auto simp: session_encrypt_def within_def se_defs next_nonce_def u64_max_def split: sum.splits prod.splits if_splits)
      have "session_run C u ops = (sent, t)" using Cons.prems(1) Encrypt e Inl by simp
      from Cons.IH [OF this next_ok nt]
      obtain ns where "send_budget_ok lim t" "spent u t (length sent) (\<Sum>(p, m)\<leftarrow>sent. length p)"
        "map (cm_nonce \<circ> snd) sent = map counter_to_nonce ns" "sorted_wrt (<) ns"
        "\<forall>n \<in> set ns. nt_next (rs_send_nonce u) \<le> n \<and> n < u64_max" by blast
      with eff Inl show ?thesis by (auto simp: spent_def o_def intro!: exI [of _ ns])
    next
      case (Inr m)
      with Cons.prems(1) Encrypt e obtain sent' where r: "session_run C u ops = (sent', t)" "sent = (p, m) # sent'"
        by (auto split: prod.splits)
      have nt: "nt_next (rs_send_nonce u) \<le> u64_max" using eff Inr Cons.prems(4) by auto
      from Cons.IH [OF r(1) next_ok nt]
      obtain ns where "send_budget_ok lim t" "spent u t (length sent') (\<Sum>(p, m)\<leftarrow>sent'. length p)"
        "map (cm_nonce \<circ> snd) sent' = map counter_to_nonce ns" "sorted_wrt (<) ns"
        "\<forall>n \<in> set ns. nt_next (rs_send_nonce u) \<le> n \<and> n < u64_max" by blast
      moreover from this eff Inr have "\<forall>n \<in> set ns. nt_next (rs_send_nonce s) < n \<and> nt_next (rs_send_nonce s) \<le> n" by fastforce
      ultimately show ?thesis using eff Inr r(2) Cons.prems(4)
        by (auto simp: spent_def o_def intro!: exI [of _ "nt_next (rs_send_nonce s) # ns"])
    qed
  qed
qed

lemma distinct_nonces:
  assumes "sorted_wrt (<) ns" "\<forall>n \<in> set ns. n < u64_max"
  shows "distinct (map counter_to_nonce ns)"
proof -
  have "inj_on counter_to_nonce (set ns)"
  proof (rule inj_onI)
    fix x y
    assume "x \<in> set ns" "y \<in> set ns" and eq: "counter_to_nonce x = counter_to_nonce y"
    with assms(2) have "x < 2 ^ 64" "y < 2 ^ 64" by (auto simp: u64_max_def)
    with eq show "x = y" by (rule counter_to_nonce_inj)
  qed
  with assms(1) show ?thesis by (simp add: distinct_map strict_sorted_iff)
qed

section \<open>Properties\<close>

text \<open>
  C25: Whatever the primitives return and whatever messages arrive in between, the
  messages that a session sends in one epoch have pairwise different nonces, and their
  number and their total plaintext length stay within the usage limits of the epoch.
\<close>

theorem epoch_within_limits:
  assumes "session_run C (session_new keys lim) ops = (sent, t)" "list_all op_fits ops"
    and "al_max_messages lim < u64_max" "al_max_bytes lim \<le> 2 ^ 63"
  shows "distinct (map (cm_nonce \<circ> snd) sent) \<and> length sent \<le> al_max_messages lim
    \<and> (\<Sum>(p, m)\<leftarrow>sent. length p) \<le> al_max_bytes lim"
proof -
  have "send_budget_ok lim (session_new keys lim)" "nt_next (rs_send_nonce (session_new keys lim)) \<le> u64_max"
    using assms(3,4) by (simp_all add: send_budget_ok_def session_new_def usage_tracker_new_def direction_usage_default_def nonce_tracker_new_def)
  from session_run_effect [OF assms(1) this(1) assms(2) this(2)]
  show ?thesis by (auto simp: spent_def send_budget_ok_def intro!: distinct_nonces)
qed

text \<open>Stand-ins for the primitives: HKDF mixes the label in, the AEAD appends the key's first bytes as a tag.\<close>

definition example_crypto :: channel_crypto where
  "example_crypto = \<lparr>
     cc_hkdf = \<lambda>ikm salt info n. if n \<le> 255 * 32 then Inr (take n (map (\<lambda>b. b + last info + of_nat (length info)) ikm @ replicate n 0)) else Inl ''length'',
     cc_seal = \<lambda>k n p. Inr (p @ take 16 k),
     cc_open = \<lambda>k n c. if drop (length c - 16) c = take 16 k then Inr (take (length c - 16) c) else Inl ''tag mismatch'',
     cc_sha3 = \<lambda>b. take 32 (b @ replicate 32 0),
     cc_public = \<lambda>s. s,
     cc_dh = \<lambda>s p. if p = replicate 32 0 then Inl ''low order point'' else Inr (map (\<lambda>(x, y). x + y) (zip s p)),
     cc_generate = \<lambda>n. Inr (1 # replicate 31 (of_nat n))\<rparr>"

lemma example_crypto_ok: "hkdf_ok example_crypto" "aead_ok example_crypto"
  by (auto simp: hkdf_ok_def aead_ok_def example_crypto_def)

theorem epoch_within_limits_witness:
  "\<exists>sent t. session_run example_crypto (session_new \<lparr>rk_root = [], rk_send_chain = replicate 32 1, rk_recv_chain = replicate 32 2\<rparr>
       \<lparr>al_max_messages = 1, al_max_bytes = 100\<rparr>) [Encrypt [1, 2], Encrypt [3]] = (sent, t)
     \<and> map fst sent = [[1, 2]] \<and> length sent \<le> 1"
proof -
  let ?s = "session_new \<lparr>rk_root = [], rk_send_chain = replicate 32 1, rk_recv_chain = replicate 32 2\<rparr>
       \<lparr>al_max_messages = 1, al_max_bytes = 100\<rparr>"
  obtain sent t where r: "session_run example_crypto ?s [Encrypt [1, 2], Encrypt [3]] = (sent, t)"
    by (cases "session_run example_crypto ?s [Encrypt [1, 2], Encrypt [3]]")
  have "length sent \<le> 1" using epoch_within_limits [OF r] by (simp add: op_fits_def u64_max_def)
  moreover have "map fst sent = [[1, 2]]"
    using r by (simp add: session_encrypt_def session_new_def within_def se_defs check_send_def check_and_record_def
      usage_tracker_new_def direction_usage_default_def nonce_tracker_new_def next_nonce_def u64_max_def u64_add_def
      derive_message_key_def example_crypto_def Let_def split: prod.splits) auto
  ultimately show ?thesis using r by (intro exI [of _ sent] exI [of _ t] conjI)
qed


text \<open>
  C36: The replay window and the receiving chain advance before the AEAD has checked a
  message. Whoever can put a frame on the wire therefore destroys a genuine message
  without knowing any key: after one forged message with the expected sequence number,
  which fails to decrypt, the genuine message with that number is refused as a replay,
  and the receiver's chain is one step ahead of the message that is refused.
\<close>

theorem forged_message_blocks:
  assumes "session_ok lim r s" "in_flight C lim (recv_half r s) (p # ps) (m # ms) h"
    and "cm_seq f = r" "al_max_bytes lim \<ge> u64_add (du_bytes (ut_recv (rs_usage s))) (length (cm_ciphertext f) - 16)"
    and "derive_message_key C (rk_recv_chain (rs_keys s)) = Inr (k, c')" "cc_open C k (cm_nonce f) (cm_ciphertext f) = Inl e"
  shows "\<exists>t. session_decrypt C f s = (Inl (ChDecryption (''AEAD failed: '' @ e)), t)
    \<and> session_decrypt C m t = (Inl (ChReplay (cm_seq m)), t) \<and> rk_recv_chain (rs_keys t) = c'"
proof -
  note ok = assms(1) [unfolded session_ok_def]
  from assms(2) obtain u' d where f: "check_and_record lim (length p) d (ut_recv (rs_usage s)) = (Inr (), u')" "cm_seq m = r"
    by (auto simp: recv_half_def elim: in_flight_ConsE)
  have "fresh_seq 1024 {0..<r} r" by (auto simp: fresh_seq_def)
  with accept_rel [of "rs_replay s" "{0..<r}" r] ok obtain w where
    w: "window_accept r (rs_replay s) = (Inr (), w)" "window_rel w (insert r {0..<r})" "rw_size w = 1024" by auto
  have "\<not> fresh_seq 1024 (insert r {0..<r}) r" by (simp add: fresh_seq_def)
  with accept_rel [OF w(2), of r] w(3) have again: "window_accept r w = (Inl (ChReplay r), w)" by simp
  obtain u2 where u2: "check_and_record lim (length (cm_ciphertext f) - 16) ''recv'' (ut_recv (rs_usage s)) = (Inr (), u2)"
    using f(1) assms(4) by (auto simp: check_and_record_Inr)
  let ?t = "s\<lparr>rs_replay := w, rs_usage := (rs_usage s)\<lparr>ut_recv := u2\<rparr>, rs_keys := (rs_keys s)\<lparr>rk_recv_chain := c'\<rparr>\<rparr>"
  have "session_decrypt C f s = (Inl (ChDecryption (''AEAD failed: '' @ e)), ?t)"
    using w(1) u2 assms(3,5,6) ok by (simp add: session_decrypt_def check_recv_def within_def se_defs)
  moreover have "session_decrypt C m ?t = (Inl (ChReplay r), ?t)"
    using again f(2) by (simp add: session_decrypt_def within_def se_defs)
  ultimately show ?thesis using f(2) by (intro exI [of _ ?t]) simp
qed

definition example_ratchet_keys :: ratchet_keys where
  "example_ratchet_keys = \<lparr>rk_root = replicate 32 3, rk_send_chain = replicate 32 1, rk_recv_chain = replicate 32 1\<rparr>"

definition example_session :: ratcheted_session where
  "example_session = session_with_defaults example_ratchet_keys"

lemma example_session_ok: "session_ok aead_limits_default 0 example_session"
  unfolding example_session_def session_with_defaults_def
  by (rule session_new_ok) (simp add: aead_limits_default_def DEFAULT_MAX_MESSAGES_def u64_max_def)

lemma example_halves: "recv_half 0 example_session = send_half example_session"
  by (simp add: recv_half_def send_half_def example_session_def session_with_defaults_def session_new_def
      usage_tracker_new_def example_ratchet_keys_def)

theorem forged_message_blocks_witness:
  "\<exists>m t u. session_encrypt example_crypto [7] example_session = (Inr m, u)
    \<and> session_decrypt example_crypto \<lparr>cm_type = MSG_DATA, cm_seq = 0, cm_nonce = replicate 24 0, cm_ciphertext = replicate 16 0\<rparr> example_session
       = (Inl (ChDecryption ''AEAD failed: tag mismatch''), t)
    \<and> session_decrypt example_crypto m t = (Inl (ChReplay (cm_seq m)), t)"
proof -
  let ?f = "\<lparr>cm_type = MSG_DATA, cm_seq = 0, cm_nonce = replicate 24 0, cm_ciphertext = replicate 16 0\<rparr>"
  have k: "derive_message_key example_crypto (replicate 32 1) = Inr (replicate 32 75, replicate 32 73)" by code_simp
  have chains: "rk_recv_chain (rs_keys example_session) = replicate 32 1"
    by (simp add: example_session_def session_with_defaults_def session_new_def example_ratchet_keys_def)
  consider e where "session_encrypt example_crypto [7] example_session = (Inl (ChUsageLimitExceeded e), example_session)"
    | m u where "session_encrypt example_crypto [7] example_session = (Inr m, u)"
       "in_flight example_crypto aead_limits_default (send_half example_session) [[7]] [m] (send_half u)"
    by (rule encrypt_sends [OF example_crypto_ok example_session_ok, of "[7]"]) (auto simp: AEAD_MAX_def)
  then show ?thesis
  proof cases
    case 1
    then have False
      by (simp add: session_encrypt_def example_session_def session_with_defaults_def session_new_def within_def se_defs
        check_send_def check_and_record_def usage_tracker_new_def direction_usage_default_def u64_add_def aead_limits_default_def
        DEFAULT_MAX_MESSAGES_def DEFAULT_MAX_BYTES_def Let_def split: sum.splits prod.splits)
    then show ?thesis ..
  next
    case (2 m u)
    have "cc_open example_crypto (replicate 32 75) (cm_nonce ?f) (cm_ciphertext ?f) = Inl ''tag mismatch''" by code_simp
    with forged_message_blocks [OF example_session_ok 2(2) [folded example_halves], of ?f "replicate 32 75" "replicate 32 73" "''tag mismatch''"]
    show ?thesis using k chains 2(1)
      by (auto simp: aead_limits_default_def DEFAULT_MAX_BYTES_def u64_add_def example_session_def session_with_defaults_def
          session_new_def usage_tracker_new_def direction_usage_default_def)
  qed
qed

end
