(* ===== verification/Channel_Handshake.thy ===== *)
theory Channel_Handshake
  imports Channel_Session
begin

text \<open>
  The handshake of \<open>origin-channel\<close> (\<open>dh.rs\<close>, \<open>handshake.rs\<close>): three messages over four
  Diffie-Hellman agreements. The result is that two parties who know each other's
  static key derive one secret and one session id, and that the sessions they build
  from it are in step in both directions.
\<close>

section \<open>Diffie-Hellman\<close>

text \<open>
  What the code relies on of X25519: a key pair's public key has 32 bytes, two key
  pairs agree on a secret of 32 bytes, and generated keys are key pairs. A key pair is
  a non-zero scalar of 32 bytes.
\<close>

definition is_secret :: "bytes \<Rightarrow> bool" where
  "is_secret s \<longleftrightarrow> length s = 32 \<and> s \<noteq> replicate 32 0"

definition dh_ok :: "channel_crypto \<Rightarrow> bool" where
  "dh_ok C \<longleftrightarrow> (\<forall>s. is_secret s \<longrightarrow> length (cc_public C s) = 32)
     \<and> (\<forall>a b. is_secret a \<longrightarrow> is_secret b \<longrightarrow>
          (\<exists>k. cc_dh C a (cc_public C b) = Inr k \<and> cc_dh C b (cc_public C a) = Inr k \<and> length k = 32))
     \<and> (\<forall>n. \<exists>s. cc_generate C n = Inr s \<and> is_secret s)"

definition dh_generate :: "channel_crypto \<Rightarrow> nat \<Rightarrow> channel_error + bytes" where
  "dh_generate C n = (case cc_generate C n of
     Inl e \<Rightarrow> Inl (ChKey (''OS CSPRNG failed: '' @ e)) | Inr s \<Rightarrow> Inr s)"

definition diffie_hellman :: "channel_crypto \<Rightarrow> bytes \<Rightarrow> bytes \<Rightarrow> channel_error + bytes" where
  "diffie_hellman C secret peer = (case cc_dh C secret peer of Inl e \<Rightarrow> Inl (ChKey e) | Inr k \<Rightarrow> Inr k)"

definition dh_or_handshake :: "channel_crypto \<Rightarrow> string \<Rightarrow> bytes \<Rightarrow> bytes \<Rightarrow> channel_error + bytes" where
  "dh_or_handshake C op secret peer = (case diffie_hellman C secret peer of
     Inl e \<Rightarrow> Inl (ChHandshake (op @ '': '' @ channel_error_str e)) | Inr k \<Rightarrow> Inr k)"

section \<open>The state machine\<close>

definition SS_LABEL :: string where
  "SS_LABEL = ''origin-channel:handshake:ss:v1''"

record handshake =
  hs_static :: bytes
  hs_ephemeral :: "bytes option"
  hs_peer_static :: "bytes option"
  hs_peer_ephemeral :: "bytes option"
  hs_transcript :: bytes
  hs_is_initiator :: bool
  hs_step :: nat

definition handshake_new :: "bytes \<Rightarrow> bytes \<Rightarrow> bool \<Rightarrow> handshake" where
  "handshake_new static_secret peer_static_pk is_initiator =
     \<lparr>hs_static = static_secret, hs_ephemeral = None, hs_peer_static = Some peer_static_pk,
      hs_peer_ephemeral = None, hs_transcript = [], hs_is_initiator = is_initiator, hs_step = 0\<rparr>"

text \<open>\<open>n\<close> selects the draw from the system's random source that the call makes.\<close>

definition handshake_start :: "channel_crypto \<Rightarrow> nat \<Rightarrow> (handshake, channel_error, handshake_message) se" where
  "handshake_start C n hs =
     (if \<not> hs_is_initiator hs then (Inl (ChHandshake ''only the initiator can start the handshake''), hs)
      else case dh_generate C n of Inl e \<Rightarrow> (Inl e, hs)
        | Inr eph \<Rightarrow> (Inr \<lparr>hm_type = MSG_HANDSHAKE_1, hm_ephemeral_pk = cc_public C eph, hm_payload = []\<rparr>,
            hs\<lparr>hs_ephemeral := Some eph, hs_transcript := hs_transcript hs @ cc_public C eph, hs_step := 1\<rparr>))"

definition wrong_type :: "nat \<Rightarrow> byte \<Rightarrow> channel_error" where
  "wrong_type k t = ChHandshake (''expected msg'' @ dec k @ '' (0x0'' @ dec k @ ''), got 0x'' @ hex_encode [t])"

definition process_msg1 :: "channel_crypto \<Rightarrow> nat \<Rightarrow> handshake_message \<Rightarrow> (handshake, channel_error, handshake_message) se" where
  "process_msg1 C n msg hs =
     (if hs_is_initiator hs then (Inl (ChHandshake ''initiator should not receive message 1''), hs)
      else if hm_type msg \<noteq> MSG_HANDSHAKE_1 then (Inl (wrong_type 1 (hm_type msg)), hs)
      else let hs1 = hs\<lparr>hs_peer_ephemeral := Some (hm_ephemeral_pk msg), hs_transcript := hs_transcript hs @ hm_ephemeral_pk msg\<rparr> in
        case dh_generate C n of Inl e \<Rightarrow> (Inl e, hs1)
        | Inr eph \<Rightarrow> (Inr \<lparr>hm_type = MSG_HANDSHAKE_2, hm_ephemeral_pk = cc_public C eph, hm_payload = []\<rparr>,
            hs1\<lparr>hs_ephemeral := Some eph, hs_transcript := hs_transcript hs1 @ cc_public C eph, hs_step := 2\<rparr>))"

definition process_msg2 :: "handshake_message \<Rightarrow> (handshake, channel_error, handshake_message) se" where
  "process_msg2 msg hs =
     (if \<not> hs_is_initiator hs then (Inl (ChHandshake ''responder should not receive message 2''), hs)
      else if hm_type msg \<noteq> MSG_HANDSHAKE_2 then (Inl (wrong_type 2 (hm_type msg)), hs)
      else (Inr \<lparr>hm_type = MSG_HANDSHAKE_3, hm_ephemeral_pk = replicate 32 0, hm_payload = []\<rparr>,
            hs\<lparr>hs_peer_ephemeral := Some (hm_ephemeral_pk msg),
               hs_transcript := hs_transcript hs @ hm_ephemeral_pk msg, hs_step := 3\<rparr>))"

definition process_msg3 :: "handshake_message \<Rightarrow> (handshake, channel_error, unit) se" where
  "process_msg3 msg hs =
     (if hs_is_initiator hs then (Inl (ChHandshake ''initiator should not receive message 3''), hs)
      else if hm_type msg \<noteq> MSG_HANDSHAKE_3 then (Inl (wrong_type 3 (hm_type msg)), hs)
      else (Inr (), hs\<lparr>hs_step := 3\<rparr>))"

definition need :: "string \<Rightarrow> 'a option \<Rightarrow> channel_error + 'a" where
  "need what x = (case x of None \<Rightarrow> Inl (ChHandshake what) | Some y \<Rightarrow> Inr y)"

definition and_then :: "'e + 'a \<Rightarrow> ('a \<Rightarrow> 'e + 'b) \<Rightarrow> 'e + 'b" where
  "and_then r f = (case r of Inl e \<Rightarrow> Inl e | Inr x \<Rightarrow> f x)"

definition finalize :: "channel_crypto \<Rightarrow> handshake \<Rightarrow> channel_error + bytes \<times> bytes" where
  "finalize C hs =
     (if hs_step hs < 3 then Inl (ChHandshake ''handshake not complete (need all 3 messages)'')
      else and_then (need ''no ephemeral key'' (hs_ephemeral hs)) (\<lambda>eph.
        and_then (need ''no peer ephemeral key'' (hs_peer_ephemeral hs)) (\<lambda>peer_eph.
        and_then (need ''no peer static key'' (hs_peer_static hs)) (\<lambda>peer_static.
        and_then (dh_or_handshake C ''dh_ee'' eph peer_eph) (\<lambda>ee.
        and_then (if hs_is_initiator hs then dh_or_handshake C ''dh_es'' eph peer_static
                  else dh_or_handshake C ''dh_es'' (hs_static hs) peer_eph) (\<lambda>es.
        and_then (if hs_is_initiator hs then dh_or_handshake C ''dh_se'' (hs_static hs) peer_eph
                  else dh_or_handshake C ''dh_se'' eph peer_static) (\<lambda>se.
        and_then (dh_or_handshake C ''dh_ss'' (hs_static hs) peer_static) (\<lambda>ss.
        case cc_hkdf C (ee @ es @ se @ ss @ hs_transcript hs) None (str_bytes SS_LABEL) 32 of
          Inl e \<Rightarrow> Inl (ChHandshake (''shared secret HKDF: '' @ e))
        | Inr shared_secret \<Rightarrow> Inr (shared_secret, cc_sha3 C (hs_transcript hs @ shared_secret))))))))))"

section \<open>Agreement\<close>

lemma and_then_Inr [simp]: "and_then (Inr x) f = f x"
  by (simp add: and_then_def)

lemma and_then_eq: "and_then r f = Inr y \<longleftrightarrow> (\<exists>x. r = Inr x \<and> f x = Inr y)"
  by (simp add: and_then_def split: sum.splits)

lemma dh_agree:
  assumes "dh_ok C" "is_secret a" "is_secret b"
  obtains k where "length k = 32" "\<And>op. dh_or_handshake C op a (cc_public C b) = Inr k"
    "\<And>op. dh_or_handshake C op b (cc_public C a) = Inr k"
proof -
  obtain k where "cc_dh C a (cc_public C b) = Inr k" "cc_dh C b (cc_public C a) = Inr k" "length k = 32"
    using assms unfolding dh_ok_def by meson
  then show thesis by (intro that [of k]) (simp_all add: dh_or_handshake_def diffie_hellman_def)
qed

lemma generate_ok: "dh_ok C \<Longrightarrow> \<exists>s. dh_generate C n = Inr s \<and> is_secret s"
  unfolding dh_ok_def dh_generate_def by (metis (no_types, lifting) old.sum.simps(6))

lemma public_len: "dh_ok C \<Longrightarrow> is_secret s \<Longrightarrow> length (cc_public C s) = 32"
  unfolding dh_ok_def by blast

lemma finalize_agree:
  assumes "dh_ok C" "hkdf_ok C" "is_secret si" "is_secret sr" "is_secret ei" "is_secret er"
    and "hs_static hi = si" "hs_ephemeral hi = Some ei" "hs_peer_static hi = Some (cc_public C sr)"
      "hs_peer_ephemeral hi = Some (cc_public C er)" "hs_is_initiator hi" "hs_step hi = 3"
    and "hs_static hr = sr" "hs_ephemeral hr = Some er" "hs_peer_static hr = Some (cc_public C si)"
      "hs_peer_ephemeral hr = Some (cc_public C ei)" "\<not> hs_is_initiator hr" "hs_step hr = 3"
    and "hs_transcript hr = hs_transcript hi"
  obtains secret sid where "finalize C hi = Inr (secret, sid)" "finalize C hr = Inr (secret, sid)" "length secret = 32"
proof -
  obtain ee where ee: "\<And>op. dh_or_handshake C op ei (cc_public C er) = Inr ee"
    "\<And>op. dh_or_handshake C op er (cc_public C ei) = Inr ee" using dh_agree [OF assms(1,5,6)] by metis
  obtain es where es: "\<And>op. dh_or_handshake C op ei (cc_public C sr) = Inr es"
    "\<And>op. dh_or_handshake C op sr (cc_public C ei) = Inr es" using dh_agree [OF assms(1,5,4)] by metis
  obtain se where se: "\<And>op. dh_or_handshake C op si (cc_public C er) = Inr se"
    "\<And>op. dh_or_handshake C op er (cc_public C si) = Inr se" using dh_agree [OF assms(1,3,6)] by metis
  obtain ss where ss: "\<And>op. dh_or_handshake C op si (cc_public C sr) = Inr ss"
    "\<And>op. dh_or_handshake C op sr (cc_public C si) = Inr ss" using dh_agree [OF assms(1,3,4)] by metis
  obtain k where k: "cc_hkdf C (ee @ es @ se @ ss @ hs_transcript hi) None (str_bytes SS_LABEL) 32 = Inr k" "length k = 32"
    using hkdf_yields [OF assms(2), of 32 "ee @ es @ se @ ss @ hs_transcript hi" None "str_bytes SS_LABEL"] by auto
  show thesis
    using assms(7-19) ee es se ss k
    by (intro that [of k "cc_sha3 C (hs_transcript hi @ k)"]) (simp_all add: finalize_def need_def)
qed

lemma ratchets_cross:
  assumes "hkdf_ok C"
  obtains ki kr where "init_ratchet C secret True = Inr ki" "init_ratchet C secret False = Inr kr"
    "\<And>lim. recv_half 0 (session_new kr lim) = send_half (session_new ki lim)"
    "\<And>lim. recv_half 0 (session_new ki lim) = send_half (session_new kr lim)"
proof -
  obtain okm where "cc_hkdf C secret None (str_bytes RATCHET_INIT_LABEL) 96 = Inr okm"
    using hkdf_yields [OF assms, of 96 secret None "str_bytes RATCHET_INIT_LABEL"] by auto
  then show thesis
    using that by (simp add: init_ratchet_def Let_def recv_half_def send_half_def session_new_def usage_tracker_new_def)
qed

section \<open>Properties\<close>

text \<open>
  C15: Two parties that know each other's static public key and exchange the three
  messages of the handshake derive the same secret and the same session id, and the
  sessions they build from it are in step: what one sends on is what the other receives
  on, in both directions.
\<close>

theorem handshake_agrees:
  assumes "dh_ok C" "hkdf_ok C" "is_secret si" "is_secret sr"
  shows "\<exists>m1 m2 m3 hi hi' hr hr' secret sid ki kr.
     handshake_start C n (handshake_new si (cc_public C sr) True) = (Inr m1, hi)
   \<and> process_msg1 C k m1 (handshake_new sr (cc_public C si) False) = (Inr m2, hr)
   \<and> process_msg2 m2 hi = (Inr m3, hi') \<and> process_msg3 m3 hr = (Inr (), hr')
   \<and> finalize C hi' = Inr (secret, sid) \<and> finalize C hr' = Inr (secret, sid)
   \<and> init_ratchet C secret True = Inr ki \<and> init_ratchet C secret False = Inr kr
   \<and> recv_half 0 (session_new kr lim) = send_half (session_new ki lim)
   \<and> recv_half 0 (session_new ki lim) = send_half (session_new kr lim)"
proof -
  obtain ei where ei: "dh_generate C n = Inr ei" "is_secret ei" using generate_ok [OF assms(1)] by blast
  obtain er where er: "dh_generate C k = Inr er" "is_secret er" using generate_ok [OF assms(1)] by blast
  let ?hi = "(handshake_new si (cc_public C sr) True)\<lparr>hs_ephemeral := Some ei, hs_transcript := cc_public C ei, hs_step := 1\<rparr>"
  let ?hi' = "?hi\<lparr>hs_peer_ephemeral := Some (cc_public C er), hs_transcript := cc_public C ei @ cc_public C er, hs_step := 3\<rparr>"
  let ?hr = "(handshake_new sr (cc_public C si) False)\<lparr>hs_ephemeral := Some er, hs_peer_ephemeral := Some (cc_public C ei),
     hs_transcript := cc_public C ei @ cc_public C er, hs_step := 2\<rparr>"
  obtain secret sid where "finalize C ?hi' = Inr (secret, sid)" "finalize C (?hr\<lparr>hs_step := 3\<rparr>) = Inr (secret, sid)"
    by (rule finalize_agree [OF assms ei(2) er(2), of ?hi' "?hr\<lparr>hs_step := 3\<rparr>"]) (simp_all add: handshake_new_def)
  moreover obtain ki kr where "init_ratchet C secret True = Inr ki" "init_ratchet C secret False = Inr kr"
    "recv_half 0 (session_new kr lim) = send_half (session_new ki lim)"
    "recv_half 0 (session_new ki lim) = send_half (session_new kr lim)"
    using ratchets_cross [OF assms(2)] by metis
  moreover have "\<exists>m1. handshake_start C n (handshake_new si (cc_public C sr) True) = (Inr m1, ?hi)
      \<and> hm_type m1 = MSG_HANDSHAKE_1 \<and> hm_ephemeral_pk m1 = cc_public C ei"
    using ei(1) by (simp add: handshake_start_def handshake_new_def)
  moreover have "hm_type m1 = MSG_HANDSHAKE_1 \<Longrightarrow> hm_ephemeral_pk m1 = cc_public C ei \<Longrightarrow>
      process_msg1 C k m1 (handshake_new sr (cc_public C si) False)
        = (Inr \<lparr>hm_type = MSG_HANDSHAKE_2, hm_ephemeral_pk = cc_public C er, hm_payload = []\<rparr>, ?hr)" for m1
    using er(1) by (simp add: process_msg1_def handshake_new_def)
  moreover have "\<exists>m3. process_msg2 \<lparr>hm_type = MSG_HANDSHAKE_2, hm_ephemeral_pk = cc_public C er, hm_payload = []\<rparr> ?hi = (Inr m3, ?hi')
      \<and> process_msg3 m3 ?hr = (Inr (), ?hr\<lparr>hs_step := 3\<rparr>)"
    by (simp add: process_msg2_def process_msg3_def handshake_new_def)
  ultimately show ?thesis by metis
qed

lemma example_dh_ok: "dh_ok example_crypto"
proof -
  have "map (\<lambda>(x, y). x + y) (zip a b) = map (\<lambda>(x, y). x + y) (zip b a)" for a b :: bytes
    by (rule nth_equalityI) (auto simp: add.commute)
  moreover have "1 # xs \<noteq> replicate 32 (0 :: byte)" for xs by (simp add: numeral_eq_Suc)
  ultimately show ?thesis by (auto simp: dh_ok_def is_secret_def example_crypto_def)
qed

theorem handshake_agrees_witness:
  "\<exists>m1 hi m2 hr. handshake_start example_crypto 5 (handshake_new (replicate 32 1) (cc_public example_crypto (replicate 32 2)) True) = (Inr m1, hi)
    \<and> process_msg1 example_crypto 6 m1 (handshake_new (replicate 32 2) (cc_public example_crypto (replicate 32 1)) False) = (Inr m2, hr)
    \<and> hm_ephemeral_pk m2 = 1 # replicate 31 6"
proof -
  have "is_secret (replicate 32 1)" "is_secret (replicate 32 2)" by (simp_all add: is_secret_def numeral_eq_Suc)
  from handshake_agrees [OF example_dh_ok example_crypto_ok(1) this, of 5 6 aead_limits_default]
  obtain m1 hi m2 hr where r:
    "handshake_start example_crypto 5 (handshake_new (replicate 32 1) (cc_public example_crypto (replicate 32 2)) True) = (Inr m1, hi)"
    "process_msg1 example_crypto 6 m1 (handshake_new (replicate 32 2) (cc_public example_crypto (replicate 32 1)) False) = (Inr m2, hr)"
    by metis
  then have "hm_ephemeral_pk m2 = 1 # replicate 31 6"
    by (auto simp: process_msg1_def handshake_new_def dh_generate_def example_crypto_def split: if_splits)
  with r show ?thesis by metis
qed

end
