(* ===== verification/Network_Wire.thy ===== *)
theory Network_Wire
  imports Environment Channel_Handshake
begin

text \<open>
  The wire protocol of \<open>origin-network\<close>: its errors (\<open>error.rs\<close>), frame types and control
  payloads (\<open>wire.rs\<close>), and the framed TCP connection with stream multiplexing
  (\<open>transport.rs\<close>). A connection is a value: the reads it will see, its buffer, and the
  bytes it has written. The lemmas show that frames survive however the stream is cut
  into reads, and that every control payload is read back.
\<close>

section \<open>Errors and the outside world\<close>

datatype network_error =
    NetAddress string | NetTransport string | NetHandshake string | NetAuth string | NetRateLimited string
  | NetEvicted string | NetRelayFull string | NetTargetOffline string | NetTimeout string | NetCodec string
  | NetServiceDenied string | NetChannel string | NetCrypto string

fun network_error_str :: "network_error \<Rightarrow> string" where
  "network_error_str (NetAddress m) = ''address: '' @ m"
| "network_error_str (NetTransport m) = ''transport: '' @ m"
| "network_error_str (NetHandshake m) = ''handshake: '' @ m"
| "network_error_str (NetAuth m) = ''auth: '' @ m"
| "network_error_str (NetRateLimited m) = ''rate limited: '' @ m"
| "network_error_str (NetEvicted m) = ''evicted: '' @ m"
| "network_error_str (NetRelayFull m) = ''relay full: '' @ m"
| "network_error_str (NetTargetOffline m) = ''target offline: '' @ m"
| "network_error_str (NetTimeout m) = ''timeout: '' @ m"
| "network_error_str (NetCodec m) = ''codec: '' @ m"
| "network_error_str (NetServiceDenied m) = ''service denied: '' @ m"
| "network_error_str (NetChannel m) = ''channel: '' @ m"
| "network_error_str (NetCrypto m) = ''crypto: '' @ m"

text \<open>
  The primitives beside those of the channel: JSON text, key derivation from a seed,
  X25519 key pairs, the hybrid signature scheme, random bytes (of the n-th draw), and
  the text of an error of the hex decoder.
\<close>

record net_env =
  ne_crypto :: channel_crypto
  ne_to_vec :: "json \<Rightarrow> bytes"
  ne_from_slice :: "bytes \<Rightarrow> string + json"
  ne_serde_error :: "string \<Rightarrow> json \<Rightarrow> string"
  ne_derive_key :: "bytes \<Rightarrow> string \<Rightarrow> string \<Rightarrow> nat \<Rightarrow> bytes option"
  ne_key_pair :: "bytes \<Rightarrow> string + bytes"
  ne_bundle :: "bytes \<Rightarrow> string \<Rightarrow> string + bytes"
  ne_ed_pk :: "bytes \<Rightarrow> bytes"
  ne_falcon_pk :: "bytes \<Rightarrow> bytes"
  ne_sign :: "bytes \<Rightarrow> bytes \<Rightarrow> string + bytes \<times> bytes"
  ne_ed_key :: "bytes \<Rightarrow> string + unit"
  ne_falcon_key :: "bytes \<Rightarrow> string + unit"
  ne_ed_sig :: "bytes \<Rightarrow> string + unit"
  ne_falcon_sig :: "bytes \<Rightarrow> string + unit"
  ne_verify :: "bytes \<Rightarrow> bytes \<Rightarrow> bytes \<Rightarrow> bytes \<times> bytes \<Rightarrow> bool"
  ne_random :: "nat \<Rightarrow> nat \<Rightarrow> string + bytes"
  ne_falcon_max :: nat
  ne_hex_error :: "string \<Rightarrow> string"

definition json_ok :: "net_env \<Rightarrow> bool" where
  "json_ok NE \<longleftrightarrow> (\<forall>j. ne_from_slice NE (ne_to_vec NE j) = Inr j)"

section \<open>Frame types\<close>

definition TYPE_CONTROL_BASE :: byte where "TYPE_CONTROL_BASE = 0x40"
definition TYPE_ERROR_BASE :: byte where "TYPE_ERROR_BASE = 0xF0"

datatype wire_type = WAuthClaim | WAuthOk | WAuthReject | WSessionOpen | WSessionClose | WInboxPush | WInboxPull
  | WProbe | WAdvertPublish | WAdvertFetch | WMuxFrame | WPresenceSubscribe | WPresenceEvent | WRelayData
  | WRelayDataAck | WSessionOpenAck | WError

fun wire_to_u8 :: "wire_type \<Rightarrow> byte" where
  "wire_to_u8 WAuthClaim = 0x40"
| "wire_to_u8 WAuthOk = 0x41"
| "wire_to_u8 WAuthReject = 0x42"
| "wire_to_u8 WSessionOpen = 0x43"
| "wire_to_u8 WSessionClose = 0x44"
| "wire_to_u8 WInboxPush = 0x45"
| "wire_to_u8 WInboxPull = 0x46"
| "wire_to_u8 WProbe = 0x47"
| "wire_to_u8 WAdvertPublish = 0x48"
| "wire_to_u8 WAdvertFetch = 0x49"
| "wire_to_u8 WMuxFrame = 0x4A"
| "wire_to_u8 WPresenceSubscribe = 0x4B"
| "wire_to_u8 WPresenceEvent = 0x4C"
| "wire_to_u8 WRelayData = 0x4D"
| "wire_to_u8 WRelayDataAck = 0x4E"
| "wire_to_u8 WSessionOpenAck = 0x4F"
| "wire_to_u8 WError = 0xF0"

definition wire_from_u8 :: "byte \<Rightarrow> wire_type option" where
  "wire_from_u8 v =
     (if v = 0x40 then Some WAuthClaim else if v = 0x41 then Some WAuthOk else if v = 0x42 then Some WAuthReject
      else if v = 0x43 then Some WSessionOpen else if v = 0x44 then Some WSessionClose else if v = 0x45 then Some WInboxPush
      else if v = 0x46 then Some WInboxPull else if v = 0x47 then Some WProbe else if v = 0x48 then Some WAdvertPublish
      else if v = 0x49 then Some WAdvertFetch else if v = 0x4A then Some WMuxFrame else if v = 0x4B then Some WPresenceSubscribe
      else if v = 0x4C then Some WPresenceEvent else if v = 0x4D then Some WRelayData else if v = 0x4E then Some WRelayDataAck
      else if v = 0x4F then Some WSessionOpenAck else if v = 0xF0 then Some WError else None)"

definition is_channel_passthrough :: "byte \<Rightarrow> bool" where
  "is_channel_passthrough v \<longleftrightarrow> 0x01 \<le> v \<and> v \<le> 0x3F"

definition is_network_owned :: "byte \<Rightarrow> bool" where
  "is_network_owned v \<longleftrightarrow> 0x40 \<le> v \<and> v \<le> 0x5F \<or> 0xF0 \<le> v"

definition encode_wire :: "wire_type \<Rightarrow> bytes \<Rightarrow> network_error + bytes" where
  "encode_wire t payload = (case encode_frame (wire_to_u8 t # payload) of
     Inl e \<Rightarrow> Inl (NetCodec (channel_error_str e)) | Inr f \<Rightarrow> Inr f)"

definition decode_wire :: "bytes \<Rightarrow> network_error + (byte \<times> bytes \<times> nat) option" where
  "decode_wire buf = (case decode_typed buf of
     Inl e \<Rightarrow> Inl (NetCodec (channel_error_str e)) | Inr r \<Rightarrow> Inr r)"

lemma wire_from_to [simp]: "wire_from_u8 (wire_to_u8 t) = Some t"
  by (cases t) (simp_all add: wire_from_u8_def)

lemma wire_to_from: "wire_from_u8 v = Some t \<Longrightarrow> wire_to_u8 t = v"
  by (auto simp: wire_from_u8_def split: if_splits)

lemma wire_owned: "is_network_owned (wire_to_u8 t)"
  by (cases t) (simp_all add: is_network_owned_def word_le_nat_alt)

lemma passthrough_not_owned: "is_channel_passthrough v \<Longrightarrow> \<not> is_network_owned v \<and> wire_from_u8 v = None"
proof -
  assume "is_channel_passthrough v"
  then have "\<not> is_network_owned v" by (auto simp: is_channel_passthrough_def is_network_owned_def word_le_nat_alt)
  with wire_owned wire_to_from show ?thesis by (metis option.exhaust)
qed

section \<open>Connections\<close>

text \<open>What the reads of a TCP stream return, in order: data, an error, or no data in time.\<close>

datatype read_event = Chunk bytes | ReadError string | ReadTimeout

record frame_conn =
  fc_reads :: "read_event list"
  fc_buf :: bytes
  fc_written :: bytes
  fc_write_error :: "string option"

definition read_more :: "(frame_conn, network_error, unit) se" where
  "read_more c = (case fc_reads c of
     [] \<Rightarrow> (Inl (NetTransport ''peer closed connection''), c)
   | ReadTimeout # es \<Rightarrow> (Inl (NetTimeout ''tcp read timed out''), c\<lparr>fc_reads := es\<rparr>)
   | ReadError e # es \<Rightarrow> (Inl (NetTransport e), c\<lparr>fc_reads := es\<rparr>)
   | Chunk b # es \<Rightarrow> if b = [] then (Inl (NetTransport ''peer closed connection''), c\<lparr>fc_reads := es\<rparr>)
       else (Inr (), c\<lparr>fc_reads := es, fc_buf := fc_buf c @ b\<rparr>))"

definition send_frame :: "byte \<Rightarrow> bytes \<Rightarrow> (frame_conn, network_error, unit) se" where
  "send_frame typ payload =
     bnd (lift (if is_network_owned typ \<or> wire_from_u8 typ \<noteq> None
           then (case wire_from_u8 typ of None \<Rightarrow> Inl (NetCodec (''unknown wire type 0x'' @ hex_encode [typ]))
                 | Some t \<Rightarrow> encode_wire t payload)
           else (case encode_typed typ payload of Inl e \<Rightarrow> Inl (NetCodec (channel_error_str e)) | Inr f \<Rightarrow> Inr f))) (\<lambda>frame c.
     case fc_write_error c of Some e \<Rightarrow> (Inl (NetTransport e), c)
     | None \<Rightarrow> (Inr (), c\<lparr>fc_written := fc_written c @ frame\<rparr>))"

function recv_frame :: "(frame_conn, network_error, byte \<times> bytes) se" where
  "recv_frame c = (case decode_wire (fc_buf c) of
     Inl e \<Rightarrow> (Inl e, c)
   | Inr (Some (tag, payload, consumed)) \<Rightarrow> (Inr (tag, payload), c\<lparr>fc_buf := drop consumed (fc_buf c)\<rparr>)
   | Inr None \<Rightarrow> (case read_more c of (Inl e, c') \<Rightarrow> (Inl e, c') | (Inr _, c') \<Rightarrow> recv_frame c'))"
  by auto
termination
  by (relation "measure (\<lambda>c. length (fc_reads c))") (auto simp: read_more_def split: list.splits read_event.splits if_splits)

declare recv_frame.simps [simp del]

section \<open>Stream multiplexing\<close>

text \<open>
  \<open>dx_streams\<close> holds the queue of every open stream, \<open>dx_outbound\<close> what the handles sent;
  a handle is its stream id, and it is closed when the id is in \<open>dx_closed\<close>.
\<close>

record demux =
  dx_streams :: "nat \<Rightarrow> bytes list option"
  dx_next_id :: nat
  dx_outbound :: "(nat \<times> bytes) list"
  dx_closed :: "nat set"

definition demux_new :: "bool \<Rightarrow> demux" where
  "demux_new is_initiator = \<lparr>dx_streams = (\<lambda>i. None), dx_next_id = (if is_initiator then 1 else 2),
     dx_outbound = [], dx_closed = {}\<rparr>"

definition register_stream :: "nat \<Rightarrow> demux \<Rightarrow> nat \<times> demux" where
  "register_stream i d = (i, d\<lparr>dx_streams := (dx_streams d)(i \<mapsto> []), dx_closed := dx_closed d - {i}\<rparr>)"

definition open_stream :: "demux \<Rightarrow> nat \<times> demux" where
  "open_stream d = register_stream (dx_next_id d) (d\<lparr>dx_next_id := (dx_next_id d + 2) mod 2 ^ 32\<rparr>)"

definition route_inbound :: "byte \<Rightarrow> bytes \<Rightarrow> demux \<Rightarrow> (byte \<times> bytes) option \<times> demux" where
  "route_inbound tag payload d =
     (if tag = wire_to_u8 WMuxFrame then
        if length payload < 4
        then (Some (wire_to_u8 WError, str_bytes (''malformed MuxFrame: '' @ dec (length payload) @ '' bytes < 4'')), d)
        else let i = of_be_bytes (take 4 payload) in
          (case dx_streams d i of
             Some queue \<Rightarrow> (None, d\<lparr>dx_streams := (dx_streams d)(i \<mapsto> queue @ [drop 4 payload])\<rparr>)
           | None \<Rightarrow> (Some (tag, payload), d))
      else (Some (tag, payload), d))"

definition mux_payload :: "nat \<Rightarrow> bytes \<Rightarrow> bytes" where
  "mux_payload stream_id payload = be_bytes 4 stream_id @ payload"

definition encode_mux :: "nat \<Rightarrow> bytes \<Rightarrow> network_error + bytes" where
  "encode_mux stream_id payload = encode_wire WMuxFrame (mux_payload stream_id payload)"

definition stream_send :: "nat \<Rightarrow> bytes \<Rightarrow> (demux, network_error, unit) se" where
  "stream_send i payload d =
     (if i \<in> dx_closed d then (Inl (NetTransport ''stream closed''), d)
      else (Inr (), d\<lparr>dx_outbound := dx_outbound d @ [(i, payload)]\<rparr>))"

definition close_stream :: "nat \<Rightarrow> demux \<Rightarrow> demux" where
  "close_stream i d = (case dx_streams d i of None \<Rightarrow> d
     | Some queue \<Rightarrow> d\<lparr>dx_streams := (dx_streams d)(i := None), dx_closed := insert i (dx_closed d)\<rparr>)"

section \<open>Frames on a stream\<close>

definition wire_frame :: "byte \<times> bytes \<Rightarrow> bytes" where
  "wire_frame f = be_bytes 4 (Suc (length (snd f))) @ fst f # snd f"

definition frame_fits :: "bytes \<Rightarrow> bool" where
  "frame_fits p \<longleftrightarrow> length p < MAX_FRAME_SIZE"

lemma encode_typed_frame: "frame_fits p \<Longrightarrow> encode_typed t p = Inr (wire_frame (t, p))"
  by (simp add: frame_fits_def encode_typed_def encode_frame_def wire_frame_def)

lemma encode_wire_frame: "frame_fits p \<Longrightarrow> encode_wire t p = Inr (wire_frame (wire_to_u8 t, p))"
  by (simp add: frame_fits_def encode_wire_def encode_frame_def wire_frame_def)

lemma decode_wire_frame: "frame_fits p \<Longrightarrow> decode_wire (wire_frame (t, p) @ rest) = Inr (Some (t, p, length (wire_frame (t, p))))"
  by (simp add: decode_wire_def decode_typed_prefix [OF encode_typed_frame])

lemma decode_wire_partial: "frame_fits p \<Longrightarrow> n < length (wire_frame (t, p)) \<Longrightarrow> decode_wire (take n (wire_frame (t, p))) = Inr None"
  by (simp add: decode_wire_def decode_typed_partial [OF encode_typed_frame])

definition sendable :: "byte \<Rightarrow> bool" where
  "sendable t \<longleftrightarrow> is_channel_passthrough t \<or> wire_from_u8 t \<noteq> None"

lemma sendable_wire [simp]: "sendable (wire_to_u8 t)"
  by (simp add: sendable_def)

lemma send_frame_ok:
  assumes "sendable t" "frame_fits p" "fc_write_error c = None"
  shows "send_frame t p c = (Inr (), c\<lparr>fc_written := fc_written c @ wire_frame (t, p)\<rparr>)"
proof (cases "wire_from_u8 t")
  case None
  with assms(1) have "is_channel_passthrough t" by (simp add: sendable_def)
  with None assms show ?thesis using passthrough_not_owned [of t]
    by (simp add: send_frame_def se_defs encode_typed_frame)
next
  case (Some w)
  with assms wire_to_from [OF Some] show ?thesis by (simp add: send_frame_def se_defs encode_wire_frame)
qed

fun chunk_bytes :: "read_event \<Rightarrow> bytes" where
  "chunk_bytes (Chunk b) = b"
| "chunk_bytes (ReadError e) = []"
| "chunk_bytes ReadTimeout = []"

definition clean_read :: "read_event \<Rightarrow> bool" where
  "clean_read e \<longleftrightarrow> (case e of Chunk b \<Rightarrow> b \<noteq> [] | _ \<Rightarrow> False)"

definition arriving :: "frame_conn \<Rightarrow> bytes" where
  "arriving c = fc_buf c @ concat (map chunk_bytes (fc_reads c))"

definition conn_rest :: "frame_conn \<Rightarrow> bytes \<times> string option" where
  "conn_rest c = (fc_written c, fc_write_error c)"

lemma recv_frame_next:
  "list_all clean_read (fc_reads c) \<Longrightarrow> arriving c = wire_frame (t, p) @ rest \<Longrightarrow> frame_fits p \<Longrightarrow>
   \<exists>c'. recv_frame c = (Inr (t, p), c') \<and> arriving c' = rest \<and> list_all clean_read (fc_reads c') \<and> conn_rest c' = conn_rest c"
proof (induction "fc_reads c" arbitrary: c)
  case Nil
  then have "fc_buf c = wire_frame (t, p) @ rest" by (simp add: arriving_def)
  then have "recv_frame c = (Inr (t, p), c\<lparr>fc_buf := rest\<rparr>)"
    using Nil.prems(3) by (subst recv_frame.simps) (simp add: decode_wire_frame)
  with Nil.hyps show ?case by (auto simp: arriving_def conn_rest_def)
next
  case (Cons e es)
  then obtain b where b: "e = Chunk b" "b \<noteq> []" by (cases e) (auto simp: clean_read_def list_all_iff dest: sym)
  show ?case
  proof (cases "length (wire_frame (t, p)) \<le> length (fc_buf c)")
    case True
    with Cons.prems(2) have buf: "fc_buf c = wire_frame (t, p) @ drop (length (wire_frame (t, p))) (fc_buf c)"
      unfolding arriving_def by (metis append_eq_append_conv_if append_take_drop_id)
    then have "recv_frame c = (Inr (t, p), c\<lparr>fc_buf := drop (length (wire_frame (t, p))) (fc_buf c)\<rparr>)"
      using decode_wire_frame [OF Cons.prems(3), of t "drop (length (wire_frame (t, p))) (fc_buf c)"]
      by (subst recv_frame.simps) simp
    moreover have "drop (length (wire_frame (t, p))) (fc_buf c) @ concat (map chunk_bytes (fc_reads c)) = rest"
      using Cons.prems(2) buf unfolding arriving_def by (metis append_assoc same_append_eq)
    ultimately show ?thesis using Cons.prems(1) by (auto simp: arriving_def conn_rest_def)
  next
    case False
    then have "fc_buf c = take (length (fc_buf c)) (wire_frame (t, p))"
      using Cons.prems(2) unfolding arriving_def by (metis append_eq_conv_conj nle_le take_append append_Nil2 diff_is_0_eq take_0)
    then have "decode_wire (fc_buf c) = Inr None"
      using decode_wire_partial [OF Cons.prems(3), of "length (fc_buf c)" t] False by simp
    moreover let ?c = "c\<lparr>fc_reads := es, fc_buf := fc_buf c @ b\<rparr>"
    have "read_more c = (Inr (), ?c)" using Cons.hyps(2) b by (simp add: read_more_def flip: Cons.hyps(2))
    ultimately have "recv_frame c = recv_frame ?c" by (subst recv_frame.simps) simp
    moreover have "arriving ?c = wire_frame (t, p) @ rest" "list_all clean_read (fc_reads ?c)"
      using Cons.prems(1,2) b by (simp_all add: arriving_def flip: Cons.hyps(2))
    ultimately show ?thesis using Cons.hyps(1) [of ?c] Cons.prems(3) by (simp add: conn_rest_def)
  qed
qed

fun recv_frames :: "nat \<Rightarrow> (frame_conn, network_error, (byte \<times> bytes) list) se" where
  "recv_frames 0 = ret []"
| "recv_frames (Suc n) = bnd recv_frame (\<lambda>f. bnd (recv_frames n) (\<lambda>fs. ret (f # fs)))"

lemma recv_frames_all:
  "list_all clean_read (fc_reads c) \<Longrightarrow> arriving c = concat (map wire_frame fs) @ rest \<Longrightarrow> list_all (frame_fits \<circ> snd) fs \<Longrightarrow>
   \<exists>c'. recv_frames (length fs) c = (Inr fs, c') \<and> arriving c' = rest"
proof (induction fs arbitrary: c)
  case (Cons f fs)
  obtain t p where f: "f = (t, p)" by (cases f)
  with Cons.prems recv_frame_next [of c t p "concat (map wire_frame fs) @ rest"] obtain c' where
    c': "recv_frame c = (Inr (t, p), c')" "arriving c' = concat (map wire_frame fs) @ rest" "list_all clean_read (fc_reads c')"
    by auto
  from Cons.IH [OF c'(3,2)] Cons.prems(3) obtain c'' where "recv_frames (length fs) c' = (Inr fs, c'')" "arriving c'' = rest"
    by auto
  with c'(1) f show ?case by (simp add: se_defs)
qed (simp add: ret_def)


section \<open>Stream ids\<close>

text \<open>What the two ends of a connection can do with their multiplexers. A handle exists for an id that was opened.\<close>

inductive demux_step :: "demux \<Rightarrow> demux \<Rightarrow> bool" where
  opened: "demux_step d (snd (open_stream d))"
| route: "demux_step d (snd (route_inbound tag payload d))"
| send: "demux_step d (snd (stream_send i payload d))" if "dx_streams d i \<noteq> None \<or> i \<in> dx_closed d"
| close: "demux_step d (close_stream i d)"

definition ids_ok :: "bool \<Rightarrow> demux \<Rightarrow> bool" where
  "ids_ok is_initiator d \<longleftrightarrow> (\<forall>i. i = dx_next_id d \<or> dx_streams d i \<noteq> None \<or> i \<in> dx_closed d \<or> i \<in> fst ` set (dx_outbound d)
     \<longrightarrow> odd i = is_initiator \<and> i < 2 ^ 32)"

lemma ids_okD: "ids_ok b d \<Longrightarrow> i = dx_next_id d \<or> dx_streams d i \<noteq> None \<or> i \<in> dx_closed d \<or> i \<in> fst ` set (dx_outbound d)
    \<Longrightarrow> odd i = b \<and> i < 2 ^ 32"
  unfolding ids_ok_def by blast

lemma ids_ok_new: "ids_ok b (demux_new b)"
  by (auto simp: ids_ok_def demux_new_def)

lemma next_id_parity: "odd ((n + 2) mod 2 ^ 32) = odd (n :: nat)"
  by (simp add: dvd_mod_iff)

lemma ids_ok_step: "demux_step d d' \<Longrightarrow> ids_ok b d \<Longrightarrow> ids_ok b d'"
proof (induction rule: demux_step.induct)
  case (opened d)
  have "odd (dx_next_id d) = b" "dx_next_id d < 2 ^ 32" using opened ids_okD by blast+
  moreover have "(dx_next_id d + 2) mod 2 ^ 32 < 2 ^ 32" by (rule mod_less_divisor) simp
  moreover have "odd ((dx_next_id d + 2) mod 2 ^ 32) = b" using \<open>odd (dx_next_id d) = b\<close> by (simp only: next_id_parity)
  ultimately have n: "odd ((dx_next_id d + 2) mod 2 ^ 32) = b \<and> (dx_next_id d + 2) mod 2 ^ 32 < 2 ^ 32" by blast
  show ?case unfolding ids_ok_def
  proof (intro allI impI)
    fix i
    let ?d = "snd (open_stream d)"
    assume "i = dx_next_id ?d \<or> dx_streams ?d i \<noteq> None \<or> i \<in> dx_closed ?d \<or> i \<in> fst ` set (dx_outbound ?d)"
    then have "i = (dx_next_id d + 2) mod 2 ^ 32 \<or> i = dx_next_id d \<or> dx_streams d i \<noteq> None \<or> i \<in> dx_closed d \<or> i \<in> fst ` set (dx_outbound d)"
      by (auto simp: open_stream_def register_stream_def split: if_splits)
    with n ids_okD [OF opened, of i] show "odd i = b \<and> i < 2 ^ 32" by blast
  qed
next
  case (route d tag payload)
  then show ?case using ids_okD [OF route] unfolding ids_ok_def
    by (auto simp: route_inbound_def Let_def split: option.splits if_splits)
next
  case (send d i payload)
  then show ?case using ids_okD [OF send(2)] unfolding ids_ok_def by (auto simp: stream_send_def)
next
  case (close d i)
  then show ?case using ids_okD [OF close] unfolding ids_ok_def by (auto simp: close_stream_def split: option.splits if_splits)
qed

lemma ids_ok_reach: "demux_step\<^sup>*\<^sup>* (demux_new b) d \<Longrightarrow> ids_ok b d"
  by (induction rule: rtranclp_induct) (auto intro: ids_ok_new ids_ok_step)

section \<open>Properties\<close>

text \<open>
  Frames survive the stream: whatever typed frames are sent on a connection, and
  however TCP cuts the bytes into reads, the peer receives exactly these frames in order,
  and nothing is left over.
\<close>

theorem frames_survive_stream:
  assumes "foldM (\<lambda>u (t, p). send_frame t p) () fs a = (Inr (), a')" "fc_written a = []"
    and "list_all (\<lambda>(t, p). sendable t \<and> frame_fits p) fs" "fc_write_error a = None"
    and "fc_buf b = []" "list_all clean_read (fc_reads b)" "concat (map chunk_bytes (fc_reads b)) = fc_written a'"
  shows "\<exists>b'. recv_frames (length fs) b = (Inr fs, b') \<and> arriving b' = []"
proof -
  have sent: "foldM (\<lambda>u (t, p). send_frame t p) () gs c = (Inr (), c') \<Longrightarrow> list_all (\<lambda>(t, p). sendable t \<and> frame_fits p) gs \<Longrightarrow>
      fc_write_error c = None \<Longrightarrow> fc_written c' = fc_written c @ concat (map wire_frame gs)" for gs c c'
  proof (induction gs arbitrary: c)
    case (Cons g gs)
    obtain t p where g: "g = (t, p)" by (cases g)
    with Cons.prems have "send_frame t p c = (Inr (), c\<lparr>fc_written := fc_written c @ wire_frame (t, p)\<rparr>)"
      by (intro send_frame_ok) auto
    with Cons.IH [of "c\<lparr>fc_written := fc_written c @ wire_frame (t, p)\<rparr>"] Cons.prems g show ?case by (simp add: se_defs)
  qed (simp add: ret_def)
  have "arriving b = concat (map wire_frame fs) @ []"
    using sent [OF assms(1,3,4)] assms(2,5,7) by (simp add: arriving_def)
  moreover have "list_all (frame_fits \<circ> snd) fs" using assms(3) by (auto simp: list_all_iff)
  ultimately show ?thesis using recv_frames_all [OF assms(6)] by blast
qed

definition example_conn_a :: frame_conn where
  "example_conn_a = \<lparr>fc_reads = [], fc_buf = [], fc_written = [], fc_write_error = None\<rparr>"

theorem frames_survive_stream_witness:
  "\<exists>b'. recv_frames (Suc (Suc 0)) \<lparr>fc_reads = [Chunk [0, 0], Chunk [0, 3, 0x40, 7, 8, 0, 0], Chunk [0, 1, 0x10]], fc_buf = [],
      fc_written = [], fc_write_error = None\<rparr> = (Inr [(0x40, [7, 8]), (0x10, [])], b') \<and> arriving b' = []"
proof -
  have "wire_frame (0x40, [7, 8]) = [0, 0, 0, 3, 0x40, 7, 8]" "wire_frame (0x10, []) = [0, 0, 0, 1, 0x10]" by code_simp+
  then have "foldM (\<lambda>u (t, p). send_frame t p) () [(0x40, [7, 8]), (0x10, [])] example_conn_a
      = (Inr (), example_conn_a\<lparr>fc_written := [0, 0, 0, 3, 0x40, 7, 8, 0, 0, 0, 1, 0x10]\<rparr>)"
    by (simp add: se_defs send_frame_ok sendable_def frame_fits_def MAX_FRAME_SIZE_def is_channel_passthrough_def
      wire_from_u8_def word_le_nat_alt example_conn_a_def)
  from frames_survive_stream [OF this, of "\<lparr>fc_reads = [Chunk [0, 0], Chunk [0, 3, 0x40, 7, 8, 0, 0], Chunk [0, 1, 0x10]], fc_buf = [],
      fc_written = [], fc_write_error = None\<rparr>"]
  show ?thesis by (simp add: example_conn_a_def sendable_def frame_fits_def MAX_FRAME_SIZE_def is_channel_passthrough_def
      wire_from_u8_def clean_read_def word_le_nat_alt)
qed

text \<open>
  C37: The two ends of a connection number their streams with different parity, and only
  the end that opens a stream registers its id. So no multiplexed frame is ever delivered:
  whatever both ends have done, every frame that one end's streams have sent is handed to
  the control path of the other end as a frame of an unknown stream.
\<close>

theorem mux_never_delivers:
  assumes "demux_step\<^sup>*\<^sup>* (demux_new a) da" "demux_step\<^sup>*\<^sup>* (demux_new (\<not> a)) db" "(i, payload) \<in> set (dx_outbound da)"
  shows "route_inbound (wire_to_u8 WMuxFrame) (mux_payload i payload) db
    = (Some (wire_to_u8 WMuxFrame, mux_payload i payload), db)"
proof -
  have i: "odd i = a" "i < 2 ^ 32" using ids_okD [OF ids_ok_reach [OF assms(1)], of i] assms(3) by force+
  then have "dx_streams db i = None" using ids_okD [OF ids_ok_reach [OF assms(2)], of i] by blast
  moreover have "of_be_bytes (be_bytes 4 i) = i" using i(2) by (intro of_be_bytes_be_bytes) simp
  ultimately show ?thesis by (simp add: route_inbound_def mux_payload_def Let_def)
qed

theorem mux_never_delivers_witness:
  "\<exists>da db. demux_step\<^sup>*\<^sup>* (demux_new True) da \<and> dx_outbound da = [(1, [42])] \<and> demux_step\<^sup>*\<^sup>* (demux_new False) db
    \<and> dx_streams db 2 \<noteq> None \<and> fst (route_inbound 0x4A (mux_payload 1 [42]) db) = Some (0x4A, mux_payload 1 [42])"
proof -
  let ?da = "snd (stream_send 1 [42] (snd (open_stream (demux_new True))))"
  let ?db = "snd (open_stream (demux_new False))"
  have "demux_step (snd (open_stream (demux_new True))) ?da"
    by (rule demux_step.send) (simp add: open_stream_def register_stream_def demux_new_def)
  then have a: "demux_step\<^sup>*\<^sup>* (demux_new True) ?da"
    using demux_step.opened [of "demux_new True"] by (meson converse_rtranclp_into_rtranclp r_into_rtranclp)
  have b: "demux_step\<^sup>*\<^sup>* (demux_new (\<not> True)) ?db" using demux_step.opened [of "demux_new False"] by simp
  have "dx_outbound ?da = [(1, [42])]" by (simp add: stream_send_def open_stream_def register_stream_def demux_new_def)
  with mux_never_delivers [OF a b, of 1 "[42]"] a b show ?thesis
    by (intro exI [of _ ?da] exI [of _ ?db]) (simp add: open_stream_def register_stream_def demux_new_def)
qed


end
