(* ===== verification/Network_Payloads.thy ===== *)
theory Network_Payloads
  imports Network_Wire
begin

text \<open>
  The control payloads of \<open>origin-network\<close> (\<open>wire.rs\<close>) with their derived JSON forms and
  decoders. Every payload that respects its field widths is read back.
\<close>

section \<open>Byte strings in JSON\<close>

text \<open>\<open>Vec<u8>\<close> is an array of numbers; \<open>[u8; n]\<close> one of exactly \<open>n\<close> numbers.\<close>

definition as_byte :: "json \<Rightarrow> byte option" where
  "as_byte j = map_option of_nat (as_unsigned 255 j)"

definition as_vec :: "json \<Rightarrow> bytes option" where
  "as_vec j = (case j of JArr vs \<Rightarrow> those (map as_byte vs) | _ \<Rightarrow> None)"

definition as_array :: "nat \<Rightarrow> json \<Rightarrow> bytes option" where
  "as_array n j = (case as_vec j of Some b \<Rightarrow> if length b = n then Some b else None | None \<Rightarrow> None)"

lemma as_byte_JNum [simp]: "as_byte (JNum (uint b)) = Some b"
proof -
  have "uint b < 2 ^ LENGTH(8)" by (rule unsigned_less)
  then have "uint b \<le> 255" by simp
  then show ?thesis by (simp add: as_byte_def as_unsigned_def)
qed

lemma those_map_Some: "(\<And>x. x \<in> set xs \<Longrightarrow> f (g x) = Some x) \<Longrightarrow> those (map f (map g xs)) = Some xs"
  by (induction xs) auto

lemma as_vec_JBytes [simp]: "as_vec (JBytes b) = Some b"
  using those_map_Some [of b as_byte "\<lambda>x. JNum (uint x)"] by (simp add: as_vec_def JBytes_def)

lemma as_array_JBytes [simp]: "as_array n (JBytes b) = (if length b = n then Some b else None)"
  by (simp add: as_array_def)

lemma as_unsigned_JNum [simp]: "as_unsigned mx (JNum (int n)) = (if n \<le> mx then Some n else None)"
  by (simp add: as_unsigned_def)

definition encode_payload :: "net_env \<Rightarrow> json \<Rightarrow> network_error + bytes" where
  "encode_payload NE j = Inr (ne_to_vec NE j)"

definition decode_payload :: "net_env \<Rightarrow> string \<Rightarrow> (json \<Rightarrow> 'a option) \<Rightarrow> bytes \<Rightarrow> network_error + 'a" where
  "decode_payload NE ty rd b = (case ne_from_slice NE b of
       Inl e \<Rightarrow> Inl (NetCodec e)
     | Inr j \<Rightarrow> (case rd j of None \<Rightarrow> Inl (NetCodec (ne_serde_error NE ty j)) | Some x \<Rightarrow> Inr x))"

lemma decode_encoded: "json_ok NE \<Longrightarrow> rd j = Some x \<Longrightarrow> decode_payload NE ty rd (ne_to_vec NE j) = Inr x"
  by (simp add: json_ok_def decode_payload_def)

section \<open>Authentication\<close>

record auth_claim =
  ac_fingerprint :: bytes
  ac_x25519_pk :: bytes
  ac_hybrid_signature :: bytes
  ac_protocol_version :: nat
  ac_nonce :: bytes

definition claim_json :: "auth_claim \<Rightarrow> json" where
  "claim_json c = JObj [(''fingerprint'', JBytes (ac_fingerprint c)), (''x25519_pk'', JBytes (ac_x25519_pk c)),
     (''hybrid_signature'', JBytes (ac_hybrid_signature c)), (''protocol_version'', JNum (int (ac_protocol_version c))),
     (''nonce'', JBytes (ac_nonce c))]"

definition read_claim :: "json \<Rightarrow> auth_claim option" where
  "read_claim j = (case struct_values [''fingerprint'', ''x25519_pk'', ''hybrid_signature'', ''protocol_version'', ''nonce''] j of
       Some [Some f, Some x, Some h, Some v, Some n] \<Rightarrow>
         (case (as_array 32 f, as_array 32 x, as_vec h, as_unsigned 65535 v, as_array 16 n) of
            (Some f', Some x', Some h', Some v', Some n') \<Rightarrow>
              Some \<lparr>ac_fingerprint = f', ac_x25519_pk = x', ac_hybrid_signature = h', ac_protocol_version = v', ac_nonce = n'\<rparr>
          | _ \<Rightarrow> None)
     | _ \<Rightarrow> None)"

definition claim_wf :: "auth_claim \<Rightarrow> bool" where
  "claim_wf c \<longleftrightarrow> length (ac_fingerprint c) = 32 \<and> length (ac_x25519_pk c) = 32 \<and> ac_protocol_version c \<le> 65535 \<and> length (ac_nonce c) = 16"

lemma read_claim_json: "claim_wf c \<Longrightarrow> read_claim (claim_json c) = Some c"
  by (cases c) (simp add: claim_wf_def read_claim_def claim_json_def struct_values_def struct_field_def)

definition auth_ok_json :: "string \<Rightarrow> json" where
  "auth_ok_json token = JObj [(''session_token'', JStr token)]"

definition read_auth_ok :: "json \<Rightarrow> string option" where
  "read_auth_ok j = (case struct_values [''session_token''] j of Some [t] \<Rightarrow> str_field t | _ \<Rightarrow> None)"

definition auth_reject_json :: "string \<Rightarrow> json" where
  "auth_reject_json reason = JObj [(''reason'', JStr reason)]"

definition read_auth_reject :: "json \<Rightarrow> string option" where
  "read_auth_reject j = (case struct_values [''reason''] j of Some [r] \<Rightarrow> str_field r | _ \<Rightarrow> None)"

lemma read_auth_replies [simp]: "read_auth_ok (auth_ok_json t) = Some t" "read_auth_reject (auth_reject_json r) = Some r"
  by (simp_all add: read_auth_ok_def auth_ok_json_def read_auth_reject_def auth_reject_json_def struct_values_def
      struct_field_def str_field_def as_str_def)

section \<open>Relay operations\<close>

text \<open>\<open>SessionOpen\<close>, \<open>Probe\<close>, \<open>AdvertFetch\<close> and \<open>PresenceSubscribe\<close> carry one fingerprint.\<close>

definition target_json :: "bytes \<Rightarrow> json" where
  "target_json fp = JObj [(''target_fp'', JBytes fp)]"

definition read_target :: "json \<Rightarrow> bytes option" where
  "read_target j = (case struct_values [''target_fp''] j of Some [Some f] \<Rightarrow> as_array 32 f | _ \<Rightarrow> None)"

text \<open>\<open>SessionClose\<close> and \<open>SessionOpenAck\<close> carry a pair id.\<close>

definition pair_json :: "nat \<Rightarrow> json" where
  "pair_json i = JObj [(''pair_id'', JNum (int i))]"

definition read_pair :: "json \<Rightarrow> nat option" where
  "read_pair j = (case struct_values [''pair_id''] j of Some [Some i] \<Rightarrow> as_unsigned u64_max i | _ \<Rightarrow> None)"

record inbox_push_msg =
  ip_target_fp :: bytes
  ip_frame :: bytes

definition inbox_push_json :: "inbox_push_msg \<Rightarrow> json" where
  "inbox_push_json p = JObj [(''target_fp'', JBytes (ip_target_fp p)), (''frame'', JBytes (ip_frame p))]"

definition read_inbox_push :: "json \<Rightarrow> inbox_push_msg option" where
  "read_inbox_push j = (case struct_values [''target_fp'', ''frame''] j of
       Some [Some t, Some f] \<Rightarrow> (case (as_array 32 t, as_vec f) of
           (Some t', Some f') \<Rightarrow> Some \<lparr>ip_target_fp = t', ip_frame = f'\<rparr> | _ \<Rightarrow> None)
     | _ \<Rightarrow> None)"

record advert =
  ad_protocol_version :: nat
  ad_endpoints :: "string list"
  ad_ttl_secs :: nat
  ad_presence :: nat

definition advert_json :: "advert \<Rightarrow> json" where
  "advert_json a = JObj [(''protocol_version'', JNum (int (ad_protocol_version a))), (''endpoints'', JArr (map JStr (ad_endpoints a))),
     (''ttl_secs'', JNum (int (ad_ttl_secs a))), (''presence'', JNum (int (ad_presence a)))]"

definition as_strs :: "json \<Rightarrow> string list option" where
  "as_strs j = (case j of JArr vs \<Rightarrow> those (map as_str vs) | _ \<Rightarrow> None)"

definition read_advert :: "json \<Rightarrow> advert option" where
  "read_advert j = (case struct_values [''protocol_version'', ''endpoints'', ''ttl_secs'', ''presence''] j of
       Some [Some v, Some es, Some t, Some p] \<Rightarrow>
         (case (as_unsigned 65535 v, as_strs es, as_unsigned u64_max t, as_unsigned 255 p) of
            (Some v', Some es', Some t', Some p') \<Rightarrow>
              Some \<lparr>ad_protocol_version = v', ad_endpoints = es', ad_ttl_secs = t', ad_presence = p'\<rparr>
          | _ \<Rightarrow> None)
     | _ \<Rightarrow> None)"

definition advert_wf :: "advert \<Rightarrow> bool" where
  "advert_wf a \<longleftrightarrow> ad_protocol_version a \<le> 65535 \<and> ad_ttl_secs a \<le> u64_max \<and> ad_presence a \<le> 255"

definition advert_publish_json :: "advert \<Rightarrow> json" where
  "advert_publish_json a = JObj [(''advert'', advert_json a)]"

definition read_advert_publish :: "json \<Rightarrow> advert option" where
  "read_advert_publish j = (case struct_values [''advert''] j of Some [Some a] \<Rightarrow> read_advert a | _ \<Rightarrow> None)"

record wire_error =
  we_code :: string
  we_detail :: string

definition wire_error_json :: "wire_error \<Rightarrow> json" where
  "wire_error_json e = JObj [(''code'', JStr (we_code e)), (''detail'', JStr (we_detail e))]"

definition read_wire_error :: "json \<Rightarrow> wire_error option" where
  "read_wire_error j = (case struct_values [''code'', ''detail''] j of
       Some [c, d] \<Rightarrow> (case (str_field c, str_field d) of
           (Some c', Some d') \<Rightarrow> Some \<lparr>we_code = c', we_detail = d'\<rparr> | _ \<Rightarrow> None)
     | _ \<Rightarrow> None)"

record presence_event =
  pe_target_fp :: bytes
  pe_online :: bool

definition presence_event_json :: "presence_event \<Rightarrow> json" where
  "presence_event_json e = JObj [(''target_fp'', JBytes (pe_target_fp e)), (''online'', JBool (pe_online e))]"

definition read_presence_event :: "json \<Rightarrow> presence_event option" where
  "read_presence_event j = (case struct_values [''target_fp'', ''online''] j of
       Some [Some t, Some b] \<Rightarrow> (case (as_array 32 t, as_bool b) of
           (Some t', Some b') \<Rightarrow> Some \<lparr>pe_target_fp = t', pe_online = b'\<rparr> | _ \<Rightarrow> None)
     | _ \<Rightarrow> None)"

record relay_data =
  rd_pair_id :: nat
  rd_seq :: nat
  rd_frame :: bytes

definition relay_data_json :: "relay_data \<Rightarrow> json" where
  "relay_data_json d = JObj [(''pair_id'', JNum (int (rd_pair_id d))), (''seq'', JNum (int (rd_seq d))), (''frame'', JBytes (rd_frame d))]"

definition read_relay_data :: "json \<Rightarrow> relay_data option" where
  "read_relay_data j = (case struct_values [''pair_id'', ''seq'', ''frame''] j of
       Some [Some p, Some s, Some f] \<Rightarrow> (case (as_unsigned u64_max p, as_unsigned u64_max s, as_vec f) of
           (Some p', Some s', Some f') \<Rightarrow> Some \<lparr>rd_pair_id = p', rd_seq = s', rd_frame = f'\<rparr> | _ \<Rightarrow> None)
     | _ \<Rightarrow> None)"

record relay_data_ack =
  ra_pair_id :: nat
  ra_seq :: nat

definition relay_ack_json :: "relay_data_ack \<Rightarrow> json" where
  "relay_ack_json a = JObj [(''pair_id'', JNum (int (ra_pair_id a))), (''seq'', JNum (int (ra_seq a)))]"

definition read_relay_ack :: "json \<Rightarrow> relay_data_ack option" where
  "read_relay_ack j = (case struct_values [''pair_id'', ''seq''] j of
       Some [Some p, Some s] \<Rightarrow> (case (as_unsigned u64_max p, as_unsigned u64_max s) of
           (Some p', Some s') \<Rightarrow> Some \<lparr>ra_pair_id = p', ra_seq = s'\<rparr> | _ \<Rightarrow> None)
     | _ \<Rightarrow> None)"

lemmas payload_read_defs = read_target_def target_json_def read_pair_def pair_json_def read_inbox_push_def inbox_push_json_def
  read_advert_def advert_json_def read_advert_publish_def advert_publish_json_def read_wire_error_def wire_error_json_def
  read_presence_event_def presence_event_json_def read_relay_data_def relay_data_json_def read_relay_ack_def relay_ack_json_def
  struct_values_def struct_field_def str_field_def as_str_def as_bool_def

lemma as_strs_JStr [simp]: "as_strs (JArr (map JStr ss)) = Some ss"
  using those_map_Some [of ss as_str JStr] by (simp add: as_strs_def as_str_def)

lemma relay_payloads_read:
  "length fp = 32 \<Longrightarrow> read_target (target_json fp) = Some fp"
  "i \<le> u64_max \<Longrightarrow> read_pair (pair_json i) = Some i"
  "length (ip_target_fp p) = 32 \<Longrightarrow> read_inbox_push (inbox_push_json p) = Some p"
  "advert_wf a \<Longrightarrow> read_advert_publish (advert_publish_json a) = Some a"
  "read_wire_error (wire_error_json e) = Some e"
  "length (pe_target_fp v) = 32 \<Longrightarrow> read_presence_event (presence_event_json v) = Some v"
  "rd_pair_id d \<le> u64_max \<Longrightarrow> rd_seq d \<le> u64_max \<Longrightarrow> read_relay_data (relay_data_json d) = Some d"
  "ra_pair_id k \<le> u64_max \<Longrightarrow> ra_seq k \<le> u64_max \<Longrightarrow> read_relay_ack (relay_ack_json k) = Some k"
  by (simp_all add: payload_read_defs advert_wf_def)

end
