(* ===== verification/Common_Io.thy ===== *)
theory Common_Io
  imports Wire_Bytes
begin

text \<open>
  What the tools of the suite share (\<open>src/origin-common\<close>): writing a file in one step
  (\<open>io.rs\<close>) and the binary envelope (\<open>envelope.rs\<close>, \<open>tier_ext.rs\<close>). The file system is a
  state whose every operation may fail; a failed write may leave any part of the data.
\<close>

section \<open>The file system\<close>

text \<open>
  \<open>de_fault n\<close> is the error of the n-th operation, \<open>de_torn n\<close> how much of it was done
  all the same, \<open>de_nanos n\<close> the clock when it is read as n-th operation.
\<close>

record disk_env =
  de_fault :: "nat \<Rightarrow> string option"
  de_torn :: "nat \<Rightarrow> nat"
  de_nanos :: "nat \<Rightarrow> nat"
  de_pid :: nat
  de_temp_dir :: string

record disk =
  dk_files :: "string \<Rightarrow> bytes option"
  dk_dirs :: "string set"
  dk_tick :: nat

definition disk_op :: "disk_env \<Rightarrow> (disk \<Rightarrow> disk) \<Rightarrow> (nat \<Rightarrow> disk \<Rightarrow> disk) \<Rightarrow> (disk, string, unit) se" where
  "disk_op E ok bad d =
     (let n = dk_tick d; d' = d\<lparr>dk_tick := n + 1\<rparr> in
      case de_fault E n of None \<Rightarrow> (Inr (), ok d') | Some e \<Rightarrow> (Inl e, bad (de_torn E n) d'))"

definition put_file :: "string \<Rightarrow> bytes option \<Rightarrow> disk \<Rightarrow> disk" where
  "put_file f c d = d\<lparr>dk_files := (dk_files d)(f := c)\<rparr>"

definition disk_create :: "disk_env \<Rightarrow> string \<Rightarrow> (disk, string, unit) se" where
  "disk_create E f = disk_op E (put_file f (Some [])) (\<lambda>_ d. d)"

definition disk_append :: "bytes \<Rightarrow> string \<Rightarrow> disk \<Rightarrow> disk" where
  "disk_append c f d = put_file f (case dk_files d f of None \<Rightarrow> Some c | Some old \<Rightarrow> Some (old @ c)) d"

definition disk_write_all :: "disk_env \<Rightarrow> string \<Rightarrow> bytes \<Rightarrow> (disk, string, unit) se" where
  "disk_write_all E f c = disk_op E (disk_append c f) (\<lambda>torn. disk_append (take torn c) f)"

definition disk_rename :: "disk_env \<Rightarrow> string \<Rightarrow> string \<Rightarrow> (disk, string, unit) se" where
  "disk_rename E a b = disk_op E (\<lambda>d. put_file a None (put_file b (dk_files d a) d)) (\<lambda>_ d. d)"

text \<open>\<open>fs::read\<close>: \<open>None\<close> is the error kind \<open>NotFound\<close>.\<close>

definition disk_read :: "disk_env \<Rightarrow> string \<Rightarrow> (disk, string, bytes option) se" where
  "disk_read E f d = (let n = dk_tick d; d' = d\<lparr>dk_tick := n + 1\<rparr> in
     case dk_files d f of None \<Rightarrow> (Inr None, d')
     | Some c \<Rightarrow> (case de_fault E n of None \<Rightarrow> (Inr (Some c), d') | Some e \<Rightarrow> (Inl e, d')))"

text \<open>\<open>Path::parent\<close> of a path without a trailing slash, and the directories above one.\<close>

definition path_parent :: "string \<Rightarrow> string option" where
  "path_parent p = (if p = [] \<or> p = ''/'' then None
     else case rsplit_once (CHR ''/'') p of None \<Rightarrow> Some [] | Some (a, _) \<Rightarrow> Some (if a = [] then ''/'' else a))"

definition path_join :: "string \<Rightarrow> string \<Rightarrow> string" where
  "path_join d f = (if d = [] \<or> last d = CHR ''/'' then d @ f else d @ ''/'' @ f)"

definition path_ancestors :: "string \<Rightarrow> string list" where
  "path_ancestors p = filter (\<lambda>q. q \<noteq> [] \<and> (q = p \<or> p ! length q = CHR ''/'')) (prefixes p)"

definition disk_create_dir_all :: "disk_env \<Rightarrow> string \<Rightarrow> (disk, string, unit) se" where
  "disk_create_dir_all E p = disk_op E (\<lambda>d. d\<lparr>dk_dirs := dk_dirs d \<union> set (path_ancestors p)\<rparr>)
     (\<lambda>torn d. d\<lparr>dk_dirs := dk_dirs d \<union> set (take torn (path_ancestors p))\<rparr>)"

definition path_exists :: "string \<Rightarrow> disk \<Rightarrow> bool" where
  "path_exists p d \<longleftrightarrow> p \<in> dk_dirs d \<or> dk_files d p \<noteq> None"

section \<open>Atomic writes\<close>

definition temp_name :: "disk_env \<Rightarrow> string option \<Rightarrow> nat \<Rightarrow> string" where
  "temp_name E dir n = path_join (case dir of Some d \<Rightarrow> d | None \<Rightarrow> de_temp_dir E)
     (''.tmp-'' @ dec (de_pid E) @ ''-'' @ dec (de_nanos E n))"

definition tempfile_path :: "disk_env \<Rightarrow> string option \<Rightarrow> (disk, string, string) se" where
  "tempfile_path E dir d = (Inr (temp_name E dir (dk_tick d)), d\<lparr>dk_tick := dk_tick d + 1\<rparr>)"

definition real_parent :: "string \<Rightarrow> string option" where
  "real_parent path = (case path_parent path of Some p \<Rightarrow> if p = [] then None else Some p | None \<Rightarrow> None)"

definition ensure_dir :: "disk_env \<Rightarrow> string option \<Rightarrow> (disk, string, unit) se" where
  "ensure_dir E dir = (case dir of None \<Rightarrow> ret ()
     | Some p \<Rightarrow> bnd (gets (path_exists p)) (\<lambda>there. if there then ret ()
         else map_err (\<lambda>e. ''cannot create directory '' @ [CHR 0x27] @ p @ [CHR 0x27] @ '': '' @ e) (disk_create_dir_all E p)))"

definition atomic_write :: "disk_env \<Rightarrow> string \<Rightarrow> bytes \<Rightarrow> (disk, string, unit) se" where
  "atomic_write E path contents =
     seqM (ensure_dir E (real_parent path))
     (bnd (tempfile_path E (real_parent path)) (\<lambda>tmp.
      seqM (map_err (\<lambda>e. ''cannot create temp file '' @ [CHR 0x27] @ tmp @ [CHR 0x27] @ '': '' @ e) (disk_create E tmp))
      (seqM (map_err (\<lambda>e. ''cannot write temp file: '' @ e) (disk_write_all E tmp contents))
      (seqM (map_err (\<lambda>e. ''cannot flush temp file: '' @ e) (disk_op E (\<lambda>d. d) (\<lambda>_ d. d)))
      (map_err (\<lambda>e. ''cannot rename temp file to '' @ [CHR 0x27] @ path @ [CHR 0x27] @ '': '' @ e) (disk_rename E tmp path))))))"

text \<open>\<open>write_output\<close> to a path: \<open>fs::write\<close> truncates the file, then writes it.\<close>

definition write_output :: "disk_env \<Rightarrow> string \<Rightarrow> bytes \<Rightarrow> (disk, string, unit) se" where
  "write_output E p data =
     seqM (case path_parent p of None \<Rightarrow> ret ()
       | Some parent \<Rightarrow> bnd (gets (path_exists parent)) (\<lambda>there. if there then ret ()
           else map_err (\<lambda>e. ''cannot create directory '' @ [CHR 0x27] @ parent @ [CHR 0x27] @ '': '' @ e) (disk_create_dir_all E parent)))
     (map_err (\<lambda>e. ''cannot write '' @ [CHR 0x27] @ p @ [CHR 0x27] @ '': '' @ e)
        (seqM (disk_create E p) (disk_write_all E p data)))"

lemmas disk_ops = disk_create_def disk_write_all_def disk_rename_def disk_create_dir_all_def disk_op_def
  put_file_def disk_append_def tempfile_path_def

lemma ensure_dir_files: "ensure_dir E dir d = (r, t) \<Longrightarrow> dk_files t = dk_files d"
  by (auto simp: ensure_dir_def se_defs map_err_def disk_ops Let_def split: option.splits if_splits prod.splits sum.splits)

text \<open>The part of \<open>atomic_write\<close> after the directory is there.\<close>

lemma temp_then_rename:
  assumes "tmp \<noteq> path"
    and "seqM (map_err a (disk_create E tmp)) (seqM (map_err b (disk_write_all E tmp c))
      (seqM (map_err g (disk_op E (\<lambda>d. d) (\<lambda>_ d. d))) (map_err h (disk_rename E tmp path)))) d = (r, t)"
  shows "dk_files t path = (case r of Inl e \<Rightarrow> dk_files d path | Inr _ \<Rightarrow> Some c)"
    and "f \<noteq> path \<Longrightarrow> f \<noteq> tmp \<Longrightarrow> dk_files t f = dk_files d f"
    and "r = Inr u \<Longrightarrow> dk_files t tmp = None"
  using assms by (auto simp: se_defs map_err_def disk_ops Let_def split: option.splits prod.splits sum.splits)

lemma atomic_write_outcome:
  assumes "atomic_write E path contents d = (r, t)" and "\<And>n. temp_name E (real_parent path) n \<noteq> path"
  shows "dk_files t path = (case r of Inl e \<Rightarrow> dk_files d path | Inr _ \<Rightarrow> Some contents) \<and>
    (\<exists>n. (\<forall>f. f \<noteq> path \<and> f \<noteq> temp_name E (real_parent path) n \<longrightarrow> dk_files t f = dk_files d f) \<and>
         (r = Inr () \<longrightarrow> dk_files t (temp_name E (real_parent path) n) = None))"
proof -
  obtain q u where dir: "ensure_dir E (real_parent path) d = (q, u)" by fastforce
  note same = ensure_dir_files [OF this]
  show ?thesis
  proof (cases q)
    case (Inl e)
    with assms(1) dir have "r = Inl e \<and> t = u" by (simp add: atomic_write_def seqM_def bnd_def)
    with same show ?thesis by auto
  next
    case (Inr x)
    let ?tmp = "temp_name E (real_parent path) (dk_tick u)"
    note run = assms(1) [unfolded atomic_write_def seqM_def bnd_def [of "ensure_dir E (real_parent path)"] dir Inr
        prod.case sum.case bnd_def [of "tempfile_path E (real_parent path)"] tempfile_path_def, folded seqM_def]
    note thms = temp_then_rename [OF assms(2) [of "dk_tick u"] run]
    have "\<forall>f. f \<noteq> path \<and> f \<noteq> ?tmp \<longrightarrow> dk_files t f = dk_files d f" using thms(2) same by auto
    moreover have "r = Inr () \<longrightarrow> dk_files t ?tmp = None" using thms(3) by blast
    moreover have "dk_files t path = (case r of Inl e \<Rightarrow> dk_files d path | Inr _ \<Rightarrow> Some contents)"
      using thms(1) same by (simp split: sum.splits)
    ultimately show ?thesis by blast
  qed
qed

text \<open>
  C27: \<open>atomic_write\<close> replaces a file completely or not at all, whichever of its steps
  fails and however much of a failed write reached the disk: after an error the file is
  as it was, after success it has exactly the new contents and no temporary file is
  left. No other file is touched, except that the temporary one survives an error.
\<close>

theorem atomic_write_whole:
  assumes "atomic_write E path contents d = (r, t)" and "\<And>n. temp_name E (real_parent path) n \<noteq> path"
  shows "dk_files t path = (case r of Inl e \<Rightarrow> dk_files d path | Inr _ \<Rightarrow> Some contents) \<and>
    (\<exists>n. (\<forall>f. f \<noteq> path \<and> f \<noteq> temp_name E (real_parent path) n \<longrightarrow> dk_files t f = dk_files d f) \<and>
         (r = Inr () \<longrightarrow> dk_files t (temp_name E (real_parent path) n) = None))"
  using assms by (rule atomic_write_outcome)

definition example_disk_env :: disk_env where
  "example_disk_env = \<lparr>de_fault = (\<lambda>n. if n = 2 then Some ''disk full'' else None), de_torn = (\<lambda>n. 1), de_nanos = (\<lambda>n. n), de_pid = 7, de_temp_dir = ''/tmp''\<rparr>"

theorem atomic_write_whole_witness:
  "\<exists>t. atomic_write example_disk_env ''/v/k'' [1, 2] \<lparr>dk_files = [''/v/k'' \<mapsto> [9]], dk_dirs = {''/v''}, dk_tick = 0\<rparr>
       = (Inl ''cannot write temp file: disk full'', t) \<and> dk_files t ''/v/k'' = Some [9]"
proof -
  let ?d = "\<lparr>dk_files = [''/v/k'' \<mapsto> [9]], dk_dirs = {''/v''}, dk_tick = 0\<rparr>"
  have par: "real_parent ''/v/k'' = Some ''/v''" by code_simp
  obtain r t where run: "atomic_write example_disk_env ''/v/k'' [1, 2] ?d = (r, t)" by fastforce
  moreover have "r = Inl ''cannot write temp file: disk full''"
    using run by (auto simp: atomic_write_def ensure_dir_def path_exists_def par se_defs map_err_def disk_ops example_disk_env_def)
  ultimately show ?thesis
    using atomic_write_whole [OF run] by (simp add: par temp_name_def path_join_def example_disk_env_def)
qed


end
