(* ===== verification/Network_Identity.thy ===== *)
theory Network_Identity
  imports Network_Payloads Common_Io
begin

text \<open>
  Addresses (\<open>address.rs\<close>), identities and AUTH claims (\<open>identity.rs\<close>) and the tracker of
  handshake replays (\<open>replay.rs\<close>) of \<open>origin-network\<close>.
\<close>

section \<open>Addresses\<close>

type_synonym fingerprint = bytes

definition SCHEME :: string where
  "SCHEME = ''origin''"

definition fingerprint_of_seed :: "net_env \<Rightarrow> bytes \<Rightarrow> fingerprint" where
  "fingerprint_of_seed NE seed = cc_sha3 (ne_crypto NE) seed"

definition fingerprint_from_hex :: "net_env \<Rightarrow> string \<Rightarrow> network_error + fingerprint" where
  "fingerprint_from_hex NE s = (case hex_decode s of
       None \<Rightarrow> Inl (NetAddress (''bad hex: '' @ ne_hex_error NE s))
     | Some b \<Rightarrow> if length b \<noteq> 32 then Inl (NetAddress (''fingerprint is 32 bytes, got '' @ dec (length b)))
                else Inr b)"

definition to_hex :: "fingerprint \<Rightarrow> string" where
  "to_hex fp = hex_encode fp"

record origin_address =
  oa_identity :: fingerprint
  oa_device :: "nat option"
  oa_service :: "nat option"
  oa_session :: "nat option"

definition address_new :: "fingerprint \<Rightarrow> origin_address" where
  "address_new fp = \<lparr>oa_identity = fp, oa_device = None, oa_service = None, oa_session = None\<rparr>"

abbreviation quoted :: "string \<Rightarrow> string" where
  "quoted s \<equiv> CHR 0x27 # s @ [CHR 0x27]"

definition address_part :: "string \<Rightarrow> origin_address \<Rightarrow> network_error + origin_address" where
  "address_part part a =
     (if oa_device a = None then
        (case parse_unsigned (2 ^ 32 - 1) part of None \<Rightarrow> Inl (NetAddress (''bad device id '' @ quoted part))
         | Some d \<Rightarrow> Inr (a\<lparr>oa_device := Some d\<rparr>))
      else if oa_service a = None then
        (case parse_unsigned (2 ^ 32 - 1) part of None \<Rightarrow> Inl (NetAddress (''bad service port '' @ quoted part))
         | Some p \<Rightarrow> Inr (a\<lparr>oa_service := Some p\<rparr>))
      else if oa_session a = None then
        (case parse_unsigned u64_max part of None \<Rightarrow> Inl (NetAddress (''bad session id '' @ quoted part))
         | Some s \<Rightarrow> Inr (a\<lparr>oa_session := Some s\<rparr>))
      else Inl (NetAddress (''too many address components: '' @ quoted part)))"

fun address_parts :: "string list \<Rightarrow> origin_address \<Rightarrow> network_error + origin_address" where
  "address_parts [] a = Inr a"
| "address_parts (p # ps) a = and_then (address_part p a) (address_parts ps)"

definition address_parse :: "net_env \<Rightarrow> string \<Rightarrow> network_error + origin_address" where
  "address_parse NE s = (case strip_prefix (SCHEME @ '':'') s of
       None \<Rightarrow> Inl (NetAddress (''missing '' @ quoted (SCHEME @ '':'') @ '' scheme prefix''))
     | Some rest \<Rightarrow> if rest = [] then Inl (NetAddress ''empty address body'')
         else (case split_on (CHR ''/'') rest of
             [] \<Rightarrow> Inl (NetAddress ''empty address body'')
           | first # parts \<Rightarrow> and_then (fingerprint_from_hex NE first) (\<lambda>fp. address_parts parts (address_new fp))))"

definition opt_part :: "nat option \<Rightarrow> string" where
  "opt_part x = (case x of None \<Rightarrow> [] | Some n \<Rightarrow> CHR ''/'' # dec n)"

definition address_display :: "origin_address \<Rightarrow> string" where
  "address_display a = SCHEME @ '':'' @ to_hex (oa_identity a) @ opt_part (oa_device a) @ opt_part (oa_service a) @ opt_part (oa_session a)"

section \<open>Identities\<close>

definition TRANSPORT_KEY_DOMAIN :: string where "TRANSPORT_KEY_DOMAIN = ''origin-network:transport:v1''"
definition IDENTITY_KEY_DOMAIN :: string where "IDENTITY_KEY_DOMAIN = ''origin-identity:v1''"
definition PROTOCOL_VERSION :: nat where "PROTOCOL_VERSION = 1"

definition derive_transport_secret :: "net_env \<Rightarrow> bytes \<Rightarrow> nat \<Rightarrow> network_error + bytes" where
  "derive_transport_secret NE seed device_index =
     (case ne_derive_key NE seed TRANSPORT_KEY_DOMAIN (dec device_index) 32 of
        None \<Rightarrow> Inl (NetCrypto ''transport key derivation failed'')
      | Some derived \<Rightarrow> (case ne_key_pair NE (take 32 derived) of
            Inl e \<Rightarrow> Inl (NetCrypto (''invalid transport secret: '' @ e)) | Inr pair \<Rightarrow> Inr pair))"

definition transport_public_key :: "net_env \<Rightarrow> bytes \<Rightarrow> bytes" where
  "transport_public_key NE secret = cc_public (ne_crypto NE) secret"

definition hybrid_sig_to_wire :: "bytes \<times> bytes \<Rightarrow> bytes" where
  "hybrid_sig_to_wire sig = be_bytes 4 (length (snd sig)) @ fst sig @ snd sig"

definition hybrid_sig_from_wire :: "net_env \<Rightarrow> bytes \<Rightarrow> network_error + bytes \<times> bytes" where
  "hybrid_sig_from_wire NE raw =
     (let min = 4 + 64 in
      if length raw < min
      then Inl (NetAuth (''signature too short: '' @ dec (length raw) @ '' bytes (min '' @ dec min @ '')''))
      else let falcon_len = of_be_bytes (take 4 raw) in
        if falcon_len > ne_falcon_max NE
        then Inl (NetAuth (''falcon signature length '' @ dec falcon_len @ '' exceeds max '' @ dec (ne_falcon_max NE)))
        else if length raw \<noteq> min + falcon_len
        then Inl (NetAuth (''signature length mismatch: header says '' @ dec falcon_len @ '' falcon bytes, total '' @ dec (length raw)))
        else let ed = take 64 (drop 4 raw); falcon = drop 68 raw in
          (case ne_ed_sig NE ed of Inl e \<Rightarrow> Inl (NetAuth (''bad ed25519 signature: '' @ e))
           | Inr _ \<Rightarrow> (case ne_falcon_sig NE falcon of Inl e \<Rightarrow> Inl (NetAuth (''bad falcon signature: '' @ e))
               | Inr _ \<Rightarrow> Inr (ed, falcon))))"

text \<open>The bytes whose SHA3-256 digest is signed.\<close>

definition auth_preimage :: "fingerprint \<Rightarrow> bytes \<Rightarrow> bytes \<Rightarrow> fingerprint \<Rightarrow> bytes \<Rightarrow> bytes" where
  "auth_preimage fp x25519_pk nonce peer_fp transcript =
     str_bytes ''origin-network:auth-claim:v1'' @ be_bytes 2 PROTOCOL_VERSION @ fp @ x25519_pk @ nonce @ peer_fp @ transcript"

definition auth_message :: "net_env \<Rightarrow> fingerprint \<Rightarrow> bytes \<Rightarrow> bytes \<Rightarrow> fingerprint \<Rightarrow> bytes \<Rightarrow> bytes" where
  "auth_message NE fp x25519_pk nonce peer_fp transcript =
     cc_sha3 (ne_crypto NE) (auth_preimage fp x25519_pk nonce peer_fp transcript)"

definition sign_auth_claim :: "net_env \<Rightarrow> nat \<Rightarrow> bytes \<Rightarrow> nat \<Rightarrow> fingerprint \<Rightarrow> bytes \<Rightarrow> network_error + auth_claim" where
  "sign_auth_claim NE draw seed device_index peer_fp transcript =
     (case ne_bundle NE seed IDENTITY_KEY_DOMAIN of
        Inl e \<Rightarrow> Inl (NetAuth (''identity bundle: '' @ e))
      | Inr bundle \<Rightarrow> and_then (derive_transport_secret NE seed device_index) (\<lambda>secret.
          case ne_random NE draw 16 of Inl e \<Rightarrow> Inl (NetCrypto e)
          | Inr nonce \<Rightarrow>
            (let x25519_pk = transport_public_key NE secret; fp = fingerprint_of_seed NE seed in
             case ne_sign NE bundle (auth_message NE fp x25519_pk nonce peer_fp transcript) of
               Inl e \<Rightarrow> Inl (NetAuth (''signing failed: '' @ e))
             | Inr sig \<Rightarrow> Inr \<lparr>ac_fingerprint = fp, ac_x25519_pk = x25519_pk, ac_hybrid_signature = hybrid_sig_to_wire sig,
                 ac_protocol_version = PROTOCOL_VERSION, ac_nonce = nonce\<rparr>)))"

record peer_keys =
  pk_fingerprint :: fingerprint
  pk_device_index :: nat
  pk_ed25519 :: bytes
  pk_falcon :: bytes
  pk_transport :: bytes

definition peer_keys_from_seed :: "net_env \<Rightarrow> bytes \<Rightarrow> nat \<Rightarrow> network_error + peer_keys" where
  "peer_keys_from_seed NE seed device_index =
     (case ne_bundle NE seed IDENTITY_KEY_DOMAIN of
        Inl e \<Rightarrow> Inl (NetAuth (''identity bundle: '' @ e))
      | Inr bundle \<Rightarrow> and_then (derive_transport_secret NE seed device_index) (\<lambda>secret.
          Inr \<lparr>pk_fingerprint = fingerprint_of_seed NE seed, pk_device_index = device_index,
               pk_ed25519 = ne_ed_pk NE bundle, pk_falcon = ne_falcon_pk NE bundle,
               pk_transport = transport_public_key NE secret\<rparr>))"

definition transport_pk_bytes :: "peer_keys \<Rightarrow> network_error + bytes" where
  "transport_pk_bytes k = (if length (pk_transport k) = 32 then Inr (pk_transport k)
     else Inl (NetAuth ''bad transport key length in peer record''))"

definition verify_auth_claim :: "net_env \<Rightarrow> peer_keys \<Rightarrow> auth_claim \<Rightarrow> fingerprint \<Rightarrow> bytes \<Rightarrow> network_error + unit" where
  "verify_auth_claim NE peer claim peer_fp transcript =
     (if ac_fingerprint claim \<noteq> pk_fingerprint peer then Inl (NetAuth ''fingerprint mismatch with peer record'')
      else if ac_protocol_version claim \<noteq> PROTOCOL_VERSION
      then Inl (NetAuth (''unsupported protocol version '' @ dec (ac_protocol_version claim)))
      else if length (pk_ed25519 peer) \<noteq> 32 then Inl (NetAuth ''bad ed25519 public key length in peer record'')
      else (case ne_ed_key NE (pk_ed25519 peer) of Inl e \<Rightarrow> Inl (NetAuth (''bad ed25519 public key: '' @ e))
        | Inr _ \<Rightarrow> (case ne_falcon_key NE (pk_falcon peer) of Inl e \<Rightarrow> Inl (NetAuth (''bad falcon public key: '' @ e))
          | Inr _ \<Rightarrow> and_then (hybrid_sig_from_wire NE (ac_hybrid_signature claim)) (\<lambda>sig.
              if ne_verify NE (pk_ed25519 peer) (pk_falcon peer)
                   (auth_message NE (ac_fingerprint claim) (ac_x25519_pk claim) (ac_nonce claim) peer_fp transcript) sig
              then Inr () else Inl (NetAuth ''hybrid signature verification failed'')))))"


section \<open>The handshake replay tracker\<close>

definition REPLAY_NONCE_LEN :: nat where "REPLAY_NONCE_LEN = 8"
definition REPLAY_CAP :: nat where "REPLAY_CAP = 1048576"
definition REPLAY_MAGIC :: bytes where "REPLAY_MAGIC = str_bytes ''ONRP''"
definition REPLAY_FORMAT_VERSION :: byte where "REPLAY_FORMAT_VERSION = 1"

record replay_tracker =
  rt_seen :: "bytes set"
  rt_order :: "bytes list"
  rt_cap :: nat

definition tracker_new :: replay_tracker where
  "tracker_new = \<lparr>rt_seen = {}, rt_order = [], rt_cap = REPLAY_CAP\<rparr>"

fun evict_oldest :: "nat \<Rightarrow> bytes set \<Rightarrow> bytes list \<Rightarrow> bytes set \<times> bytes list" where
  "evict_oldest cap seen [] = (seen, [])"
| "evict_oldest cap seen (old # order) =
     (if length (old # order) > cap
      then evict_oldest cap (if old \<in> set order then seen else seen - {old}) order
      else (seen, old # order))"

definition check_and_track :: "bytes \<Rightarrow> replay_tracker \<Rightarrow> bool \<times> replay_tracker" where
  "check_and_track frame t =
     (if length frame < REPLAY_NONCE_LEN then (True, t)
      else let nonce = take REPLAY_NONCE_LEN frame in
        if nonce \<in> rt_seen t then (False, t)
        else case evict_oldest (rt_cap t) (insert nonce (rt_seen t)) (rt_order t @ [nonce]) of
          (seen, order) \<Rightarrow> (True, t\<lparr>rt_seen := seen, rt_order := order\<rparr>))"

text \<open>The file of a tracker. \<open>enum\<close> lists a hash set in the order it happens to iterate.\<close>

definition tracker_bytes :: "(bytes set \<Rightarrow> bytes list) \<Rightarrow> replay_tracker \<Rightarrow> bytes" where
  "tracker_bytes enum t = REPLAY_MAGIC @ REPLAY_FORMAT_VERSION # concat (enum (rt_seen t))"

definition tracker_save ::
  "disk_env \<Rightarrow> (bytes set \<Rightarrow> bytes list) \<Rightarrow> string \<Rightarrow> replay_tracker \<Rightarrow> (disk, network_error, unit) se" where
  "tracker_save E enum path t =
     map_err (\<lambda>e. NetTransport (''replay state save: '' @ e)) (atomic_write E path (tracker_bytes enum t))"

definition tracker_of_bytes :: "bytes \<Rightarrow> network_error + replay_tracker" where
  "tracker_of_bytes bs =
     (if length bs < 5 then Inl (NetTransport ''replay state truncated'')
      else if take 4 bs \<noteq> REPLAY_MAGIC then Inl (NetTransport ''bad replay state magic'')
      else if bs ! 4 \<noteq> REPLAY_FORMAT_VERSION
      then Inl (NetTransport (''unknown replay state version '' @ dec (unat (bs ! 4))))
      else let body = drop 5 bs in
        if length body mod REPLAY_NONCE_LEN \<noteq> 0 then Inl (NetTransport ''replay state body misaligned'')
        else Inr \<lparr>rt_seen = set (chunks_exact REPLAY_NONCE_LEN body), rt_order = chunks_exact REPLAY_NONCE_LEN body, rt_cap = REPLAY_CAP\<rparr>)"

definition tracker_load :: "disk_env \<Rightarrow> string \<Rightarrow> (disk, network_error, replay_tracker) se" where
  "tracker_load E path =
     bnd (map_err (\<lambda>e. NetTransport (''replay state read: '' @ e)) (disk_read E path)) (\<lambda>file.
       case file of None \<Rightarrow> ret tracker_new | Some bs \<Rightarrow> lift (tracker_of_bytes bs))"

section \<open>Addresses read back\<close>

definition address_wf :: "origin_address \<Rightarrow> bool" where
  "address_wf a \<longleftrightarrow> length (oa_identity a) = 32 \<and> pred_option (\<lambda>n. n < 2 ^ 32) (oa_device a) \<and>
     pred_option (\<lambda>n. n < 2 ^ 32) (oa_service a) \<and> pred_option (\<lambda>n. n < 2 ^ 64) (oa_session a)"

text \<open>No component is missing before one that is there.\<close>

definition gapless :: "origin_address \<Rightarrow> bool" where
  "gapless a \<longleftrightarrow> (oa_service a \<noteq> None \<longrightarrow> oa_device a \<noteq> None) \<and> (oa_session a \<noteq> None \<longrightarrow> oa_service a \<noteq> None)"

definition shown_parts :: "origin_address \<Rightarrow> nat list" where
  "shown_parts a = List.map_filter (\<lambda>x. x) [oa_device a, oa_service a, oa_session a]"

lemma hex_no_slash: "CHR ''/'' \<notin> set (hex_encode b)"
proof -
  have digit: "CHR ''/'' \<noteq> hex_digit k" if "k < 16" for k
  proof -
    have "\<forall>i \<in> set [0..<16]. CHR ''/'' \<noteq> hex_digit i" by code_simp
    with that show ?thesis by simp
  qed
  have "unat x div 16 < 16" for x :: byte
  proof -
    have "unat x < 2 ^ LENGTH(8)" by (rule unsigned_less)
    then show ?thesis by simp
  qed
  then show ?thesis using digit by (simp add: hex_encode_def)
qed

lemma split_shown:
  "split_on (CHR ''/'') (hex_encode b @ concat (map (\<lambda>n. CHR ''/'' # dec n) ns)) = hex_encode b # map dec ns"
proof -
  have tail: "split_on (CHR ''/'') (s @ concat (map (\<lambda>n. CHR ''/'' # dec n) ns)) = s # map dec ns" if "CHR ''/'' \<notin> set s" for s
    using that
  proof (induction ns arbitrary: s)
    case Nil
    then show ?case by (simp add: split_on_none)
  next
    case (Cons n ns)
    have "CHR ''/'' \<notin> set (dec n)" by (rule dec_no_char) code_simp
    with Cons show ?case by (simp add: split_on_one)
  qed
  show ?thesis by (rule tail) (rule hex_no_slash)
qed

lemma display_parts:
  "address_display a = ''origin:'' @ hex_encode (oa_identity a) @ concat (map (\<lambda>n. CHR ''/'' # dec n) (shown_parts a))"
  by (simp add: address_display_def SCHEME_def to_hex_def opt_part_def shown_parts_def map_filter_simps split: option.splits)

lemma parse_display:
  "length (oa_identity a) = 32 \<Longrightarrow>
   address_parse NE (address_display a) = address_parts (map dec (shown_parts a)) (address_new (oa_identity a))"
proof -
  assume fp: "length (oa_identity a) = 32"
  then have ne: "hex_encode (oa_identity a) \<noteq> []" by (cases "oa_identity a") (auto simp: hex_encode_def)
  have "strip_prefix (SCHEME @ '':'') (address_display a)
      = Some (hex_encode (oa_identity a) @ concat (map (\<lambda>n. CHR ''/'' # dec n) (shown_parts a)))"
    unfolding display_parts SCHEME_def strip_prefix_Some by simp
  with fp ne show ?thesis
    by (simp add: address_parse_def split_shown fingerprint_from_hex_def and_then_def)
qed

text \<open>
  An address printed and parsed again is the same address exactly when its components
  have no gap: an address with a service but no device, which the type allows and the
  builder functions create, prints like one with a device and is read back as another
  address or refused.
\<close>

theorem address_roundtrip_iff:
  assumes "address_wf a"
  shows "address_parse NE (address_display a) = Inr a \<longleftrightarrow> gapless a"
proof -
  obtain fp d p s where a: "a = \<lparr>oa_identity = fp, oa_device = d, oa_service = p, oa_session = s\<rparr>" by (cases a)
  have num: "n < 4294967296 \<Longrightarrow> parse_unsigned 4294967295 (dec n) = Some n"
    "n < 18446744073709551616 \<Longrightarrow> parse_unsigned u64_max (dec n) = Some n" for n
    by (auto intro!: parse_unsigned_dec simp: u64_max_def)
  show ?thesis
    using assms parse_display [of a NE]
    by (cases d; cases p; cases s) (auto simp: a address_wf_def gapless_def shown_parts_def map_filter_simps address_part_def
        address_new_def and_then_def num split: option.splits sum.splits)
qed

theorem address_roundtrip_iff_witness:
  "\<forall>NE. address_parse NE (address_display \<lparr>oa_identity = replicate 32 1, oa_device = None, oa_service = Some 443, oa_session = None\<rparr>)
     \<noteq> Inr \<lparr>oa_identity = replicate 32 1, oa_device = None, oa_service = Some 443, oa_session = None\<rparr>"
  by (intro allI, subst address_roundtrip_iff) (simp_all add: address_wf_def gapless_def)

section \<open>A claim fits one handshake\<close>

text \<open>What is used of the hybrid signature scheme: signatures have the sizes the wire format
  expects, the keys of a bundle are valid, and a signature verifies for the signed message only.\<close>

definition sig_ok :: "net_env \<Rightarrow> bool" where
  "sig_ok NE \<longleftrightarrow> ne_falcon_max NE < 2 ^ 32 \<and>
     (\<forall>seed dom b. ne_bundle NE seed dom = Inr b \<longrightarrow> length (ne_ed_pk NE b) = 32 \<and>
        ne_ed_key NE (ne_ed_pk NE b) = Inr () \<and> ne_falcon_key NE (ne_falcon_pk NE b) = Inr () \<and>
        (\<forall>m sig. ne_sign NE b m = Inr sig \<longrightarrow> length (fst sig) = 64 \<and> length (snd sig) \<le> ne_falcon_max NE \<and>
           ne_ed_sig NE (fst sig) = Inr () \<and> ne_falcon_sig NE (snd sig) = Inr () \<and>
           (\<forall>m'. ne_verify NE (ne_ed_pk NE b) (ne_falcon_pk NE b) m' sig \<longleftrightarrow> m' = m)))"

lemma sig_wire_roundtrip:
  assumes "length (fst sig) = 64" "length (snd sig) \<le> ne_falcon_max NE" "ne_falcon_max NE < 2 ^ 32"
    "ne_ed_sig NE (fst sig) = Inr ()" "ne_falcon_sig NE (snd sig) = Inr ()"
  shows "hybrid_sig_from_wire NE (hybrid_sig_to_wire sig) = Inr sig"
proof -
  have "of_be_bytes (be_bytes 4 (length (snd sig))) = length (snd sig)"
    by (rule of_be_bytes_be_bytes) (use assms(2,3) in simp)
  moreover have "drop 68 (be_bytes 4 n @ fst sig @ snd sig) = snd sig" for n
    using assms(1) by simp
  ultimately show ?thesis
    using assms by (cases sig) (simp add: hybrid_sig_from_wire_def hybrid_sig_to_wire_def Let_def)
qed

lemma auth_preimage_inj:
  assumes "length fp = length fp'" "length pk = length pk'" "length nonce = length nonce'" "length p = length p'"
  shows "auth_preimage fp pk nonce p tr = auth_preimage fp' pk' nonce' p' tr' \<longleftrightarrow>
    fp = fp' \<and> pk = pk' \<and> nonce = nonce' \<and> p = p' \<and> tr = tr'"
  using assms by (auto simp: auth_preimage_def)

lemma claim_verify_iff:
  assumes "sig_ok NE" and "sign_auth_claim NE draw seed dev peer tr = Inr claim" and "peer_keys_from_seed NE seed dev = Inr keys"
    and "length peer = length peer'"
  shows "(verify_auth_claim NE keys claim peer' tr' = Inr () \<longleftrightarrow>
      cc_sha3 (ne_crypto NE) (auth_preimage (ac_fingerprint claim) (ac_x25519_pk claim) (ac_nonce claim) peer' tr')
      = cc_sha3 (ne_crypto NE) (auth_preimage (ac_fingerprint claim) (ac_x25519_pk claim) (ac_nonce claim) peer tr)) \<and>
    (auth_preimage (ac_fingerprint claim) (ac_x25519_pk claim) (ac_nonce claim) peer' tr'
      = auth_preimage (ac_fingerprint claim) (ac_x25519_pk claim) (ac_nonce claim) peer tr \<longleftrightarrow> peer' = peer \<and> tr' = tr)"
proof -
  obtain b secret nonce sig where parts: "ne_bundle NE seed IDENTITY_KEY_DOMAIN = Inr b"
      "derive_transport_secret NE seed dev = Inr secret"
      "ne_sign NE b (auth_message NE (fingerprint_of_seed NE seed) (transport_public_key NE secret) nonce peer tr) = Inr sig"
      "claim = \<lparr>ac_fingerprint = fingerprint_of_seed NE seed, ac_x25519_pk = transport_public_key NE secret,
         ac_hybrid_signature = hybrid_sig_to_wire sig, ac_protocol_version = PROTOCOL_VERSION, ac_nonce = nonce\<rparr>"
    using assms(2) by (auto simp: sign_auth_claim_def and_then_def Let_def split: sum.splits)
  have keys: "keys = \<lparr>pk_fingerprint = fingerprint_of_seed NE seed, pk_device_index = dev, pk_ed25519 = ne_ed_pk NE b,
      pk_falcon = ne_falcon_pk NE b, pk_transport = transport_public_key NE secret\<rparr>"
    using assms(3) parts(1,2) by (auto simp: peer_keys_from_seed_def and_then_def)
  note law = assms(1) [unfolded sig_ok_def]
  from law parts(1) have pk: "length (ne_ed_pk NE b) = 32" "ne_ed_key NE (ne_ed_pk NE b) = Inr ()"
      "ne_falcon_key NE (ne_falcon_pk NE b) = Inr ()" by blast+
  from law parts(1,3) have wire: "hybrid_sig_from_wire NE (hybrid_sig_to_wire sig) = Inr sig"
    by (intro sig_wire_roundtrip) blast+
  from law parts(1,3) have one: "ne_verify NE (ne_ed_pk NE b) (ne_falcon_pk NE b) m' sig \<longleftrightarrow>
      m' = auth_message NE (fingerprint_of_seed NE seed) (transport_public_key NE secret) nonce peer tr" for m'
    by blast
  show ?thesis
    using pk wire one assms(4) by (auto simp: parts(4) keys verify_auth_claim_def and_then_def auth_message_def auth_preimage_inj)
qed

text \<open>
  C18: A claim signed for one peer and one handshake transcript verifies against the
  signer's record for a peer and a transcript exactly when the digests of the two signed
  texts agree, and those texts are the same only for the same peer and the same
  transcript: a claim recorded from one handshake does not authenticate another
  connection, nor a connection to another relay, unless SHA3-256 collides.
\<close>

theorem claim_fits_one_handshake:
  assumes "sig_ok NE" and "sign_auth_claim NE draw seed dev peer tr = Inr claim" and "peer_keys_from_seed NE seed dev = Inr keys"
    and "length peer = length peer'"
  shows "(verify_auth_claim NE keys claim peer' tr' = Inr () \<longleftrightarrow>
      cc_sha3 (ne_crypto NE) (auth_preimage (ac_fingerprint claim) (ac_x25519_pk claim) (ac_nonce claim) peer' tr')
      = cc_sha3 (ne_crypto NE) (auth_preimage (ac_fingerprint claim) (ac_x25519_pk claim) (ac_nonce claim) peer tr)) \<and>
    (auth_preimage (ac_fingerprint claim) (ac_x25519_pk claim) (ac_nonce claim) peer' tr'
      = auth_preimage (ac_fingerprint claim) (ac_x25519_pk claim) (ac_nonce claim) peer tr \<longleftrightarrow> peer' = peer \<and> tr' = tr)"
  using assms by (rule claim_verify_iff)

section \<open>The tracker is a replay filter\<close>

definition frame_key :: "bytes \<Rightarrow> bytes option" where
  "frame_key frame = (if length frame < REPLAY_NONCE_LEN then None else Some (take REPLAY_NONCE_LEN frame))"

text \<open>A tracker remembers the latest \<open>cap\<close> nonces, oldest first.\<close>

definition tracker_holds :: "nat \<Rightarrow> replay_tracker \<Rightarrow> bytes list \<Rightarrow> bool" where
  "tracker_holds cap t ks \<longleftrightarrow> rt_cap t = cap \<and> rt_order t = rev (take cap ks) \<and> distinct (rt_order t) \<and> rt_seen t = set (rt_order t)"

lemma evict_one:
  "distinct (xs @ [k]) \<Longrightarrow> length xs \<le> cap \<Longrightarrow>
   evict_oldest cap (set (xs @ [k])) (xs @ [k]) =
     (let ys = drop (Suc (length xs) - cap) (xs @ [k]) in (set ys, ys))"
proof (cases xs)
  case (Cons x zs)
  assume d: "distinct (xs @ [k])" and l: "length xs \<le> cap"
  show ?thesis
  proof (cases "length xs = cap")
    case True
    have keep: "length ys \<le> cap \<Longrightarrow> evict_oldest cap S ys = (S, ys)" for S ys
      by (cases ys) auto
    have "insert x (insert k (set zs)) - {x} = insert k (set zs)" using d Cons by auto
    with d True Cons show ?thesis by (simp add: Let_def keep)
  next
    case False
    with l Cons show ?thesis by (simp add: Let_def)
  qed
qed (auto simp: Let_def)

lemma take_Cons_take: "take n (k # ks) = take n (k # take n ks)"
  by (cases n) auto

lemma track_old:
  assumes "tracker_holds cap t ks" and "frame_key f = Some k" and "k \<in> set (take cap ks)"
  shows "check_and_track f t = (False, t)"
proof -
  from assms(2) have "\<not> length f < REPLAY_NONCE_LEN" "take REPLAY_NONCE_LEN f = k"
    by (auto simp: frame_key_def split: if_splits)
  moreover from assms(1,3) have "k \<in> rt_seen t" by (simp add: tracker_holds_def)
  ultimately show ?thesis by (simp add: check_and_track_def)
qed

lemma track_fresh:
  assumes "tracker_holds cap t ks" and "frame_key f = Some k" and new: "k \<notin> set (take cap ks)"
  shows "\<exists>t'. check_and_track f t = (True, t') \<and> tracker_holds cap t' (k # ks)"
proof -
  from assms(2) have f: "\<not> length f < REPLAY_NONCE_LEN" "take REPLAY_NONCE_LEN f = k"
    by (auto simp: frame_key_def split: if_splits)
  from assms(1) have t: "rt_cap t = cap" "rt_order t = rev (take cap ks)" "rt_seen t = set (take cap ks)" "distinct (take cap ks)"
    by (auto simp: tracker_holds_def)
  let ?zs = "k # take cap ks"
  have "drop (length ?zs - cap) (rev ?zs) = rev (take (length ?zs - (length ?zs - cap)) ?zs)" by (rule drop_rev)
  also have "take (length ?zs - (length ?zs - cap)) ?zs = take cap ?zs" by (cases "length ?zs \<le> cap") auto
  finally have drop: "drop (Suc (length (take cap ks)) - cap) (rev (take cap ks) @ [k]) = rev (take cap ?zs)" by simp
  have "evict_oldest cap (set (rev (take cap ks) @ [k])) (rev (take cap ks) @ [k]) = (set (take cap ?zs), rev (take cap ?zs))"
    using evict_one [of "rev (take cap ks)" k cap, unfolded Let_def length_rev drop set_rev] t(4) new by simp
  then have "check_and_track f t = (True, t\<lparr>rt_seen := set (take cap ?zs), rt_order := rev (take cap ?zs)\<rparr>)"
    using f t new by (simp add: check_and_track_def Let_def)
  moreover have "distinct (take cap ?zs)" by (rule distinct_take) (use t(4) new in simp)
  moreover have "take cap ?zs = take cap (k # ks)" by (rule take_Cons_take [symmetric])
  ultimately show ?thesis using t(1) by (simp add: tracker_holds_def)
qed

interpretation tracker: replay_filter check_and_track frame_key "take cap" "tracker_holds cap" for cap
proof unfold_locales
  fix s ks f b t
  assume "tracker_holds cap s ks" "frame_key f = None" "check_and_track f s = (b, t)"
  then show "tracker_holds cap t ks" by (auto simp: frame_key_def check_and_track_def split: if_splits)
next
  fix s ks f k t
  assume h: "tracker_holds cap s ks" "frame_key f = Some k" "check_and_track f s = (True, t)"
  then have "k \<notin> set (take cap ks)" using track_old by fastforce
  with track_fresh [OF h(1,2)] h(3) show "k \<notin> set (take cap ks) \<and> tracker_holds cap t (k # ks)" by auto
next
  fix s ks f k t
  assume h: "tracker_holds cap s ks" "frame_key f = Some k" "check_and_track f s = (False, t)"
  then have "k \<in> set (take cap ks)" using track_fresh by fastforce
  with track_old [OF h(1,2)] h show "tracker_holds cap t ks" by simp
qed

lemma accepted_nonce_length: "k \<in> set (accepted_keys frame_key fs bs) \<Longrightarrow> length k = REPLAY_NONCE_LEN"
  by (auto simp: accepted_keys_def map_filter_def frame_key_def split: if_splits)

lemma tracker_bytes_read:
  assumes "\<And>S. finite S \<Longrightarrow> set (enum S) = S" and "finite (rt_seen t)" and "\<And>x. x \<in> rt_seen t \<Longrightarrow> length x = REPLAY_NONCE_LEN"
  shows "tracker_of_bytes (tracker_bytes enum t) = Inr \<lparr>rt_seen = rt_seen t, rt_order = enum (rt_seen t), rt_cap = REPLAY_CAP\<rparr>"
proof -
  have set: "set (enum (rt_seen t)) = rt_seen t" by (rule assms(1) [OF assms(2)])
  have magic: "REPLAY_MAGIC = [79, 78, 82, 80]" by code_simp
  have "length (concat (enum (rt_seen t))) mod REPLAY_NONCE_LEN = 0" using set assms(3) by (intro length_concat_aligned) blast
  moreover have "chunks_exact REPLAY_NONCE_LEN (concat (enum (rt_seen t))) = enum (rt_seen t)"
    using set assms(3) by (intro chunks_exact_concat) (auto simp: REPLAY_NONCE_LEN_def)
  ultimately show ?thesis using set
    by (simp add: tracker_of_bytes_def tracker_bytes_def magic Let_def)
qed

text \<open>
  C19: From a new tracker on, whatever frames arrive, no nonce is accepted again while it is
  among the \<open>REPLAY_CAP\<close> latest. And this survives a restart: once the tracker has been
  saved and loaded again, a handshake frame whose nonce it remembered is refused.
\<close>

theorem replay_refused_after_restart:
  assumes "\<And>S. finite S \<Longrightarrow> set (enum S) = S" and "feed check_and_track tracker_new fs = (bs, t)"
    and "tracker_save E enum path t d = (Inr (), d1)" and "tracker_load E path d1 = (Inr t2, d2)"
    and "\<And>n. temp_name E (real_parent path) n \<noteq> path"
    and "frame_key f = Some k" and "k \<in> set (take REPLAY_CAP (accepted_keys frame_key fs bs))"
  shows "never_while_kept (take REPLAY_CAP) (accepted_keys frame_key fs bs) \<and> check_and_track f t2 = (False, t2)"
proof -
  have new: "tracker_holds REPLAY_CAP tracker_new []" by (simp add: tracker_holds_def tracker_new_def)
  have h: "tracker_holds REPLAY_CAP t (accepted_keys frame_key fs bs)"
    using tracker.feed_holds [OF new _ assms(2)] by (simp add: never_while_kept_def)
  then have seen: "rt_seen t = set (take REPLAY_CAP (accepted_keys frame_key fs bs))" by (simp add: tracker_holds_def)
  have "dk_files d1 path = Some (tracker_bytes enum t)"
    using assms(3) atomic_write_outcome [OF _ assms(5)] by (fastforce simp: tracker_save_def map_err_Inr)
  with assms(4) have "tracker_of_bytes (tracker_bytes enum t) = Inr t2"
    by (auto simp: tracker_load_def disk_read_def se_Inr map_err_def Let_def lift_def split: option.splits prod.splits sum.splits)
  moreover have "finite (rt_seen t)" "\<And>x. x \<in> rt_seen t \<Longrightarrow> length x = REPLAY_NONCE_LEN"
    using seen by (auto dest!: in_set_takeD intro: accepted_nonce_length)
  ultimately have "rt_seen t2 = rt_seen t" using tracker_bytes_read [OF assms(1)] by fastforce
  with assms(6,7) seen have "check_and_track f t2 = (False, t2)"
    by (auto simp: frame_key_def check_and_track_def split: if_splits)
  moreover have "never_while_kept (take REPLAY_CAP) (accepted_keys frame_key fs bs)"
    by (rule tracker.accepted_once [OF new assms(2)])
  ultimately show ?thesis by simp
qed


end
