(* ===== verification/Network_Instance.thy ===== *)
theory Network_Instance
  imports Network_Identity "HOL-Library.List_Lexorder"
begin

text \<open>
  A concrete environment for \<open>origin-network\<close>: every external function is an executable
  one that meets the laws the theorems assume (\<open>json_ok\<close>, \<open>sig_ok\<close>, \<open>hkdf_ok\<close>, \<open>aead_ok\<close>,
  \<open>dh_ok\<close>). JSON is written in a compact self-delimiting form in place of text.
\<close>

section \<open>A code for JSON values\<close>

fun put_nat :: "nat \<Rightarrow> bytes" where
  "put_nat n = (if n = 0 then [0] else of_nat (Suc (n mod 255)) # put_nat (n div 255))"

fun get_nat :: "bytes \<Rightarrow> (nat \<times> bytes) option" where
  "get_nat [] = None"
| "get_nat (b # bs) = (if b = 0 then Some (0, bs)
     else map_option (\<lambda>(n, r). (255 * n + (unat b - 1), r)) (get_nat bs))"

declare put_nat.simps [simp del]

lemma unat_byte: "k < 256 \<Longrightarrow> unat (of_nat k :: byte) = k"
  by (simp add: unat_of_nat)

lemma get_put_nat: "get_nat (put_nat n @ r) = Some (n, r)"
proof (induction n rule: put_nat.induct)
  case (1 n)
  show ?case
  proof (cases "n = 0")
    case False
    have "Suc (n mod 255) < 256" by simp
    then have byte: "unat (of_nat (Suc (n mod 255)) :: byte) = Suc (n mod 255)" by (rule unat_byte)
    then have "(of_nat (Suc (n mod 255)) :: byte) \<noteq> 0" by (metis Suc_not_Zero unat_0)
    with 1 False byte show ?thesis by (subst put_nat.simps) (simp del: of_nat_Suc)
  qed (simp add: put_nat.simps)
qed

definition put_int :: "int \<Rightarrow> bytes" where
  "put_int i = (if i < 0 then 1 else 0) # put_nat (nat \<bar>i\<bar>)"

definition get_int :: "bytes \<Rightarrow> (int \<times> bytes) option" where
  "get_int bs = (case bs of [] \<Rightarrow> None
     | s # r \<Rightarrow> map_option (\<lambda>(n, r). (if s = 0 then int n else - int n, r)) (get_nat r))"

lemma get_put_int: "get_int (put_int i @ r) = Some (i, r)"
  by (simp add: get_int_def put_int_def get_put_nat)

fun put_str :: "string \<Rightarrow> bytes" where
  "put_str [] = [0]"
| "put_str (c # s) = 1 # of_nat (of_char c) # put_str s"

fun get_str :: "bytes \<Rightarrow> (string \<times> bytes) option" where
  "get_str (t # b) = (if t = 0 then Some ([], b)
     else case b of [] \<Rightarrow> None | c # r \<Rightarrow> map_option (\<lambda>(s, r). (char_of (unat c) # s, r)) (get_str r))"
| "get_str [] = None"

lemma get_put_str: "get_str (put_str s @ r) = Some (s, r)"
proof (induction s)
  case (Cons c s)
  have "unat (of_nat (of_char c) :: byte) = of_char c"
    by (rule unat_byte) simp
  with Cons show ?case by simp
qed simp

text \<open>A list is a 1 before every element and a 0 at the end; a decoder with fuel reads it.\<close>

fun put_list :: "('a \<Rightarrow> bytes) \<Rightarrow> 'a list \<Rightarrow> bytes" where
  "put_list p [] = [0]"
| "put_list p (x # xs) = 1 # p x @ put_list p xs"

lemma put_list_cong [fundef_cong]:
  "xs = ys \<Longrightarrow> (\<And>x. x \<in> set ys \<Longrightarrow> p x = q x) \<Longrightarrow> put_list p xs = put_list q ys"
  by (induction xs arbitrary: ys) auto

fun put_json :: "json \<Rightarrow> bytes" where
  "put_json JNull = [0]"
| "put_json (JBool b) = [1, of_bool b]"
| "put_json (JNum i) = 2 # put_int i"
| "put_json (JStr s) = 3 # put_str s"
| "put_json (JArr js) = 4 # put_list put_json js"
| "put_json (JObj kvs) = 5 # put_list (\<lambda>(k, v). put_str k @ put_json v) kvs"

fun get_list :: "(bytes \<Rightarrow> ('a \<times> bytes) option) \<Rightarrow> nat \<Rightarrow> bytes \<Rightarrow> ('a list \<times> bytes) option" where
  "get_list g 0 bs = None"
| "get_list g (Suc n) [] = None"
| "get_list g (Suc n) (t # bs) = (if t = 0 then Some ([], bs)
     else case g bs of None \<Rightarrow> None
       | Some (x, r) \<Rightarrow> map_option (\<lambda>(xs, r). (x # xs, r)) (get_list g n r))"

definition get_pair :: "(bytes \<Rightarrow> ('a \<times> bytes) option) \<Rightarrow> bytes \<Rightarrow> ((string \<times> 'a) \<times> bytes) option" where
  "get_pair g bs = (case get_str bs of None \<Rightarrow> None
     | Some (k, r) \<Rightarrow> map_option (\<lambda>(v, r). ((k, v), r)) (g r))"

fun get_json :: "nat \<Rightarrow> bytes \<Rightarrow> (json \<times> bytes) option" where
  "get_json 0 bs = None"
| "get_json (Suc n) bs = (case bs of [] \<Rightarrow> None | t # r \<Rightarrow>
     if t = 0 then Some (JNull, r)
     else if t = 1 then (case r of [] \<Rightarrow> None | b # r \<Rightarrow> Some (JBool (b \<noteq> 0), r))
     else if t = 2 then map_option (\<lambda>(i, r). (JNum i, r)) (get_int r)
     else if t = 3 then map_option (\<lambda>(s, r). (JStr s, r)) (get_str r)
     else if t = 4 then map_option (\<lambda>(js, r). (JArr js, r)) (get_list (get_json n) (Suc n) r)
     else map_option (\<lambda>(kvs, r). (JObj kvs, r)) (get_list (get_pair (get_json n)) (Suc n) r))"

lemma get_put_list:
  "(\<And>x r. x \<in> set xs \<Longrightarrow> g (p x @ r) = Some (x, r)) \<Longrightarrow> length xs < n \<Longrightarrow> get_list g n (put_list p xs @ r) = Some (xs, r)"
proof (induction xs arbitrary: n)
  case Nil
  then show ?case by (cases n) auto
next
  case (Cons x xs)
  then show ?case by (cases n) auto
qed

lemma put_list_length: "x \<in> set xs \<Longrightarrow> length (p x) < length (put_list p xs)" "length xs < length (put_list p xs)"
  by (induction xs) auto

lemma get_put_json: "length (put_json j) \<le> n \<Longrightarrow> get_json n (put_json j @ r) = Some (j, r)"
proof (induction j arbitrary: n r)
  case (JArr js)
  then obtain m where n: "n = Suc m" by (cases n) auto
  have "get_json m (put_json x @ r) = Some (x, r)" if "x \<in> set js" for x r
  proof (rule JArr.IH [OF that])
    have "length (put_json x) < length (put_list put_json js)" by (rule put_list_length(1) [OF that])
    then show "length (put_json x) \<le> m" using JArr.prems n by simp
  qed
  moreover have "length js < Suc m" using JArr.prems n put_list_length(2) [of js put_json] by simp
  ultimately have "get_list (get_json m) (Suc m) (put_list put_json js @ r) = Some (js, r)" by (rule get_put_list)
  then show ?case by (simp add: n del: get_list.simps)
next
  case (JObj kvs)
  then obtain m where n: "n = Suc m" by (cases n) auto
  let ?p = "\<lambda>(k, v). put_str k @ put_json v"
  have "get_pair (get_json m) (?p kv @ r) = Some (kv, r)" if "kv \<in> set kvs" for kv r
  proof -
    obtain k v where kv: "kv = (k, v)" by (cases kv)
    have "length (?p kv) < length (put_list ?p kvs)" by (rule put_list_length(1) [OF that])
    then have "length (put_json v) \<le> m" using JObj.prems n kv by simp
    then have "get_json m (put_json v @ r) = Some (v, r)" using JObj.IH [OF that, of v] kv by simp
    then show ?thesis by (simp add: kv get_pair_def get_put_str)
  qed
  moreover have "length kvs < Suc m" using JObj.prems n put_list_length(2) [of kvs ?p] by simp
  ultimately have "get_list (get_pair (get_json m)) (Suc m) (put_list ?p kvs @ r) = Some (kvs, r)" by (rule get_put_list)
  then show ?case by (simp add: n del: get_list.simps)
next
  case (JNum i)
  then show ?case by (cases n) (simp_all add: get_put_int)
next
  case (JStr s)
  then show ?case by (cases n) (simp_all add: get_put_str)
qed (case_tac n; simp)+

definition read_json :: "bytes \<Rightarrow> string + json" where
  "read_json bs = (case get_json (length bs) bs of Some (j, []) \<Rightarrow> Inr j | _ \<Rightarrow> Inl ''syntax error'')"

lemma read_put_json: "read_json (put_json j) = Inr j"
  using get_put_json [of j _ "[]"] by (simp add: read_json_def)

section \<open>The environment\<close>

definition example_net :: net_env where
  "example_net = \<lparr>
     ne_crypto = example_crypto, ne_to_vec = put_json, ne_from_slice = read_json, ne_serde_error = \<lambda>ty j. ty,
     ne_derive_key = \<lambda>seed dom ctx n. Some (take n (seed @ replicate n 1)),
     ne_key_pair = \<lambda>s. if s = replicate 32 0 then Inl ''zero'' else Inr s,
     ne_bundle = \<lambda>seed dom. Inr seed,
     ne_ed_pk = \<lambda>b. take 32 (b @ replicate 32 0), ne_falcon_pk = \<lambda>b. b,
     ne_sign = \<lambda>b m. if length m \<le> 1280 then Inr (replicate 64 0, m) else Inl ''too long'',
     ne_ed_key = \<lambda>k. Inr (), ne_falcon_key = \<lambda>k. Inr (), ne_ed_sig = \<lambda>s. Inr (), ne_falcon_sig = \<lambda>s. Inr (),
     ne_verify = \<lambda>ed fk m sig. snd sig = m,
     ne_random = \<lambda>i n. Inr (replicate n (of_nat i)), ne_falcon_max = 1280, ne_hex_error = \<lambda>s. ''bad digit''\<rparr>"

lemma example_net_simps [simp]:
  "ne_crypto example_net = example_crypto" "ne_to_vec example_net = put_json" "ne_from_slice example_net = read_json"
  "ne_bundle example_net seed u = Inr seed" "ne_random example_net i n = Inr (replicate n (of_nat i))"
  "ne_sign example_net b m = (if length m \<le> 1280 then Inr (replicate 64 0, m) else Inl ''too long'')"
  "ne_derive_key example_net seed u ctx n = Some (take n (seed @ replicate n 1))"
  "ne_key_pair example_net s = (if s = replicate 32 0 then Inl ''zero'' else Inr s)"
  by (simp_all add: example_net_def del: take_append)

lemma example_net_ok: "json_ok example_net" "sig_ok example_net"
proof -
  show "json_ok example_net" by (simp add: json_ok_def example_net_def read_put_json)
  show "sig_ok example_net" by (auto simp: sig_ok_def example_net_def split: if_splits)
qed

theorem claim_fits_one_handshake_witness:
  "\<exists>claim keys. sign_auth_claim example_net 3 (replicate 32 9) 0 (replicate 32 5) [1, 2] = Inr claim \<and>
     peer_keys_from_seed example_net (replicate 32 9) 0 = Inr keys \<and>
     verify_auth_claim example_net keys claim (replicate 32 5) [1, 2] = Inr ()"
proof -
  have d: "derive_transport_secret example_net (replicate 32 9) 0 = Inr (replicate 32 9)"
    by (simp add: derive_transport_secret_def)
  have len: "length (auth_message example_net fp pk nonce peer tr) \<le> 1280" for fp pk nonce peer tr
    by (simp add: auth_message_def example_crypto_def)
  have "\<exists>claim. sign_auth_claim example_net 3 (replicate 32 9) 0 (replicate 32 5) [1, 2] = Inr claim"
    by (simp add: sign_auth_claim_def d and_then_def len Let_def)
  moreover have "\<exists>keys. peer_keys_from_seed example_net (replicate 32 9) 0 = Inr keys"
    by (simp add: peer_keys_from_seed_def d and_then_def)
  ultimately obtain claim keys where run: "sign_auth_claim example_net 3 (replicate 32 9) 0 (replicate 32 5) [1, 2] = Inr claim"
      "peer_keys_from_seed example_net (replicate 32 9) 0 = Inr keys" by blast
  from claim_fits_one_handshake [OF example_net_ok(2) run refl, of "[1, 2]"] run show ?thesis by blast
qed

definition calm_disk_env :: disk_env where
  "calm_disk_env = \<lparr>de_fault = (\<lambda>n. None), de_torn = (\<lambda>n. 0), de_nanos = (\<lambda>n. n), de_pid = 7, de_temp_dir = ''/tmp''\<rparr>"

theorem replay_refused_after_restart_witness:
  "\<exists>t d1 t2 d2. feed check_and_track tracker_new [[1, 2, 3, 4, 5, 6, 7, 8, 9]] = ([True], t) \<and>
     tracker_save calm_disk_env sorted_list_of_set ''/r'' t \<lparr>dk_files = Map.empty, dk_dirs = {''/''}, dk_tick = 0\<rparr> = (Inr (), d1) \<and>
     tracker_load calm_disk_env ''/r'' d1 = (Inr t2, d2) \<and> check_and_track [1, 2, 3, 4, 5, 6, 7, 8, 10] t2 = (False, t2)"
proof -
  let ?d = "\<lparr>dk_files = Map.empty, dk_dirs = {''/''}, dk_tick = 0\<rparr>"
  define t where "t = \<lparr>rt_seen = {[1, 2, 3, 4, 5, 6, 7, 8 :: byte]}, rt_order = [[1, 2, 3, 4, 5, 6, 7, 8]], rt_cap = REPLAY_CAP\<rparr>"
  have fed: "feed check_and_track tracker_new [[1, 2, 3, 4, 5, 6, 7, 8, 9]] = ([True], t)"
    by (simp add: t_def check_and_track_def tracker_new_def REPLAY_NONCE_LEN_def REPLAY_CAP_def Let_def)
  have par: "real_parent ''/r'' = Some ''/''" by code_simp
  have tmp: "temp_name calm_disk_env (real_parent ''/r'') n \<noteq> ''/r''" for n
    by (simp add: par temp_name_def path_join_def calm_disk_env_def)
  obtain d1 where save: "tracker_save calm_disk_env sorted_list_of_set ''/r'' t ?d = (Inr (), d1)"
    by (simp add: tracker_save_def atomic_write_def ensure_dir_def path_exists_def par se_defs map_err_def disk_ops calm_disk_env_def)
  have "dk_files d1 ''/r'' = Some (tracker_bytes sorted_list_of_set t)"
    using save atomic_write_outcome [OF _ tmp] by (fastforce simp: tracker_save_def map_err_Inr)
  moreover have "tracker_bytes sorted_list_of_set t = [79, 78, 82, 80, 1, 1, 2, 3, 4, 5, 6, 7, 8]"
    by (simp add: tracker_bytes_def t_def REPLAY_FORMAT_VERSION_def REPLAY_MAGIC_def str_bytes_def)
  moreover have "REPLAY_MAGIC = [79, 78, 82, 80]" by code_simp
  ultimately obtain t2 d2 where load: "tracker_load calm_disk_env ''/r'' d1 = (Inr t2, d2)"
    by (simp add: tracker_load_def disk_read_def bnd_def map_err_def calm_disk_env_def lift_def tracker_of_bytes_def REPLAY_FORMAT_VERSION_def
        REPLAY_NONCE_LEN_def Let_def)
  have "check_and_track [1, 2, 3, 4, 5, 6, 7, 8, 10] t2 = (False, t2)"
    using replay_refused_after_restart [OF _ fed save load tmp, of "[1, 2, 3, 4, 5, 6, 7, 8, 10]" "[1, 2, 3, 4, 5, 6, 7, 8]"]
    by (simp add: frame_key_def REPLAY_NONCE_LEN_def accepted_keys_def map_filter_simps REPLAY_CAP_def)
  with fed save load show ?thesis by blast
qed

end
