(* ===== verification/Network_Endpoint.thy ===== *)
theory Network_Endpoint
  imports Network_Instance
begin

text \<open>
  Endpoints and secure pipes of \<open>origin-network\<close> (\<open>session.rs\<close>): dialling with bounded
  retries, the handshake and the exchange of AUTH claims over a framed connection for
  both roles, and the encrypted pipe. Dialling ends, a responder accepts only who signed
  the handshake at hand, and two endpoints whose bytes reach each other establish pipes
  in step (\<open>endpoints_meet_runs\<close>).
\<close>

unbundle bit_operations_syntax

section \<open>Dialling\<close>

record socket_addr =
  sa_octets :: bytes
  sa_port :: nat
  sa_text :: string

datatype transport_addr = AddrTcp socket_addr | AddrUdp socket_addr | AddrQuic socket_addr | AddrMemory string

definition addr_display :: "transport_addr \<Rightarrow> string" where
  "addr_display a = (case a of AddrTcp s \<Rightarrow> ''tcp://'' @ sa_text s | AddrUdp s \<Rightarrow> ''udp://'' @ sa_text s
     | AddrQuic s \<Rightarrow> ''quic://'' @ sa_text s | AddrMemory i \<Rightarrow> ''mem://'' @ i)"

definition jitter_feed :: "64 word \<Rightarrow> byte \<Rightarrow> 64 word" where
  "jitter_feed h b = (h XOR ucast b) * 0x100000001b3"

definition jitter_bytes :: "transport_addr \<Rightarrow> bytes" where
  "jitter_bytes a = (case a of AddrMemory name \<Rightarrow> str_bytes name
     | AddrTcp s \<Rightarrow> sa_octets s @ [of_nat (sa_port s mod 256), of_nat (sa_port s div 256)]
     | AddrUdp s \<Rightarrow> sa_octets s @ [of_nat (sa_port s mod 256), of_nat (sa_port s div 256)]
     | AddrQuic s \<Rightarrow> sa_octets s @ [of_nat (sa_port s mod 256), of_nat (sa_port s div 256)])"

definition jitter_seed :: "transport_addr \<Rightarrow> fingerprint \<Rightarrow> 64 word" where
  "jitter_seed a fp = foldl jitter_feed 0xcbf29ce484222325 (jitter_bytes a @ fp)"

text \<open>Milliseconds to wait before the next attempt.\<close>

definition backoff :: "nat \<Rightarrow> 64 word \<Rightarrow> 64 word \<Rightarrow> 64 word \<Rightarrow> nat" where
  "backoff tries base_ms max_ms seed =
     (let ex = min (tries - 1) 31;
          ceil = min (push_bit ex base_ms) max_ms;
          jitter = (seed XOR drop_bit 17 seed XOR (of_nat tries * 0x9e3779b97f4a7c15)) mod (max ceil 1)
      in sat_add_u64 (unat ceil) (unat jitter))"

datatype dial_outcome = Connected frame_conn | DialFailed network_error | DialTimedOut

definition MAX_ATTEMPTS :: nat where "MAX_ATTEMPTS = 5"

text \<open>The dial loop: the connection or the error, and the waits on the way.\<close>

function dial_loop :: "(nat \<Rightarrow> dial_outcome) \<Rightarrow> string \<Rightarrow> 64 word \<Rightarrow> nat \<Rightarrow> (network_error + frame_conn) \<times> nat list" where
  "dial_loop dials addr seed tries =
     (case dials tries of
        Connected conn \<Rightarrow> (Inr conn, [])
      | DialFailed e \<Rightarrow>
          if \<not> (case e of NetTransport _ \<Rightarrow> True | NetTimeout _ \<Rightarrow> True | _ \<Rightarrow> False) then (Inl e, [])
          else if tries + 1 \<ge> MAX_ATTEMPTS
          then (Inl (NetTransport (''dial '' @ addr @ '' failed after '' @ dec MAX_ATTEMPTS @ '' attempts: '' @ network_error_str e)), [])
          else (case dial_loop dials addr seed (tries + 1) of (r, ws) \<Rightarrow> (r, backoff (tries + 1) 100 5000 seed # ws))
      | DialTimedOut \<Rightarrow>
          if tries + 1 \<ge> MAX_ATTEMPTS
          then (Inl (NetTimeout (''dial '' @ addr @ '' timed out after '' @ dec MAX_ATTEMPTS @ '' attempts'')), [])
          else (case dial_loop dials addr seed (tries + 1) of (r, ws) \<Rightarrow> (r, backoff (tries + 1) 100 5000 seed # ws)))"
  by auto
termination
  by (relation "measure (\<lambda>(dials, addr, seed, tries). MAX_ATTEMPTS - tries)") (auto simp: MAX_ATTEMPTS_def)

declare dial_loop.simps [simp del]

section \<open>Endpoints\<close>

record endpoint =
  ep_seed :: bytes
  ep_device_index :: nat
  ep_fingerprint :: fingerprint
  ep_static_secret :: bytes
  ep_resolver :: "fingerprint \<Rightarrow> peer_keys option"

definition endpoint_new :: "net_env \<Rightarrow> bytes \<Rightarrow> nat \<Rightarrow> (fingerprint \<Rightarrow> peer_keys option) \<Rightarrow> network_error + endpoint" where
  "endpoint_new NE seed device_index resolver =
     and_then (derive_transport_secret NE seed device_index) (\<lambda>static_secret.
       Inr \<lparr>ep_seed = seed, ep_device_index = device_index, ep_fingerprint = fingerprint_of_seed NE seed,
            ep_static_secret = static_secret, ep_resolver = resolver\<rparr>)"

text \<open>What a run of the handshake can change: the connection and the endpoint's replay tracker.\<close>

record link =
  lk_conn :: frame_conn
  lk_replay :: replay_tracker

definition on_conn :: "(frame_conn, network_error, 'a) se \<Rightarrow> (link, network_error, 'a) se" where
  "on_conn = within lk_conn (\<lambda>c s. s\<lparr>lk_conn := c\<rparr>)"

definition initiator_static_from_msg1 :: "handshake_message \<Rightarrow> network_error + bytes" where
  "initiator_static_from_msg1 msg = (if length (hm_payload msg) < 32
     then Inl (NetHandshake ''msg1 payload missing initiator static key'') else Inr (take 32 (hm_payload msg)))"

definition handshake_transcript :: "net_env \<Rightarrow> bytes \<Rightarrow> bytes \<Rightarrow> bytes \<Rightarrow> bytes" where
  "handshake_transcript NE msg1 msg2 msg3 =
     cc_sha3 (ne_crypto NE) (str_bytes ''origin-network:transcript:v1'' @ msg1 @ msg2 @ msg3)"

definition reassemble :: "bytes \<Rightarrow> byte \<Rightarrow> bytes" where
  "reassemble body tag = tag # body"

definition or_handshake :: "channel_error + 'a \<Rightarrow> network_error + 'a" where
  "or_handshake r = (case r of Inl e \<Rightarrow> Inl (NetHandshake (channel_error_str e)) | Inr x \<Rightarrow> Inr x)"

definition hs_call :: "(handshake, channel_error, 'a) se \<Rightarrow> handshake \<Rightarrow> (link, network_error, 'a \<times> handshake) se" where
  "hs_call m hs = lift (case m hs of (Inl e, _) \<Rightarrow> Inl (NetHandshake (channel_error_str e)) | (Inr x, hs') \<Rightarrow> Inr (x, hs'))"

definition step3_check :: "handshake \<Rightarrow> network_error + unit" where
  "step3_check hs = (if hs_step hs < 3 then Inl (NetHandshake ''handshake incomplete'') else Inr ())"

text \<open>\<open>draw\<close> selects the draws from the random source that the run makes.\<close>

definition drive_initiator ::
  "net_env \<Rightarrow> nat \<Rightarrow> endpoint \<Rightarrow> peer_keys \<Rightarrow> (link, network_error, handshake \<times> bytes \<times> bytes \<times> bytes) se" where
  "drive_initiator NE draw ep peer_hint =
     bnd (lift (transport_pk_bytes peer_hint)) (\<lambda>peer_pk.
     bnd (hs_call (handshake_start (ne_crypto NE) draw) (handshake_new (ep_static_secret ep) peer_pk True)) (\<lambda>(msg1', hs).
     let msg1 = msg1'\<lparr>hm_payload := hm_payload msg1' @ transport_public_key NE (ep_static_secret ep)\<rparr>; m1 = handshake_to_bytes msg1 in
     seqM (on_conn (send_frame (hm_type msg1) (tl m1)))
     (bnd (on_conn recv_frame) (\<lambda>(_, body2).
      bnd (lift (or_handshake (handshake_from_bytes (reassemble body2 2)))) (\<lambda>msg2.
      bnd (hs_call (process_msg2 msg2) hs) (\<lambda>(msg3, hs').
      let m3 = handshake_to_bytes msg3 in
      seqM (on_conn (send_frame (hm_type msg3) (tl m3)))
      (seqM (lift (step3_check hs'))
      (ret (hs', m1, handshake_to_bytes msg2, m3)))))))))"

definition drive_responder ::
  "net_env \<Rightarrow> nat \<Rightarrow> endpoint \<Rightarrow> (link, network_error, handshake \<times> bytes \<times> bytes \<times> bytes) se" where
  "drive_responder NE draw ep =
     bnd (on_conn recv_frame) (\<lambda>(_, body1).
     bnd (lift (or_handshake (handshake_from_bytes (reassemble body1 1)))) (\<lambda>msg1.
     bnd (\<lambda>s. case check_and_track body1 (lk_replay s) of (fresh, t) \<Rightarrow> (Inr fresh, s\<lparr>lk_replay := t\<rparr>)) (\<lambda>fresh.
     if \<not> fresh then throw (NetHandshake ''handshake replay detected'') else
     bnd (lift (initiator_static_from_msg1 msg1)) (\<lambda>initiator_static.
     bnd (hs_call (process_msg1 (ne_crypto NE) draw msg1) (handshake_new (ep_static_secret ep) initiator_static False)) (\<lambda>(msg2', hs).
     let msg2 = msg2'\<lparr>hm_payload := hm_payload msg2' @ transport_public_key NE (ep_static_secret ep)\<rparr>; m2 = handshake_to_bytes msg2 in
     seqM (on_conn (send_frame (hm_type msg2) (tl m2)))
     (bnd (on_conn recv_frame) (\<lambda>(_, body3).
      bnd (lift (or_handshake (handshake_from_bytes (reassemble body3 3)))) (\<lambda>msg3.
      bnd (hs_call (process_msg3 msg3) hs) (\<lambda>(_, hs').
      ret (hs', handshake_to_bytes msg1, m2, handshake_to_bytes msg3))))))))))"

definition expect_auth_ok :: "net_env \<Rightarrow> (frame_conn, network_error, string) se" where
  "expect_auth_ok NE = bnd recv_frame (\<lambda>(tag, body).
     if tag = wire_to_u8 WAuthOk then lift (decode_payload NE ''AuthOk'' read_auth_ok body)
     else if tag = wire_to_u8 WAuthReject
     then bnd (lift (decode_payload NE ''AuthReject'' read_auth_reject body)) (\<lambda>reason. throw (NetAuth reason))
     else throw (NetAuth (''unexpected auth response frame 0x'' @ hex_encode [tag])))"

text \<open>A rejection is sent if it can be sent; the error is returned in any case.\<close>

definition auth_reject :: "net_env \<Rightarrow> string \<Rightarrow> network_error \<Rightarrow> (frame_conn, network_error, 'a) se" where
  "auth_reject NE reason e =
     bnd (lift (encode_payload NE (auth_reject_json reason))) (\<lambda>body.
     seqM (attempt (send_frame (wire_to_u8 WAuthReject) body)) (throw e))"

definition auth_initiator :: "net_env \<Rightarrow> nat \<Rightarrow> endpoint \<Rightarrow> peer_keys \<Rightarrow> bytes \<Rightarrow> (frame_conn, network_error, fingerprint) se" where
  "auth_initiator NE draw ep peer_hint transcript =
     bnd (lift (sign_auth_claim NE draw (ep_seed ep) (ep_device_index ep) (pk_fingerprint peer_hint) transcript)) (\<lambda>claim.
     bnd (lift (encode_payload NE (claim_json claim))) (\<lambda>body.
     seqM (send_frame (wire_to_u8 WAuthClaim) body)
     (bnd (expect_auth_ok NE) (\<lambda>_. ret (pk_fingerprint peer_hint)))))"

definition auth_responder :: "net_env \<Rightarrow> endpoint \<Rightarrow> bytes \<Rightarrow> (frame_conn, network_error, fingerprint) se" where
  "auth_responder NE ep transcript =
     bnd recv_frame (\<lambda>(tag, body).
     if tag \<noteq> wire_to_u8 WAuthClaim then auth_reject NE ''expected AUTH claim'' (NetAuth ''expected AUTH claim'') else
     bnd (lift (decode_payload NE ''AuthClaim'' read_claim body)) (\<lambda>claim.
     case ep_resolver ep (ac_fingerprint claim) of
       None \<Rightarrow> auth_reject NE ''unknown peer'' (NetAuth ''unknown peer'')
     | Some keys \<Rightarrow>
         bnd (lift (transport_pk_bytes keys)) (\<lambda>pk.
         if ac_x25519_pk claim \<noteq> pk
         then auth_reject NE ''claimed key does not match handshake key'' (NetAuth ''claimed key does not match handshake key'') else
         case verify_auth_claim NE keys claim (ep_fingerprint ep) transcript of
           Inl e \<Rightarrow> auth_reject NE ''signature verification failed'' e
         | Inr _ \<Rightarrow> bnd (lift (encode_payload NE (auth_ok_json []))) (\<lambda>ok.
             seqM (send_frame (wire_to_u8 WAuthOk) ok) (ret (ac_fingerprint claim))))))"

record secure_pipe =
  sp_session :: ratcheted_session
  sp_conn :: frame_conn
  sp_peer :: fingerprint
  sp_is_initiator :: bool

definition drive :: "net_env \<Rightarrow> nat \<Rightarrow> endpoint \<Rightarrow> peer_keys \<Rightarrow> bool \<Rightarrow> (link, network_error, secure_pipe) se" where
  "drive NE draw ep peer_hint is_initiator =
     bnd (if is_initiator then drive_initiator NE draw ep peer_hint else drive_responder NE draw ep) (\<lambda>(hs, m1, m2, m3).
     seqM (lift (step3_check hs))
     (bnd (lift (or_handshake (finalize (ne_crypto NE) hs))) (\<lambda>(shared_secret, _).
      let transcript = handshake_transcript NE m1 m2 m3 in
      bnd (on_conn (if is_initiator then auth_initiator NE draw ep peer_hint transcript else auth_responder NE ep transcript)) (\<lambda>peer_fp.
      bnd (lift (case init_ratchet (ne_crypto NE) shared_secret is_initiator of
          Inl e \<Rightarrow> Inl (NetChannel (channel_error_str e)) | Inr k \<Rightarrow> Inr k)) (\<lambda>keys.
      bnd (gets lk_conn) (\<lambda>conn.
      ret \<lparr>sp_session = session_with_defaults keys, sp_conn = conn, sp_peer = peer_fp, sp_is_initiator = is_initiator\<rparr>))))))"

definition default_unknown :: peer_keys where
  "default_unknown = \<lparr>pk_fingerprint = replicate 32 0, pk_device_index = 0, pk_ed25519 = [], pk_falcon = [], pk_transport = []\<rparr>"

definition connect_at :: "net_env \<Rightarrow> nat \<Rightarrow> endpoint \<Rightarrow> peer_keys \<Rightarrow> transport_addr \<Rightarrow> (nat \<Rightarrow> dial_outcome) \<Rightarrow>
    replay_tracker \<Rightarrow> network_error + secure_pipe" where
  "connect_at NE draw ep peer addr dials tracker =
     and_then (transport_pk_bytes peer) (\<lambda>_.
     and_then (fst (dial_loop dials (addr_display addr) (jitter_seed addr (pk_fingerprint peer)) 0)) (\<lambda>conn.
     fst (drive NE draw ep peer True \<lparr>lk_conn = conn, lk_replay = tracker\<rparr>)))"

definition accept_one :: "net_env \<Rightarrow> nat \<Rightarrow> endpoint \<Rightarrow> network_error + frame_conn \<Rightarrow> replay_tracker \<Rightarrow>
    (network_error + secure_pipe) \<times> replay_tracker" where
  "accept_one NE draw ep accepted tracker = (case accepted of Inl e \<Rightarrow> (Inl e, tracker)
     | Inr conn \<Rightarrow> (case drive NE draw ep default_unknown False \<lparr>lk_conn = conn, lk_replay = tracker\<rparr> of
         (r, s) \<Rightarrow> (r, lk_replay s)))"

section \<open>Secure pipes\<close>

definition pipe_session :: "(ratcheted_session, channel_error, 'a) se \<Rightarrow> (secure_pipe, network_error, 'a) se" where
  "pipe_session m = map_err (\<lambda>e. NetChannel (channel_error_str e)) (within sp_session (\<lambda>x s. s\<lparr>sp_session := x\<rparr>) m)"

definition pipe_conn :: "(frame_conn, network_error, 'a) se \<Rightarrow> (secure_pipe, network_error, 'a) se" where
  "pipe_conn = within sp_conn (\<lambda>c s. s\<lparr>sp_conn := c\<rparr>)"

definition pipe_send :: "net_env \<Rightarrow> bytes \<Rightarrow> (secure_pipe, network_error, unit) se" where
  "pipe_send NE plaintext =
     bnd (pipe_session (session_encrypt (ne_crypto NE) plaintext)) (\<lambda>msg.
     pipe_conn (send_frame (cm_type msg) (tl (message_to_bytes msg))))"

definition pipe_recv :: "net_env \<Rightarrow> (secure_pipe, network_error, bytes) se" where
  "pipe_recv NE =
     bnd (pipe_conn recv_frame) (\<lambda>(tag, body).
     bnd (lift (case message_from_bytes (tag # body) of Inl e \<Rightarrow> Inl (NetChannel (channel_error_str e)) | Inr m \<Rightarrow> Inr m)) (\<lambda>msg.
     pipe_session (session_decrypt (ne_crypto NE) msg)))"


section \<open>Runs that succeed\<close>

text \<open>\<open>goes P m x Q\<close>: from every state in \<open>P\<close> the call \<open>m\<close> succeeds with \<open>x\<close> and ends in \<open>Q\<close>.\<close>

definition goes :: "('s \<Rightarrow> bool) \<Rightarrow> ('s, 'e, 'a) se \<Rightarrow> 'a \<Rightarrow> ('s \<Rightarrow> bool) \<Rightarrow> bool" where
  "goes P m x Q \<longleftrightarrow> (\<forall>s. P s \<longrightarrow> (\<exists>t. m s = (Inr x, t) \<and> Q t))"

lemma goesD: "goes P m x Q \<Longrightarrow> P s \<Longrightarrow> \<exists>t. m s = (Inr x, t) \<and> Q t"
  by (simp add: goes_def)

lemma goes_bnd: "goes P m x R \<Longrightarrow> goes R (f x) y Q \<Longrightarrow> goes P (bnd m f) y Q"
  by (fastforce simp: goes_def bnd_def)

lemma goes_seqM: "goes P m x R \<Longrightarrow> goes R n y Q \<Longrightarrow> goes P (seqM m n) y Q"
  unfolding seqM_def by (rule goes_bnd)

lemma goes_ret: "goes P (ret x) x P"
  by (simp add: goes_def ret_def)

lemma goes_lift: "r = Inr x \<Longrightarrow> goes P (lift r) x P"
  by (simp add: goes_def lift_def)

lemma goes_within: "goes P m x Q \<Longrightarrow> (\<And>c s. get (put c s) = c) \<Longrightarrow> (\<And>c s. f (put c s) = f s) \<Longrightarrow>
    goes (\<lambda>s. P (get s) \<and> f s = v) (within get put m) x (\<lambda>s. Q (get s) \<and> f s = v)"
  by (fastforce simp: goes_def within_def)

text \<open>A connection with the bytes that are still to arrive and those written so far.\<close>

definition conn_at :: "bytes \<Rightarrow> bytes \<Rightarrow> frame_conn \<Rightarrow> bool" where
  "conn_at inb out c \<longleftrightarrow> list_all clean_read (fc_reads c) \<and> arriving c = inb \<and> fc_written c = out \<and> fc_write_error c = None"

lemma goes_send:
  assumes "sendable t" "frame_fits p"
  shows "goes (conn_at inb out) (send_frame t p) () (conn_at inb (out @ wire_frame (t, p)))"
  using assms by (auto simp: goes_def conn_at_def send_frame_ok arriving_def)

lemma goes_recv:
  assumes "frame_fits p"
  shows "goes (conn_at (wire_frame (t, p) @ inb) out) recv_frame (t, p) (conn_at inb out)"
  using recv_frame_next [OF _ _ assms] by (fastforce simp: goes_def conn_at_def conn_rest_def)

definition link_at :: "bytes \<Rightarrow> bytes \<Rightarrow> replay_tracker \<Rightarrow> link \<Rightarrow> bool" where
  "link_at inb out tr s \<longleftrightarrow> conn_at inb out (lk_conn s) \<and> lk_replay s = tr"

lemma goes_on_conn: "goes (conn_at a b) m x (conn_at a' b') \<Longrightarrow> goes (link_at a b tr) (on_conn m) x (link_at a' b' tr)"
  unfolding on_conn_def link_at_def by (rule goes_within) auto

lemmas goes_link_send = goes_on_conn [OF goes_send]
lemmas goes_link_recv = goes_on_conn [OF goes_recv]

section \<open>Both roles\<close>

text \<open>The three handshake messages of a run with ephemeral secrets \<open>ei\<close> and \<open>er\<close>.\<close>

definition hello1 :: "net_env \<Rightarrow> bytes \<Rightarrow> bytes \<Rightarrow> handshake_message" where
  "hello1 NE si ei = \<lparr>hm_type = MSG_HANDSHAKE_1, hm_ephemeral_pk = cc_public (ne_crypto NE) ei, hm_payload = transport_public_key NE si\<rparr>"

definition hello2 :: "net_env \<Rightarrow> bytes \<Rightarrow> bytes \<Rightarrow> handshake_message" where
  "hello2 NE sr er = \<lparr>hm_type = MSG_HANDSHAKE_2, hm_ephemeral_pk = cc_public (ne_crypto NE) er, hm_payload = transport_public_key NE sr\<rparr>"

definition hello3 :: handshake_message where
  "hello3 = \<lparr>hm_type = MSG_HANDSHAKE_3, hm_ephemeral_pk = replicate 32 0, hm_payload = []\<rparr>"

definition hello_frame :: "handshake_message \<Rightarrow> bytes" where
  "hello_frame m = wire_frame (hm_type m, tl (handshake_to_bytes m))"

definition initiator_done :: "net_env \<Rightarrow> bytes \<Rightarrow> bytes \<Rightarrow> bytes \<Rightarrow> bytes \<Rightarrow> handshake" where
  "initiator_done NE si ei sr er = (let C = ne_crypto NE in
     \<lparr>hs_static = si, hs_ephemeral = Some ei, hs_peer_static = Some (cc_public C sr), hs_peer_ephemeral = Some (cc_public C er),
      hs_transcript = cc_public C ei @ cc_public C er, hs_is_initiator = True, hs_step = 3\<rparr>)"

definition responder_done :: "net_env \<Rightarrow> bytes \<Rightarrow> bytes \<Rightarrow> bytes \<Rightarrow> bytes \<Rightarrow> handshake" where
  "responder_done NE si ei sr er = (let C = ne_crypto NE in
     \<lparr>hs_static = sr, hs_ephemeral = Some er, hs_peer_static = Some (cc_public C si), hs_peer_ephemeral = Some (cc_public C ei),
      hs_transcript = cc_public C ei @ cc_public C er, hs_is_initiator = False, hs_step = 3\<rparr>)"

lemma hello_wire:
  "length (hm_ephemeral_pk m) = 32 \<Longrightarrow> handshake_from_bytes (reassemble (tl (handshake_to_bytes m)) (hm_type m)) = Inr m"
  using handshake_from_to [of m] by (simp add: reassemble_def handshake_to_bytes_def)

lemma hello_sendable: "sendable MSG_HANDSHAKE_1" "sendable MSG_HANDSHAKE_2" "sendable MSG_HANDSHAKE_3" "sendable MSG_DATA"
  by (simp_all add: sendable_def is_channel_passthrough_def MSG_HANDSHAKE_1_def MSG_HANDSHAKE_2_def MSG_HANDSHAKE_3_def MSG_DATA_def
      word_le_nat_alt)

lemma hello_fits: "length (hm_ephemeral_pk m) = 32 \<Longrightarrow> length (hm_payload m) \<le> 32 \<Longrightarrow> frame_fits (tl (handshake_to_bytes m))"
  by (simp add: frame_fits_def handshake_to_bytes_def MAX_FRAME_SIZE_def)


lemma goes_hs: "m hs = (Inr x, hs') \<Longrightarrow> goes P (hs_call m hs) (x, hs') P"
  unfolding hs_call_def by (rule goes_lift) simp

lemma goes_send_seq: "sendable t \<Longrightarrow> frame_fits p \<Longrightarrow> goes (link_at inb (out @ wire_frame (t, p)) tr) n y Q \<Longrightarrow>
    goes (link_at inb out tr) (seqM (on_conn (send_frame t p)) n) y Q"
  by (rule goes_seqM [OF goes_link_send])

lemma goes_recv_bnd: "frame_fits p \<Longrightarrow> goes (link_at inb out tr) (f (t, p)) y Q \<Longrightarrow>
    goes (link_at (wire_frame (t, p) @ inb) out tr) (bnd (on_conn recv_frame) f) y Q"
  by (rule goes_bnd [OF goes_link_recv])

lemma goes_lift_bnd: "r = Inr x \<Longrightarrow> goes P (f x) y Q \<Longrightarrow> goes P (bnd (lift r) f) y Q"
  by (rule goes_bnd [OF goes_lift])

lemma goes_hs_bnd: "m hs = (Inr x, hs') \<Longrightarrow> goes P (f (x, hs')) y Q \<Longrightarrow> goes P (bnd (hs_call m hs) f) y Q"
  by (rule goes_bnd [OF goes_hs])

lemma initiator_goes:
  assumes "dh_ok (ne_crypto NE)" "is_secret si" "is_secret sr" "is_secret ei" "is_secret er"
    and "dh_generate (ne_crypto NE) draw = Inr ei" "ep_static_secret ep = si" "pk_transport peer = cc_public (ne_crypto NE) sr"
  shows "goes (link_at (hello_frame (hello2 NE sr er) @ rest) out tr) (drive_initiator NE draw ep peer)
    (initiator_done NE si ei sr er, handshake_to_bytes (hello1 NE si ei), handshake_to_bytes (hello2 NE sr er), handshake_to_bytes hello3)
    (link_at rest (out @ hello_frame (hello1 NE si ei) @ hello_frame hello3) tr)"
proof -
  note len = public_len [OF assms(1)]
  let ?C = "ne_crypto NE"
  let ?hs = "\<lparr>hs_static = si, hs_ephemeral = Some ei, hs_peer_static = Some (cc_public ?C sr), hs_peer_ephemeral = None,
      hs_transcript = cc_public ?C ei, hs_is_initiator = True, hs_step = Suc 0\<rparr>"
  have start: "handshake_start ?C draw (handshake_new si (cc_public ?C sr) True)
      = (Inr \<lparr>hm_type = MSG_HANDSHAKE_1, hm_ephemeral_pk = cc_public ?C ei, hm_payload = []\<rparr>, ?hs)"
    using assms(6) by (simp add: handshake_start_def handshake_new_def)
  have fits: "frame_fits (tl (handshake_to_bytes (hello1 NE si ei)))" "frame_fits (tl (handshake_to_bytes (hello2 NE sr er)))"
      "frame_fits (tl (handshake_to_bytes hello3))"
    by (intro hello_fits; simp add: hello1_def hello2_def hello3_def transport_public_key_def len assms(2-5))+
  have read: "or_handshake (handshake_from_bytes (reassemble (tl (handshake_to_bytes (hello2 NE sr er))) 2)) = Inr (hello2 NE sr er)"
    using hello_wire [of "hello2 NE sr er"] by (simp add: hello2_def or_handshake_def len assms(5) MSG_HANDSHAKE_2_def)
  have msg2: "process_msg2 (hello2 NE sr er) ?hs = (Inr hello3, initiator_done NE si ei sr er)"
    by (simp add: process_msg2_def hello2_def hello3_def initiator_done_def Let_def)
  have m1: "\<lparr>hm_type = MSG_HANDSHAKE_1, hm_ephemeral_pk = cc_public ?C ei, hm_payload = transport_public_key NE si\<rparr> = hello1 NE si ei"
    by (simp add: hello1_def)
  have types: "hm_type (hello1 NE si ei) = MSG_HANDSHAKE_1" "hm_type (hello2 NE sr er) = MSG_HANDSHAKE_2" "hm_type hello3 = MSG_HANDSHAKE_3"
    by (simp_all add: hello1_def hello2_def hello3_def)
  have pk: "transport_pk_bytes peer = Inr (cc_public ?C sr)" using assms(3,8) by (simp add: transport_pk_bytes_def len)
  have step: "step3_check (initiator_done NE si ei sr er) = Inr ()" by (simp add: step3_check_def initiator_done_def Let_def)
  show ?thesis
    unfolding drive_initiator_def hello_frame_def assms(7)
    apply (rule goes_lift_bnd [OF pk], rule goes_hs_bnd, rule start)
    apply (simp add: Let_def m1 types hello_sendable fits read)
    apply (rule goes_send_seq [OF hello_sendable(1) fits(1)], rule goes_recv_bnd [OF fits(2)])
    apply (simp add: read)
    apply (rule goes_lift_bnd [OF refl], rule goes_hs_bnd, rule msg2)
    apply (simp add: types)
    apply (rule goes_send_seq [OF hello_sendable(3) fits(3)], rule goes_seqM [OF goes_lift [OF step]])
    apply (simp add: goes_ret)
    done
qed


lemma responder_goes:
  assumes "dh_ok (ne_crypto NE)" "is_secret si" "is_secret sr" "is_secret ei" "is_secret er"
    and "dh_generate (ne_crypto NE) draw = Inr er" "ep_static_secret ep = sr"
    and "check_and_track (tl (handshake_to_bytes (hello1 NE si ei))) tr = (True, tr')"
  shows "goes (link_at (hello_frame (hello1 NE si ei) @ hello_frame hello3 @ rest) out tr) (drive_responder NE draw ep)
    (responder_done NE si ei sr er, handshake_to_bytes (hello1 NE si ei), handshake_to_bytes (hello2 NE sr er), handshake_to_bytes hello3)
    (link_at rest (out @ hello_frame (hello2 NE sr er)) tr')"
proof -
  note len = public_len [OF assms(1)]
  let ?C = "ne_crypto NE"
  let ?hs = "\<lparr>hs_static = sr, hs_ephemeral = Some er, hs_peer_static = Some (cc_public ?C si), hs_peer_ephemeral = Some (cc_public ?C ei),
      hs_transcript = cc_public ?C ei @ cc_public ?C er, hs_is_initiator = False, hs_step = 2\<rparr>"
  have fits: "frame_fits (tl (handshake_to_bytes (hello1 NE si ei)))" "frame_fits (tl (handshake_to_bytes (hello2 NE sr er)))"
      "frame_fits (tl (handshake_to_bytes hello3))"
    by (intro hello_fits; simp add: hello1_def hello2_def hello3_def transport_public_key_def len assms(2-5))+
  have read1: "or_handshake (handshake_from_bytes (reassemble (tl (handshake_to_bytes (hello1 NE si ei))) 1)) = Inr (hello1 NE si ei)"
    using hello_wire [of "hello1 NE si ei"] by (simp add: hello1_def or_handshake_def len assms(4) MSG_HANDSHAKE_1_def)
  have read3: "or_handshake (handshake_from_bytes (reassemble (tl (handshake_to_bytes hello3)) 3)) = Inr hello3"
    using hello_wire [of hello3] by (simp add: hello3_def or_handshake_def MSG_HANDSHAKE_3_def)
  have static: "initiator_static_from_msg1 (hello1 NE si ei) = Inr (cc_public ?C si)"
    by (simp add: initiator_static_from_msg1_def hello1_def transport_public_key_def len assms(2))
  have msg1: "process_msg1 ?C draw (hello1 NE si ei) (handshake_new sr (cc_public ?C si) False)
      = (Inr \<lparr>hm_type = MSG_HANDSHAKE_2, hm_ephemeral_pk = cc_public ?C er, hm_payload = []\<rparr>, ?hs)"
    using assms(6) by (simp add: process_msg1_def handshake_new_def hello1_def Let_def)
  have msg3: "process_msg3 hello3 ?hs = (Inr (), responder_done NE si ei sr er)"
    by (simp add: process_msg3_def hello3_def responder_done_def Let_def)
  have m2: "\<lparr>hm_type = MSG_HANDSHAKE_2, hm_ephemeral_pk = cc_public ?C er, hm_payload = transport_public_key NE sr\<rparr> = hello2 NE sr er"
    by (simp add: hello2_def)
  have types: "hm_type (hello1 NE si ei) = MSG_HANDSHAKE_1" "hm_type (hello2 NE sr er) = MSG_HANDSHAKE_2" "hm_type hello3 = MSG_HANDSHAKE_3"
    by (simp_all add: hello1_def hello2_def hello3_def)
  have track: "goes (link_at inb o1 tr)
      (\<lambda>s. case check_and_track (tl (handshake_to_bytes (hello1 NE si ei))) (lk_replay s) of (fresh, t) \<Rightarrow> (Inr fresh, s\<lparr>lk_replay := t\<rparr>))
      True (link_at inb o1 tr')" for inb o1
    using assms(8) by (auto simp: goes_def link_at_def)
  show ?thesis
    unfolding drive_responder_def hello_frame_def assms(7) types
    apply (rule goes_recv_bnd [OF fits(1)], simp only: prod.case read1)
    apply (rule goes_lift_bnd [OF refl], rule goes_bnd, rule track, simp only: not_True_eq_False if_False)
    apply (rule goes_lift_bnd [OF static], rule goes_hs_bnd, rule msg1)
    apply (simp add: Let_def m2 types)
    apply (rule goes_send_seq [OF hello_sendable(2) fits(2)], rule goes_recv_bnd [OF fits(3)], simp only: prod.case read3)
    apply (rule goes_lift_bnd [OF refl], rule goes_hs_bnd, rule msg3)
    apply (simp add: goes_ret)
    done
qed


section \<open>The exchange of claims\<close>

definition net_ok :: "net_env \<Rightarrow> bool" where
  "net_ok NE \<longleftrightarrow> json_ok NE \<and> sig_ok NE \<and> dh_ok (ne_crypto NE) \<and> hkdf_ok (ne_crypto NE) \<and> aead_ok (ne_crypto NE) \<and>
     (\<forall>b. length (cc_sha3 (ne_crypto NE) b) = 32) \<and> (\<forall>i n b. ne_random NE i n = Inr b \<longrightarrow> length b = n) \<and>
     (\<forall>seed u ctx n k. ne_derive_key NE seed u ctx n = Some k \<longrightarrow> length k = n) \<and>
     (\<forall>x s. length x = 32 \<longrightarrow> ne_key_pair NE x = Inr s \<longrightarrow> is_secret s)"

lemma derived_secret: "net_ok NE \<Longrightarrow> derive_transport_secret NE seed dev = Inr s \<Longrightarrow> is_secret s"
proof -
  assume ok: "net_ok NE" and "derive_transport_secret NE seed dev = Inr s"
  then obtain k where "ne_derive_key NE seed TRANSPORT_KEY_DOMAIN (dec dev) 32 = Some k" "ne_key_pair NE (take 32 k) = Inr s"
    by (auto simp: derive_transport_secret_def split: option.splits sum.splits)
  moreover from this ok have "length (take 32 k) = 32" unfolding net_ok_def by auto
  ultimately show "is_secret s" using ok unfolding net_ok_def by blast
qed

lemma signed_claim:
  assumes "net_ok NE" "sign_auth_claim NE draw seed dev peer tr = Inr claim"
  shows "claim_wf claim" "ac_fingerprint claim = fingerprint_of_seed NE seed"
    "derive_transport_secret NE seed dev = Inr s \<Longrightarrow> ac_x25519_pk claim = transport_public_key NE s"
proof -
  obtain s' nonce where s': "derive_transport_secret NE seed dev = Inr s'" "ne_random NE draw 16 = Inr nonce"
      "ac_fingerprint claim = fingerprint_of_seed NE seed" "ac_x25519_pk claim = transport_public_key NE s'"
      "ac_nonce claim = nonce" "ac_protocol_version claim = PROTOCOL_VERSION"
    using assms(2) by (auto simp: sign_auth_claim_def and_then_def Let_def split: sum.splits)
  have "length nonce = 16" using assms(1) s'(2) unfolding net_ok_def by blast
  moreover have "length (transport_public_key NE s') = 32"
    using public_len [of "ne_crypto NE" s'] derived_secret [OF assms(1) s'(1)] assms(1)
    by (simp add: transport_public_key_def net_ok_def)
  ultimately show "claim_wf claim" using s' assms(1)
    by (simp add: claim_wf_def fingerprint_of_seed_def PROTOCOL_VERSION_def net_ok_def)
  show "ac_fingerprint claim = fingerprint_of_seed NE seed" by (rule s'(3))
  show "derive_transport_secret NE seed dev = Inr s \<Longrightarrow> ac_x25519_pk claim = transport_public_key NE s" using s' by simp
qed

definition claim_frame :: "net_env \<Rightarrow> auth_claim \<Rightarrow> bytes" where
  "claim_frame NE claim = wire_frame (wire_to_u8 WAuthClaim, ne_to_vec NE (claim_json claim))"

definition ok_frame :: "net_env \<Rightarrow> bytes" where
  "ok_frame NE = wire_frame (wire_to_u8 WAuthOk, ne_to_vec NE (auth_ok_json []))"

lemma auth_initiator_goes:
  assumes "json_ok NE" "sign_auth_claim NE draw (ep_seed ep) (ep_device_index ep) (pk_fingerprint peer) tr = Inr claim"
    "frame_fits (ne_to_vec NE (claim_json claim))" "frame_fits (ne_to_vec NE (auth_ok_json []))"
  shows "goes (conn_at (ok_frame NE @ rest) out) (auth_initiator NE draw ep peer tr) (pk_fingerprint peer)
    (conn_at rest (out @ claim_frame NE claim))"
proof -
  have expect: "goes (conn_at (ok_frame NE @ rest) o1) (expect_auth_ok NE) [] (conn_at rest o1)" for o1
    unfolding expect_auth_ok_def ok_frame_def
    apply (rule goes_bnd [OF goes_recv [OF assms(4)]])
    apply (simp add: decode_encoded [OF assms(1), of read_auth_ok "auth_ok_json []" "[]"] goes_lift)
    done
  show ?thesis
    unfolding auth_initiator_def claim_frame_def
    apply (rule goes_lift_bnd [OF assms(2)], rule goes_lift_bnd, simp add: encode_payload_def)
    apply (rule goes_seqM [OF goes_send [OF sendable_wire assms(3)]], rule goes_bnd [OF expect goes_ret])
    done
qed

lemma auth_responder_goes:
  assumes "json_ok NE" "claim_wf claim" "ep_resolver ep (ac_fingerprint claim) = Some keys"
    "pk_transport keys = ac_x25519_pk claim" "verify_auth_claim NE keys claim (ep_fingerprint ep) tr = Inr ()"
    "frame_fits (ne_to_vec NE (claim_json claim))" "frame_fits (ne_to_vec NE (auth_ok_json []))"
  shows "goes (conn_at (claim_frame NE claim @ rest) out) (auth_responder NE ep tr) (ac_fingerprint claim)
    (conn_at rest (out @ ok_frame NE))"
proof -
  have pk: "transport_pk_bytes keys = Inr (ac_x25519_pk claim)"
    using assms(2,4) by (simp add: transport_pk_bytes_def claim_wf_def)
  show ?thesis
    unfolding auth_responder_def claim_frame_def ok_frame_def
    apply (rule goes_bnd [OF goes_recv [OF assms(6)]])
    apply (simp add: decode_encoded [OF assms(1), of read_claim "claim_json claim" claim] read_claim_json [OF assms(2)] del: wire_to_u8.simps)
    apply (rule goes_lift_bnd [OF refl], simp add: assms(3) del: wire_to_u8.simps)
    apply (rule goes_lift_bnd [OF pk], simp add: assms(5) encode_payload_def del: wire_to_u8.simps)
    apply (rule goes_lift_bnd [OF refl], rule goes_seqM [OF goes_send [OF sendable_wire assms(7)] goes_ret])
    done
qed


lemma drive_result:
  assumes "goes (link_at a b tr) (if is_init then drive_initiator NE draw ep peer else drive_responder NE draw ep) (hs, m1, m2, m3) (link_at a1 b1 tr1)"
    and "hs_step hs = 3" "finalize (ne_crypto NE) hs = Inr (secret, sid)"
    and "goes (conn_at a1 b1) (if is_init then auth_initiator NE draw ep peer (handshake_transcript NE m1 m2 m3)
          else auth_responder NE ep (handshake_transcript NE m1 m2 m3)) fp (conn_at a2 b2)"
    and "init_ratchet (ne_crypto NE) secret is_init = Inr keys" and "link_at a b tr s"
  shows "\<exists>p t. drive NE draw ep peer is_init s = (Inr p, t) \<and> sp_session p = session_with_defaults keys \<and> sp_peer p = fp \<and>
    sp_is_initiator p = is_init \<and> conn_at a2 b2 (sp_conn p) \<and> lk_replay t = tr1"
proof -
  obtain s1 where s1: "(if is_init then drive_initiator NE draw ep peer else drive_responder NE draw ep) s = (Inr (hs, m1, m2, m3), s1)"
      "link_at a1 b1 tr1 s1"
    using goesD [OF assms(1,6)] by blast
  obtain s2 where s2: "on_conn (if is_init then auth_initiator NE draw ep peer (handshake_transcript NE m1 m2 m3)
          else auth_responder NE ep (handshake_transcript NE m1 m2 m3)) s1 = (Inr fp, s2)" "link_at a2 b2 tr1 s2"
    using goesD [OF goes_on_conn [OF assms(4)] s1(2)] by blast
  show ?thesis
    using s1 s2 assms(2,3,5)
    by (simp add: drive_def bnd_def seqM_def lift_def step3_check_def or_handshake_def Let_def gets_def ret_def link_at_def)
qed

text \<open>Two pipes whose sessions have just been set up and are in step in both directions.\<close>

definition in_step :: "secure_pipe \<Rightarrow> secure_pipe \<Rightarrow> bool" where
  "in_step a b \<longleftrightarrow> session_ok aead_limits_default 0 (sp_session a) \<and> session_ok aead_limits_default 0 (sp_session b) \<and>
     recv_half 0 (sp_session b) = send_half (sp_session a) \<and> recv_half 0 (sp_session a) = send_half (sp_session b) \<and>
     ut_send (rs_usage (sp_session a)) = direction_usage_default \<and> ut_send (rs_usage (sp_session b)) = direction_usage_default"

lemma default_limits_ok: "session_ok aead_limits_default 0 (session_with_defaults keys)"
  unfolding session_with_defaults_def
  by (rule session_new_ok) (simp add: aead_limits_default_def DEFAULT_MAX_MESSAGES_def u64_max_def)

lemma fresh_usage: "ut_send (rs_usage (session_new keys lim)) = direction_usage_default"
  by (simp add: session_new_def usage_tracker_new_def)

text \<open>What the two endpoints are, know of each other and can do.\<close>

definition acquainted :: "net_env \<Rightarrow> nat \<Rightarrow> endpoint \<Rightarrow> endpoint \<Rightarrow> peer_keys \<Rightarrow> bool" where
  "acquainted NE draw ei er keysr \<longleftrightarrow>
     (\<exists>resi. endpoint_new NE (ep_seed ei) (ep_device_index ei) resi = Inr ei) \<and>
     (\<exists>resr. endpoint_new NE (ep_seed er) (ep_device_index er) resr = Inr er) \<and>
     peer_keys_from_seed NE (ep_seed er) (ep_device_index er) = Inr keysr \<and>
     (\<exists>keysi. peer_keys_from_seed NE (ep_seed ei) (ep_device_index ei) = Inr keysi \<and> ep_resolver er (ep_fingerprint ei) = Some keysi) \<and>
     (\<forall>tr. \<exists>claim. sign_auth_claim NE draw (ep_seed ei) (ep_device_index ei) (ep_fingerprint er) tr = Inr claim \<and>
        frame_fits (ne_to_vec NE (claim_json claim))) \<and>
     frame_fits (ne_to_vec NE (auth_ok_json []))"

lemma endpoint_new_eq:
  "endpoint_new NE seed dev res = Inr ep \<longleftrightarrow> (\<exists>s. derive_transport_secret NE seed dev = Inr s \<and>
     ep = \<lparr>ep_seed = seed, ep_device_index = dev, ep_fingerprint = fingerprint_of_seed NE seed, ep_static_secret = s, ep_resolver = res\<rparr>)"
  by (auto simp: endpoint_new_def and_then_eq)

lemma peer_keys_eq:
  "peer_keys_from_seed NE seed dev = Inr k \<Longrightarrow> derive_transport_secret NE seed dev = Inr s \<Longrightarrow>
   pk_fingerprint k = fingerprint_of_seed NE seed \<and> pk_transport k = transport_public_key NE s"
  by (auto simp: peer_keys_from_seed_def and_then_def split: sum.splits)

lemma fresh_tracked: "frame_key f = Some k \<Longrightarrow> k \<notin> rt_seen t \<Longrightarrow> \<exists>t'. check_and_track f t = (True, t')"
  by (auto simp: frame_key_def check_and_track_def Let_def split: if_splits prod.splits)

lemma hello1_key:
  "dh_ok (ne_crypto NE) \<Longrightarrow> is_secret eph \<Longrightarrow>
   frame_key (tl (handshake_to_bytes (hello1 NE s eph))) = Some (take REPLAY_NONCE_LEN (cc_public (ne_crypto NE) eph))"
  using public_len [of "ne_crypto NE" eph] by (simp add: frame_key_def handshake_to_bytes_def hello1_def REPLAY_NONCE_LEN_def)

text \<open>The secrets and records behind \<open>acquainted\<close>.\<close>

lemma acquaintedE:
  assumes "net_ok NE" "acquainted NE di ei er keysr"
  obtains si sr keysi where "is_secret si" "is_secret sr" "ep_static_secret ei = si" "ep_static_secret er = sr"
    "pk_fingerprint keysr = ep_fingerprint er" "pk_transport keysr = cc_public (ne_crypto NE) sr"
    "peer_keys_from_seed NE (ep_seed ei) (ep_device_index ei) = Inr keysi" "ep_resolver er (ep_fingerprint ei) = Some keysi"
    "derive_transport_secret NE (ep_seed ei) (ep_device_index ei) = Inr si"
    "ep_fingerprint ei = fingerprint_of_seed NE (ep_seed ei)" "pk_transport keysi = transport_public_key NE si"
proof -
  note kn = assms(2) [unfolded acquainted_def]
  obtain si where si: "derive_transport_secret NE (ep_seed ei) (ep_device_index ei) = Inr si" "ep_static_secret ei = si"
      "ep_fingerprint ei = fingerprint_of_seed NE (ep_seed ei)"
    using kn by (metis endpoint.select_convs(1-4) endpoint_new_eq)
  obtain sr where sr: "derive_transport_secret NE (ep_seed er) (ep_device_index er) = Inr sr" "ep_static_secret er = sr"
      "ep_fingerprint er = fingerprint_of_seed NE (ep_seed er)"
    using kn by (metis endpoint.select_convs(1-4) endpoint_new_eq)
  obtain keysi where keysi: "peer_keys_from_seed NE (ep_seed ei) (ep_device_index ei) = Inr keysi" "ep_resolver er (ep_fingerprint ei) = Some keysi"
    using kn by blast
  have "pk_fingerprint keysr = ep_fingerprint er" "pk_transport keysr = cc_public (ne_crypto NE) sr"
    using kn peer_keys_eq [OF _ sr(1), of keysr] sr(3) by (auto simp: transport_public_key_def)
  with si sr keysi peer_keys_eq [OF keysi(1) si(1)] derived_secret [OF assms(1)] show thesis by (intro that) auto
qed

text \<open>The handshake alone: both sides end with one secret, whatever the cuts of the stream.\<close>

lemma endpoints_meet_runs:
  assumes ok: "net_ok NE" and know: "acquainted NE di ei er keysr"
    and fresh: "\<And>eph. dh_generate (ne_crypto NE) di = Inr eph \<Longrightarrow> take REPLAY_NONCE_LEN (cc_public (ne_crypto NE) eph) \<notin> rt_seen tr"
  obtains wi wr where "\<And>ci cr resti restr ti. conn_at (wr @ resti) outi ci \<Longrightarrow> conn_at (wi @ restr) outr cr \<Longrightarrow>
    \<exists>pi pr li lr. drive NE di ei keysr True \<lparr>lk_conn = ci, lk_replay = ti\<rparr> = (Inr pi, li) \<and>
      drive NE dr er default_unknown False \<lparr>lk_conn = cr, lk_replay = tr\<rparr> = (Inr pr, lr) \<and>
      conn_at resti (outi @ wi) (sp_conn pi) \<and> conn_at restr (outr @ wr) (sp_conn pr) \<and>
      sp_peer pi = ep_fingerprint er \<and> sp_peer pr = ep_fingerprint ei \<and> in_step pi pr"
proof -
  let ?C = "ne_crypto NE"
  from ok have laws: "json_ok NE" "sig_ok NE" "dh_ok ?C" "hkdf_ok ?C" unfolding net_ok_def by blast+
  obtain si sr keysi where sec: "is_secret si" "is_secret sr" and st: "ep_static_secret ei = si" "ep_static_secret er = sr"
    and kr: "pk_fingerprint keysr = ep_fingerprint er" "pk_transport keysr = cc_public ?C sr"
    and ki: "peer_keys_from_seed NE (ep_seed ei) (ep_device_index ei) = Inr keysi" "ep_resolver er (ep_fingerprint ei) = Some keysi"
      "derive_transport_secret NE (ep_seed ei) (ep_device_index ei) = Inr si"
      "ep_fingerprint ei = fingerprint_of_seed NE (ep_seed ei)" "pk_transport keysi = transport_public_key NE si"
    by (rule acquaintedE [OF ok know])
  obtain a where a: "dh_generate ?C di = Inr a" "is_secret a" using generate_ok [OF laws(3)] by blast
  obtain b where b: "dh_generate ?C dr = Inr b" "is_secret b" using generate_ok [OF laws(3)] by blast
  define tx where "tx = handshake_transcript NE (handshake_to_bytes (hello1 NE si a)) (handshake_to_bytes (hello2 NE sr b)) (handshake_to_bytes hello3)"
  from know obtain claim where claim: "sign_auth_claim NE di (ep_seed ei) (ep_device_index ei) (pk_fingerprint keysr) tx = Inr claim"
      "frame_fits (ne_to_vec NE (claim_json claim))" and ack: "frame_fits (ne_to_vec NE (auth_ok_json []))"
    unfolding acquainted_def kr(1) by blast
  note sc = signed_claim [OF ok claim(1)]
  have verify: "verify_auth_claim NE keysi claim (ep_fingerprint er) tx = Inr ()"
    using claim_verify_iff [OF laws(2) claim(1) ki(1) refl] kr(1) by simp
  obtain secret sid where fin: "finalize ?C (initiator_done NE si a sr b) = Inr (secret, sid)" "finalize ?C (responder_done NE si a sr b) = Inr (secret, sid)"
    by (rule finalize_agree [OF laws(3,4) sec a(2) b(2), of "initiator_done NE si a sr b" "responder_done NE si a sr b"])
      (simp_all add: initiator_done_def responder_done_def Let_def)
  obtain keyi keyr where keys: "init_ratchet ?C secret True = Inr keyi" "init_ratchet ?C secret False = Inr keyr"
      "recv_half 0 (session_new keyr aead_limits_default) = send_half (session_new keyi aead_limits_default)"
      "recv_half 0 (session_new keyi aead_limits_default) = send_half (session_new keyr aead_limits_default)"
    using ratchets_cross [OF laws(4)] by metis
  obtain tr' where track: "check_and_track (tl (handshake_to_bytes (hello1 NE si a))) tr = (True, tr')"
    using fresh_tracked [OF hello1_key [OF laws(3) a(2)] fresh [OF a(1)]] by blast
  note run_i = initiator_goes [OF laws(3) sec a(2) b(2) a(1) st(1) kr(2)]
  note run_r = responder_goes [OF laws(3) sec a(2) b(2) b(1) st(2) track]
  note auth_i = auth_initiator_goes [OF laws(1) claim ack]
  have auth_r: "goes (conn_at (claim_frame NE claim @ rest) out) (auth_responder NE er tx) (ep_fingerprint ei) (conn_at rest (out @ ok_frame NE))" for rest out
    using auth_responder_goes [OF laws(1) sc(1) _ _ verify claim(2) ack] sc(2,3) ki by simp
  let ?wi = "hello_frame (hello1 NE si a) @ hello_frame hello3 @ claim_frame NE claim"
  let ?wr = "hello_frame (hello2 NE sr b) @ ok_frame NE"
  show thesis
  proof (rule that)
    fix ci cr resti restr ti
    assume c: "conn_at (?wr @ resti) outi ci" "conn_at (?wi @ restr) outr cr"
    have "\<exists>p t. drive NE di ei keysr True \<lparr>lk_conn = ci, lk_replay = ti\<rparr> = (Inr p, t) \<and> sp_session p = session_with_defaults keyi \<and>
        sp_peer p = pk_fingerprint keysr \<and> sp_is_initiator p = True \<and>
        conn_at resti ((outi @ hello_frame (hello1 NE si a) @ hello_frame hello3) @ claim_frame NE claim) (sp_conn p) \<and> lk_replay t = ti"
      by (rule drive_result [where is_init = True, unfolded if_True, OF run_i _ fin(1) auth_i [unfolded tx_def] keys(1)])
        (use c(1) in \<open>simp_all add: initiator_done_def link_at_def Let_def\<close>)
    moreover have "\<exists>p t. drive NE dr er default_unknown False \<lparr>lk_conn = cr, lk_replay = tr\<rparr> = (Inr p, t) \<and> sp_session p = session_with_defaults keyr \<and>
        sp_peer p = ep_fingerprint ei \<and> sp_is_initiator p = False \<and>
        conn_at restr ((outr @ hello_frame (hello2 NE sr b)) @ ok_frame NE) (sp_conn p) \<and> lk_replay t = tr'"
      by (rule drive_result [where is_init = False, unfolded if_False, OF run_r _ fin(2) auth_r [unfolded tx_def] keys(2)])
        (use c(2) in \<open>simp_all add: responder_done_def link_at_def Let_def\<close>)
    moreover have "sp_session pa = session_with_defaults keyi \<Longrightarrow> sp_session pb = session_with_defaults keyr \<Longrightarrow> in_step pa pb" for pa pb
      using keys(3,4) default_limits_ok fresh_usage by (simp add: in_step_def session_with_defaults_def)
    ultimately show "\<exists>pi pr li lr. drive NE di ei keysr True \<lparr>lk_conn = ci, lk_replay = ti\<rparr> = (Inr pi, li) \<and>
      drive NE dr er default_unknown False \<lparr>lk_conn = cr, lk_replay = tr\<rparr> = (Inr pr, lr) \<and>
      conn_at resti (outi @ ?wi) (sp_conn pi) \<and> conn_at restr (outr @ ?wr) (sp_conn pr) \<and>
      sp_peer pi = ep_fingerprint er \<and> sp_peer pr = ep_fingerprint ei \<and> in_step pi pr"
      using kr(1) by (metis (no_types, lifting) append.assoc)
  qed
qed

section \<open>Instances\<close>

lemma put_nat_small: "n < 256 \<Longrightarrow> length (put_nat n) \<le> 3"
proof -
  assume "n < 256"
  then have "n div 255 = 0 \<or> n div 255 = 1" by arith
  moreover have "length (put_nat 0) = 1" "length (put_nat (Suc 0)) = 2" by (simp_all add: put_nat.simps)
  ultimately show ?thesis by (subst put_nat.simps) auto
qed

lemma put_bytes_small: "length (put_json (JBytes b)) \<le> 2 + 6 * length b"
proof -
  have "length (put_list put_json (map (\<lambda>x. JNum (uint x)) b)) \<le> 1 + 6 * length b"
  proof (induction b)
    case (Cons x b)
    have "unat x < 2 ^ LENGTH(8)" by (rule unsigned_less)
    then have "length (put_nat (unat x)) \<le> 3" by (intro put_nat_small) simp
    moreover have "put_int (uint x) = 0 # put_nat (unat x)" by (simp add: put_int_def)
    ultimately show ?case using Cons by simp
  qed simp
  then show ?thesis by (simp add: JBytes_def)
qed

definition example_endpoint :: "byte \<Rightarrow> (fingerprint \<Rightarrow> peer_keys option) \<Rightarrow> endpoint" where
  "example_endpoint b res = \<lparr>ep_seed = replicate 32 b, ep_device_index = 0, ep_fingerprint = replicate 32 b,
     ep_static_secret = replicate 32 b, ep_resolver = res\<rparr>"

definition example_keys :: "byte \<Rightarrow> peer_keys" where
  "example_keys b = \<lparr>pk_fingerprint = replicate 32 b, pk_device_index = 0, pk_ed25519 = replicate 32 b, pk_falcon = replicate 32 b,
     pk_transport = replicate 32 b\<rparr>"

lemma example_identity:
  assumes "b \<noteq> 0"
  shows "derive_transport_secret example_net (replicate 32 b) 0 = Inr (replicate 32 b)"
    "endpoint_new example_net (replicate 32 b) 0 res = Inr (example_endpoint b res)"
    "peer_keys_from_seed example_net (replicate 32 b) 0 = Inr (example_keys b)"
proof -
  show d: "derive_transport_secret example_net (replicate 32 b) 0 = Inr (replicate 32 b)"
    using assms by (simp add: derive_transport_secret_def)
  have f: "fingerprint_of_seed example_net (replicate 32 b) = replicate 32 b"
    by (simp add: fingerprint_of_seed_def example_crypto_def)
  show "endpoint_new example_net (replicate 32 b) 0 res = Inr (example_endpoint b res)"
    by (simp add: endpoint_new_def d f example_endpoint_def)
  have "ne_ed_pk example_net (replicate 32 b) = replicate 32 b" "ne_falcon_pk example_net (replicate 32 b) = replicate 32 b"
    by (simp_all add: example_net_def)
  then show "peer_keys_from_seed example_net (replicate 32 b) 0 = Inr (example_keys b)"
    by (simp add: peer_keys_from_seed_def d f example_keys_def transport_public_key_def example_crypto_def)
qed

lemma example_net_all_ok: "net_ok example_net"
  using example_net_ok example_dh_ok example_crypto_ok
  by (auto simp: net_ok_def is_secret_def example_crypto_def split: if_splits)

lemma example_claim_fits:
  "\<exists>claim. sign_auth_claim example_net i (replicate 32 9) 0 peer tr = Inr claim \<and> frame_fits (put_json (claim_json claim))"
proof -
  have len: "length (auth_message example_net fp pk nonce p t) = 32" for fp pk nonce p t
    by (simp add: auth_message_def example_crypto_def)
  have d: "derive_transport_secret example_net (replicate 32 9) 0 = Inr (replicate 32 9)"
    by (rule example_identity(1)) simp
  obtain claim where c: "sign_auth_claim example_net i (replicate 32 9) 0 peer tr = Inr claim"
      "length (ac_fingerprint claim) = 32" "length (ac_x25519_pk claim) = 32" "length (ac_nonce claim) = 16"
      "length (ac_hybrid_signature claim) = 100" "ac_protocol_version claim = 1"
    by (simp add: sign_auth_claim_def d and_then_def len Let_def hybrid_sig_to_wire_def transport_public_key_def fingerprint_of_seed_def
        example_crypto_def PROTOCOL_VERSION_def)
  have "length (put_nat 1) = 2" by (simp add: put_nat.simps)
  then have "length (put_json (claim_json claim)) \<le> 6 * 200 + 200"
    using put_bytes_small [of "ac_fingerprint claim"] put_bytes_small [of "ac_x25519_pk claim"] put_bytes_small [of "ac_nonce claim"]
      put_bytes_small [of "ac_hybrid_signature claim"] c
    by (simp add: claim_json_def put_int_def)
  then show ?thesis using c(1) by (auto simp: frame_fits_def MAX_FRAME_SIZE_def)
qed


lemma example_acquainted:
  "acquainted example_net i (example_endpoint 9 Map.empty) (example_endpoint 8 [replicate 32 9 \<mapsto> example_keys 9]) (example_keys 8)"
proof -
  have "length (put_json (auth_ok_json [])) \<le> 100" by (simp add: auth_ok_json_def)
  then have "frame_fits (put_json (auth_ok_json []))" by (simp add: frame_fits_def MAX_FRAME_SIZE_def)
  then show ?thesis
    using example_identity(2,3) example_claim_fits
    by (auto simp: acquainted_def example_endpoint_def)
qed

definition example_conn_of :: "bytes \<Rightarrow> frame_conn" where
  "example_conn_of w = \<lparr>fc_reads = (if w = [] then [] else [Chunk w]), fc_buf = [], fc_written = [], fc_write_error = None\<rparr>"

lemma example_conn_at: "conn_at w [] (example_conn_of w)"
  by (simp add: conn_at_def example_conn_of_def clean_read_def arriving_def)

section \<open>Dialling ends\<close>

lemma backoff_bound: "backoff n 100 5000 seed < 10000"
proof -
  define ceil where "ceil = min (push_bit (min (n - 1) 31) 100) (5000 :: 64 word)"
  have c: "unat ceil \<le> 5000"
  proof -
    have "ceil \<le> 5000" by (simp add: ceil_def)
    then have "unat ceil \<le> unat (5000 :: 64 word)" by (simp add: word_le_nat_alt)
    then show ?thesis by simp
  qed
  have j: "unat (x mod max ceil 1) < 5000" for x :: "64 word"
  proof -
    have "unat (max ceil 1) \<le> 5000" using c by (simp add: max_def)
    moreover have "1 \<le> unat (max ceil 1)"
    proof -
      have "(1 :: 64 word) \<le> max ceil 1" by simp
      then have "unat (1 :: 64 word) \<le> unat (max ceil 1)" by (simp only: word_le_nat_alt)
      then show ?thesis by simp
    qed
    ultimately have "unat x mod unat (max ceil 1) < 5000" by (meson less_le_trans mod_less_divisor zero_less_one)
    then show ?thesis by (simp add: unat_mod_distrib)
  qed
  have "backoff n 100 5000 seed \<le> unat ceil + unat ((seed XOR drop_bit 17 seed XOR (of_nat n * 0x9e3779b97f4a7c15)) mod max ceil 1)"
    unfolding backoff_def Let_def ceil_def [symmetric] sat_add_u64_def by (rule min.cobounded2)
  with c j [of "seed XOR drop_bit 17 seed XOR (of_nat n * 0x9e3779b97f4a7c15)"] show ?thesis by linarith
qed

text \<open>
  C26: Dialling ends: it makes at most five attempts, waits at most four times, each time
  less than ten seconds, whatever the network does, and only the first five outcomes
  can influence the result.
\<close>

theorem dial_ends:
  "length (snd (dial_loop dials addr seed 0)) \<le> 4 \<and> list_all (\<lambda>w. w < 10000) (snd (dial_loop dials addr seed 0)) \<and>
   dial_loop (\<lambda>i. if i < MAX_ATTEMPTS then dials i else DialTimedOut) addr seed 0 = dial_loop dials addr seed 0"
proof -
  have waits: "length (snd (dial_loop dials addr seed k)) \<le> 4 - k \<and> list_all (\<lambda>w. w < 10000) (snd (dial_loop dials addr seed k))" for k
  proof (induction "5 - k" arbitrary: k)
    case (Suc m)
    then have "m = 5 - (k + 1)" by simp
    from Suc.hyps(1) [OF this] show ?case
      by (subst (1 2) dial_loop.simps) (auto simp: MAX_ATTEMPTS_def backoff_bound split: dial_outcome.splits network_error.splits prod.splits)
  next
    case 0
    then show ?case by (subst (1 2) dial_loop.simps) (auto simp: MAX_ATTEMPTS_def split: dial_outcome.splits network_error.splits)
  qed
  have same: "k < MAX_ATTEMPTS \<Longrightarrow> dial_loop (\<lambda>i. if i < MAX_ATTEMPTS then dials i else DialTimedOut) addr seed k = dial_loop dials addr seed k" for k
  proof (induction "5 - k" arbitrary: k)
    case (Suc m)
    have "k + 1 < MAX_ATTEMPTS \<Longrightarrow> dial_loop (\<lambda>i. if i < MAX_ATTEMPTS then dials i else DialTimedOut) addr seed (k + 1) = dial_loop dials addr seed (k + 1)"
      using Suc by simp
    then show ?case using Suc.prems
      by (subst (1 2) dial_loop.simps) (auto split: dial_outcome.splits network_error.splits)
  qed (simp add: MAX_ATTEMPTS_def)
  show ?thesis using waits [of 0] same [of 0] by (simp add: MAX_ATTEMPTS_def)
qed

section \<open>Whom a responder accepts\<close>

lemma handshake_to_from: "handshake_from_bytes data = Inr m \<Longrightarrow> handshake_to_bytes m = data"
  by (cases data) (auto simp: handshake_from_bytes_def handshake_to_bytes_def split: if_splits)

lemma responder_first_fresh:
  assumes "drive_responder NE draw ep s = (Inr (hs, m1, m2, m3), t)"
  shows "fst (check_and_track (tl m1) (lk_replay s))"
proof -
  obtain tag body s1 msg1 tr where f: "on_conn recv_frame s = (Inr (tag, body), s1)"
      "Inr msg1 = or_handshake (handshake_from_bytes (reassemble body 1))" "check_and_track body (lk_replay s1) = (True, tr)"
      "m1 = handshake_to_bytes msg1"
    using assms by (auto simp: drive_responder_def bnd_Inr seqM_Inr lift_eq ret_Inr throw_def Let_def split: if_splits prod.splits)
  have "lk_replay s1 = lk_replay s" using f(1) by (auto simp: on_conn_def within_eq)
  moreover have "m1 = 1 # body"
    using f(2,4) handshake_to_from by (auto simp: or_handshake_def reassemble_def split: sum.splits)
  ultimately show ?thesis using f(3) by simp
qed

text \<open>
  C17: A responder hands out a pipe only for an identity in its directory, after the
  peer presented a claim of that identity whose transport key is the one on record and
  whose hybrid signature verifies over the responder's own fingerprint and the
  transcript of the very messages this connection exchanged. Its first message had a
  nonce that the replay tracker had not seen.
\<close>

theorem responder_authenticates:
  assumes "drive NE draw ep hint False s = (Inr p, t)"
  shows "\<exists>hs m1 m2 m3 s1 claim keys. drive_responder NE draw ep s = (Inr (hs, m1, m2, m3), s1) \<and>
    ep_resolver ep (sp_peer p) = Some keys \<and> ac_fingerprint claim = sp_peer p \<and> transport_pk_bytes keys = Inr (ac_x25519_pk claim) \<and>
    verify_auth_claim NE keys claim (ep_fingerprint ep) (handshake_transcript NE m1 m2 m3) = Inr () \<and>
    fst (check_and_track (tl m1) (lk_replay s))"
proof -
  obtain hs m1 m2 m3 s1 where run: "drive_responder NE draw ep s = (Inr (hs, m1, m2, m3), s1)"
    using assms by (auto simp: drive_def bnd_Inr)
  obtain c c' where auth: "auth_responder NE ep (handshake_transcript NE m1 m2 m3) c = (Inr (sp_peer p), c')"
    using assms run by (auto simp: drive_def bnd_Inr seqM_Inr lift_eq Let_def on_conn_def within_eq ret_Inr gets_Inr split: prod.splits)
  have rej: "auth_reject NE x e c = (Inr y, c') \<longleftrightarrow> False" for x e y c c'
    by (auto simp: auth_reject_def bnd_Inr seqM_Inr throw_def)
  from auth obtain claim keys where claim: "ep_resolver ep (ac_fingerprint claim) = Some keys" "ac_fingerprint claim = sp_peer p"
      "transport_pk_bytes keys = Inr (ac_x25519_pk claim)" "verify_auth_claim NE keys claim (ep_fingerprint ep) (handshake_transcript NE m1 m2 m3) = Inr ()"
    by (auto simp: auth_responder_def bnd_Inr seqM_Inr lift_eq ret_Inr rej split: if_splits option.splits sum.splits prod.splits)
  have "fst (check_and_track (tl m1) (lk_replay s))" by (rule responder_first_fresh [OF run])
  with run claim show ?thesis by auto
qed


theorem responder_authenticates_witness:
  "\<exists>w p t. \<exists>claim :: auth_claim. drive example_net 2 (example_endpoint 8 [replicate 32 9 \<mapsto> example_keys 9]) default_unknown False
     \<lparr>lk_conn = example_conn_of w, lk_replay = tracker_new\<rparr> = (Inr p, t) \<and> ac_fingerprint claim = sp_peer p \<and> sp_peer p = replicate 32 9"
proof -
  let ?er = "example_endpoint 8 [replicate 32 9 \<mapsto> example_keys 9]"
  have fresh: "take REPLAY_NONCE_LEN (cc_public (ne_crypto example_net) eph) \<notin> rt_seen tracker_new" for eph
    by (simp add: tracker_new_def)
  obtain w p t where run: "drive example_net 2 ?er default_unknown False \<lparr>lk_conn = example_conn_of w, lk_replay = tracker_new\<rparr> = (Inr p, t)"
      "sp_peer p = replicate 32 9"
  proof (rule endpoints_meet_runs [OF example_net_all_ok example_acquainted [of 1] fresh, of "[]" "[]" 2])
    fix wi wr
    assume "\<And>ci cr resti restr ti. conn_at (wr @ resti) [] ci \<Longrightarrow> conn_at (wi @ restr) [] cr \<Longrightarrow>
      \<exists>pi pr li lr. drive example_net 1 (example_endpoint 9 Map.empty) (example_keys 8) True \<lparr>lk_conn = ci, lk_replay = ti\<rparr> = (Inr pi, li) \<and>
        drive example_net 2 ?er default_unknown False \<lparr>lk_conn = cr, lk_replay = tracker_new\<rparr> = (Inr pr, lr) \<and>
        conn_at resti ([] @ wi) (sp_conn pi) \<and> conn_at restr ([] @ wr) (sp_conn pr) \<and>
        sp_peer pi = ep_fingerprint ?er \<and> sp_peer pr = ep_fingerprint (example_endpoint 9 Map.empty) \<and> in_step pi pr"
    from this [of "[]" "example_conn_of wr" "[]" "example_conn_of wi"] show thesis
      using that [of wi] example_conn_at by (auto simp: example_endpoint_def)
  qed
  from responder_authenticates [OF run(1)] run show ?thesis by blast
qed

end
