(* ===== verification/Network_Duplex.thy ===== *)
theory Network_Duplex
  imports Network_Endpoint
begin

text \<open>
  Two secure pipes of \<open>origin-network\<close> joined by a network that delivers bytes in pieces of
  any size, at any time, in both directions. The theorems compose the handshake, the
  framing, the ratchet and the claims.
\<close>

section \<open>Two pipes joined by the network\<close>

text \<open>
  Both pipes, what each side sent and received so far, how many of the bytes written by
  a side were carried to the other one, and whether a receive ever failed.
\<close>

record duplex =
  dp_a :: secure_pipe
  dp_b :: secure_pipe
  dp_sent_a :: "bytes list"
  dp_sent_b :: "bytes list"
  dp_got_a :: "bytes list"
  dp_got_b :: "bytes list"
  dp_moved_a :: nat
  dp_moved_b :: nat
  dp_failed :: bool

definition duplex_start :: "secure_pipe \<Rightarrow> secure_pipe \<Rightarrow> duplex" where
  "duplex_start a b = \<lparr>dp_a = a, dp_b = b, dp_sent_a = [], dp_sent_b = [], dp_got_a = [], dp_got_b = [],
     dp_moved_a = length (fc_written (sp_conn a)), dp_moved_b = length (fc_written (sp_conn b)), dp_failed = False\<rparr>"

definition duplex_swap :: "duplex \<Rightarrow> duplex" where
  "duplex_swap d = \<lparr>dp_a = dp_b d, dp_b = dp_a d, dp_sent_a = dp_sent_b d, dp_sent_b = dp_sent_a d, dp_got_a = dp_got_b d, dp_got_b = dp_got_a d,
     dp_moved_a = dp_moved_b d, dp_moved_b = dp_moved_a d, dp_failed = dp_failed d\<rparr>"

text \<open>The network hands over up to \<open>n\<close> of the bytes that are under way to \<open>b\<close>.\<close>

definition carry :: "nat \<Rightarrow> duplex \<Rightarrow> duplex" where
  "carry n d = (let chunk = take n (drop (dp_moved_a d) (fc_written (sp_conn (dp_a d)))); c = sp_conn (dp_b d) in
     if chunk = [] then d
     else d\<lparr>dp_b := (dp_b d)\<lparr>sp_conn := c\<lparr>fc_reads := fc_reads c @ [Chunk chunk]\<rparr>\<rparr>, dp_moved_a := dp_moved_a d + length chunk\<rparr>)"

definition PIPE_MAX :: nat where
  "PIPE_MAX = MAX_FRAME_SIZE - 49"

definition frame_ready :: "frame_conn \<Rightarrow> bool" where
  "frame_ready c \<longleftrightarrow> (case decode_wire (arriving c) of Inr (Some _) \<Rightarrow> True | _ \<Rightarrow> False)"

inductive duplex_step :: "net_env \<Rightarrow> duplex \<Rightarrow> duplex \<Rightarrow> bool" for NE where
  send: "duplex_step NE d (d\<lparr>dp_a := a', dp_sent_a := dp_sent_a d @ (if r = Inr () then [p] else [])\<rparr>)"
    if "length p \<le> PIPE_MAX" "pipe_send NE p (dp_a d) = (r, a')"
| carry: "duplex_step NE d (carry n d)"
| recv: "duplex_step NE d (d\<lparr>dp_b := b', dp_got_b := dp_got_b d @ (case r of Inr p \<Rightarrow> [p] | Inl e \<Rightarrow> []),
      dp_failed := (dp_failed d \<or> (case r of Inr p \<Rightarrow> False | Inl e \<Rightarrow> True))\<rparr>)"
    if "frame_ready (sp_conn (dp_b d))" "pipe_recv NE (dp_b d) = (r, b')"
| swap: "duplex_step NE (duplex_swap d) (duplex_swap d')" if "duplex_step NE d d'"

definition data_frame :: "channel_message \<Rightarrow> bytes" where
  "data_frame m = wire_frame (MSG_DATA, tl (message_to_bytes m))"

definition data_ok :: "channel_message \<Rightarrow> bool" where
  "data_ok m \<longleftrightarrow> cm_type m = MSG_DATA \<and> message_ok m \<and> frame_fits (tl (message_to_bytes m))"

text \<open>The direction from \<open>a\<close> to \<open>b\<close>: what is sent and not yet received is in flight, as messages and as bytes.\<close>

definition flows :: "net_env \<Rightarrow> secure_pipe \<Rightarrow> secure_pipe \<Rightarrow> bytes list \<Rightarrow> bytes list \<Rightarrow> nat \<Rightarrow> bool" where
  "flows NE a b sent got moved \<longleftrightarrow> moved \<le> length (fc_written (sp_conn a)) \<and>
     (\<exists>ps ms. sent = got @ ps \<and>
        in_flight (ne_crypto NE) aead_limits_default (recv_half (length got) (sp_session b)) ps ms (send_half (sp_session a)) \<and>
        arriving (sp_conn b) @ drop moved (fc_written (sp_conn a)) = concat (map data_frame ms) \<and> list_all data_ok ms)"

definition side_ok :: "secure_pipe \<Rightarrow> nat \<Rightarrow> bool" where
  "side_ok x r \<longleftrightarrow> session_ok aead_limits_default r (sp_session x) \<and> list_all clean_read (fc_reads (sp_conn x)) \<and> fc_write_error (sp_conn x) = None"

definition duplex_inv :: "net_env \<Rightarrow> duplex \<Rightarrow> bool" where
  "duplex_inv NE d \<longleftrightarrow> side_ok (dp_a d) (length (dp_got_a d)) \<and> side_ok (dp_b d) (length (dp_got_b d)) \<and>
     flows NE (dp_a d) (dp_b d) (dp_sent_a d) (dp_got_b d) (dp_moved_a d) \<and>
     flows NE (dp_b d) (dp_a d) (dp_sent_b d) (dp_got_a d) (dp_moved_b d) \<and> \<not> dp_failed d"

lemma duplex_inv_swap: "duplex_inv NE (duplex_swap d) \<longleftrightarrow> duplex_inv NE d"
  by (auto simp: duplex_inv_def duplex_swap_def)

lemma duplex_start_inv:
  assumes "in_step a b" "conn_at [] oa (sp_conn a)" "conn_at [] ob (sp_conn b)"
  shows "duplex_inv NE (duplex_start a b)"
  using assms by (auto simp: duplex_inv_def duplex_start_def side_ok_def flows_def in_step_def conn_at_def intro: in_flight.none)

text \<open>Sending puts one frame on the wire, or changes nothing because the epoch's budget is used up.\<close>

lemma pipe_send_cases:
  assumes "net_ok NE" "side_ok x r" "length p \<le> PIPE_MAX" "pipe_send NE p x = (res, x')"
  obtains e where "res = Inl e" "x' = x"
  | m where "res = Inr ()" "side_ok x' r" "data_ok m"
      "in_flight (ne_crypto NE) aead_limits_default (send_half (sp_session x)) [p] [m] (send_half (sp_session x'))"
      "recv_half r (sp_session x') = recv_half r (sp_session x)"
      "sp_conn x' = (sp_conn x)\<lparr>fc_written := fc_written (sp_conn x) @ data_frame m\<rparr>"
proof -
  let ?C = "ne_crypto NE"
  have laws: "hkdf_ok ?C" "aead_ok ?C" using assms(1) unfolding net_ok_def by blast+
  have small: "length p \<le> AEAD_MAX" using assms(3) by (simp add: PIPE_MAX_def MAX_FRAME_SIZE_def AEAD_MAX_def)
  have ok: "session_ok aead_limits_default r (sp_session x)" using assms(2) by (simp add: side_ok_def)
  show thesis
  proof (rule encrypt_sends [OF laws ok small])
    fix e assume "session_encrypt ?C p (sp_session x) = (Inl (ChUsageLimitExceeded e), sp_session x)"
    then have "res = Inl (NetChannel (channel_error_str (ChUsageLimitExceeded e))) \<and> x' = x"
      using assms(4) by (auto simp: pipe_send_def pipe_session_def bnd_def map_err_def within_def)
    then show thesis using that(1) by blast
  next
    fix m t assume m: "session_encrypt ?C p (sp_session x) = (Inr m, t)"
      and fl: "in_flight ?C aead_limits_default (send_half (sp_session x)) [p] [m] (send_half t)"
      and t: "session_ok aead_limits_default r t" "recv_half r t = recv_half r (sp_session x)" "cm_type m = MSG_DATA"
        "length (cm_ciphertext m) = length p + 16"
    have mok: "message_ok m" using in_flight_messages_ok [OF fl laws(2,1)] by simp
    then have "length (tl (message_to_bytes m)) = length p + 48" using t(4) by (simp add: message_to_bytes_def message_ok_def)
    then have fits: "frame_fits (tl (message_to_bytes m))" using assms(3) by (simp add: frame_fits_def PIPE_MAX_def MAX_FRAME_SIZE_def)
    have "res = Inr () \<and> x' = x\<lparr>sp_session := t, sp_conn := (sp_conn x)\<lparr>fc_written := fc_written (sp_conn x) @ data_frame m\<rparr>\<rparr>"
      using assms(2,4) m t(3) send_frame_ok [OF hello_sendable(4) fits, of "sp_conn x"]
      by (auto simp: pipe_send_def pipe_session_def pipe_conn_def bnd_def map_err_def within_def side_ok_def data_frame_def)
    moreover have "data_ok m" using mok fits t(3) by (simp add: data_ok_def)
    ultimately show thesis using that(2) [of m] fl t assms(2) by (auto simp: side_ok_def)
  qed
qed


text \<open>A frame that can be read is the first one in flight.\<close>

lemma ready_first:
  assumes "frame_ready c" "arriving c @ later = concat (map data_frame ms)" "list_all data_ok ms"
  obtains m ms' rest where "ms = m # ms'" "data_ok m" "arriving c = data_frame m @ rest" "rest @ later = concat (map data_frame ms')"
proof -
  have "decode_wire [] = Inr None" using decode_wire_partial [of "[]" 0] by (simp add: frame_fits_def MAX_FRAME_SIZE_def wire_frame_def)
  with assms(1) have ne: "arriving c \<noteq> []" by (auto simp: frame_ready_def)
  with assms(2) obtain m ms' where ms: "ms = m # ms'" by (cases ms) auto
  with assms(3) have m: "data_ok m" by simp
  then have fits: "frame_fits (tl (message_to_bytes m))" by (simp add: data_ok_def)
  have "length (data_frame m) \<le> length (arriving c)"
  proof (rule ccontr)
    assume short: "\<not> length (data_frame m) \<le> length (arriving c)"
    then have "arriving c = take (length (arriving c)) (data_frame m)"
      using assms(2) ms by (metis (no_types, lifting) append_eq_append_conv_if append_take_drop_id concat.simps(2) linorder_le_cases list.simps(9) take_all_iff)
    then have "decode_wire (arriving c) = Inr None"
      using decode_wire_partial [OF fits, of "length (arriving c)" MSG_DATA] short by (simp add: data_frame_def)
    with assms(1) show False by (simp add: frame_ready_def)
  qed
  then have "arriving c = data_frame m @ drop (length (data_frame m)) (arriving c)"
    using assms(2) ms by (metis append_eq_append_conv_if append_take_drop_id concat.simps(2) list.simps(9))
  with that [OF ms m this] assms(2) ms show thesis by (metis append.assoc append_same_eq concat.simps(2) list.simps(9) same_append_eq)
qed

lemma pipe_recv_first:
  assumes "net_ok NE" "side_ok x r" "data_ok m" "arriving (sp_conn x) = data_frame m @ rest"
    "in_flight (ne_crypto NE) aead_limits_default (recv_half r (sp_session x)) (p # ps) (m # ms) h"
  obtains x' where "pipe_recv NE x = (Inr p, x')" "side_ok x' (r + 1)" "arriving (sp_conn x') = rest"
    "in_flight (ne_crypto NE) aead_limits_default (recv_half (r + 1) (sp_session x')) ps ms h"
    "send_half (sp_session x') = send_half (sp_session x)" "fc_written (sp_conn x') = fc_written (sp_conn x)"
proof -
  let ?C = "ne_crypto NE"
  have laws: "hkdf_ok ?C" "aead_ok ?C" using assms(1) unfolding net_ok_def by blast+
  have m: "message_ok m" "cm_type m = MSG_DATA" "frame_fits (tl (message_to_bytes m))" using assms(3) by (auto simp: data_ok_def)
  obtain c' where c': "recv_frame (sp_conn x) = (Inr (MSG_DATA, tl (message_to_bytes m)), c')" "arriving c' = rest"
      "list_all clean_read (fc_reads c')" "conn_rest c' = conn_rest (sp_conn x)"
    using recv_frame_next [OF _ _ m(3), of "sp_conn x" MSG_DATA rest] assms(2,4) by (auto simp: side_ok_def data_frame_def)
  have whole: "MSG_DATA # tl (message_to_bytes m) = message_to_bytes m" using m(2) by (simp add: message_to_bytes_def)
  obtain t where t: "session_decrypt ?C m (sp_session x) = (Inr p, t)" "in_flight ?C aead_limits_default (recv_half (r + 1) t) ps ms h"
      "session_ok aead_limits_default (r + 1) t" "send_half t = send_half (sp_session x)"
    using decrypt_delivers [OF laws _ assms(5)] assms(2) by (auto simp: side_ok_def)
  have "pipe_recv NE x = (Inr p, x\<lparr>sp_conn := c', sp_session := t\<rparr>)"
    using c'(1) t(1) by (simp add: pipe_recv_def pipe_conn_def pipe_session_def bnd_def within_def lift_def map_err_def whole message_from_to [OF m(1)])
  with c' t assms(2) show thesis by (intro that [of "x\<lparr>sp_conn := c', sp_session := t\<rparr>"]) (auto simp: side_ok_def conn_rest_def)
qed

lemma flows_other:
  "flows NE b a sent got moved \<Longrightarrow> send_half (sp_session b') = send_half (sp_session b) \<Longrightarrow> fc_written (sp_conn b') = fc_written (sp_conn b) \<Longrightarrow>
   recv_half (length got) (sp_session a') = recv_half (length got) (sp_session a) \<Longrightarrow> arriving (sp_conn a') = arriving (sp_conn a) \<Longrightarrow>
   flows NE b' a' sent got moved"
  by (simp add: flows_def)

lemma arriving_written [simp]: "arriving (c\<lparr>fc_written := w\<rparr>) = arriving c"
  by (simp add: arriving_def)

lemma send_keeps_inv:
  assumes "net_ok NE" "duplex_inv NE d" "length p \<le> PIPE_MAX" "pipe_send NE p (dp_a d) = (r, a')"
  shows "duplex_inv NE (d\<lparr>dp_a := a', dp_sent_a := dp_sent_a d @ (if r = Inr () then [p] else [])\<rparr>)"
proof -
  note inv = assms(2) [unfolded duplex_inv_def]
  have side: "side_ok (dp_a d) (length (dp_got_a d))" using inv by blast
  show ?thesis
  proof (rule pipe_send_cases [OF assms(1) side assms(3,4)])
    fix e assume "r = Inl e" "a' = dp_a d"
    with assms(2) show ?thesis by (simp add: duplex_inv_def)
  next
    fix m assume m: "r = Inr ()" "side_ok a' (length (dp_got_a d))" "data_ok m"
      "in_flight (ne_crypto NE) aead_limits_default (send_half (sp_session (dp_a d))) [p] [m] (send_half (sp_session a'))"
      "recv_half (length (dp_got_a d)) (sp_session a') = recv_half (length (dp_got_a d)) (sp_session (dp_a d))"
      "sp_conn a' = (sp_conn (dp_a d))\<lparr>fc_written := fc_written (sp_conn (dp_a d)) @ data_frame m\<rparr>"
    from inv obtain ps ms where f: "dp_moved_a d \<le> length (fc_written (sp_conn (dp_a d)))" "dp_sent_a d = dp_got_b d @ ps"
        "in_flight (ne_crypto NE) aead_limits_default (recv_half (length (dp_got_b d)) (sp_session (dp_b d))) ps ms (send_half (sp_session (dp_a d)))"
        "arriving (sp_conn (dp_b d)) @ drop (dp_moved_a d) (fc_written (sp_conn (dp_a d))) = concat (map data_frame ms)" "list_all data_ok ms"
      unfolding flows_def by blast
    have "flows NE a' (dp_b d) (dp_sent_a d @ [p]) (dp_got_b d) (dp_moved_a d)"
      unfolding flows_def
    proof (intro conjI exI)
      show "in_flight (ne_crypto NE) aead_limits_default (recv_half (length (dp_got_b d)) (sp_session (dp_b d))) (ps @ [p]) (ms @ [m]) (send_half (sp_session a'))"
        by (rule in_flight_append [OF f(3) m(4)])
      show "arriving (sp_conn (dp_b d)) @ drop (dp_moved_a d) (fc_written (sp_conn a')) = concat (map data_frame (ms @ [m]))"
        using f(1,4) m(6) by simp
    qed (use f m in auto)
    moreover have "flows NE (dp_b d) a' (dp_sent_b d) (dp_got_a d) (dp_moved_b d)"
      by (rule flows_other [of NE "dp_b d" "dp_a d"]) (use inv m in auto)
    ultimately show ?thesis using inv m by (simp add: duplex_inv_def)
  qed
qed

lemma carry_keeps_inv:
  assumes "duplex_inv NE d"
  shows "duplex_inv NE (carry n d)"
proof (cases "take n (drop (dp_moved_a d) (fc_written (sp_conn (dp_a d)))) = []")
  case False
  let ?w = "fc_written (sp_conn (dp_a d))"
  let ?chunk = "take n (drop (dp_moved_a d) ?w)"
  let ?b = "(dp_b d)\<lparr>sp_conn := (sp_conn (dp_b d))\<lparr>fc_reads := fc_reads (sp_conn (dp_b d)) @ [Chunk ?chunk]\<rparr>\<rparr>"
  note inv = assms [unfolded duplex_inv_def]
  have arr: "arriving (sp_conn ?b) = arriving (sp_conn (dp_b d)) @ ?chunk" by (simp add: arriving_def)
  have rest: "?chunk @ drop (dp_moved_a d + length ?chunk) ?w = drop (dp_moved_a d) ?w"
    by (cases "n \<le> length (drop (dp_moved_a d) ?w)") (auto simp: add.commute simp flip: drop_drop)
  have "flows NE (dp_a d) ?b (dp_sent_a d) (dp_got_b d) (dp_moved_a d + length ?chunk)"
    using inv rest unfolding flows_def arr by auto
  moreover have "flows NE ?b (dp_a d) (dp_sent_b d) (dp_got_a d) (dp_moved_b d)"
    by (rule flows_other [of NE "dp_b d" "dp_a d"]) (use inv in auto)
  moreover have "side_ok ?b (length (dp_got_b d))" using inv False by (simp add: side_ok_def clean_read_def)
  ultimately show ?thesis using inv False by (simp add: duplex_inv_def carry_def Let_def)
qed (use assms in \<open>simp add: carry_def\<close>)


lemma recv_keeps_inv:
  assumes "net_ok NE" "duplex_inv NE d" "frame_ready (sp_conn (dp_b d))" "pipe_recv NE (dp_b d) = (r, b')"
  shows "duplex_inv NE (d\<lparr>dp_b := b', dp_got_b := dp_got_b d @ (case r of Inr p \<Rightarrow> [p] | Inl e \<Rightarrow> []),
      dp_failed := (dp_failed d \<or> (case r of Inr p \<Rightarrow> False | Inl e \<Rightarrow> True))\<rparr>)"
proof -
  note inv = assms(2) [unfolded duplex_inv_def]
  let ?n = "length (dp_got_b d)" let ?fl = "in_flight (ne_crypto NE) aead_limits_default"
  from inv obtain ps ms where f: "dp_moved_a d \<le> length (fc_written (sp_conn (dp_a d)))" "dp_sent_a d = dp_got_b d @ ps"
      "?fl (recv_half ?n (sp_session (dp_b d))) ps ms (send_half (sp_session (dp_a d)))"
      "arriving (sp_conn (dp_b d)) @ drop (dp_moved_a d) (fc_written (sp_conn (dp_a d))) = concat (map data_frame ms)" "list_all data_ok ms"
    unfolding flows_def by blast
  obtain m ms' rest where m: "ms = m # ms'" "data_ok m" "arriving (sp_conn (dp_b d)) = data_frame m @ rest"
      "rest @ drop (dp_moved_a d) (fc_written (sp_conn (dp_a d))) = concat (map data_frame ms')"
    by (rule ready_first [OF assms(3) f(4,5)])
  obtain p ps' where ps: "ps = p # ps'" using in_flight_length [OF f(3)] m(1) by (cases ps) auto
  have side: "side_ok (dp_b d) ?n" using inv by blast
  obtain x' where x': "pipe_recv NE (dp_b d) = (Inr p, x')" "side_ok x' (?n + 1)" "arriving (sp_conn x') = rest"
      "?fl (recv_half (?n + 1) (sp_session x')) ps' ms' (send_half (sp_session (dp_a d)))"
      "send_half (sp_session x') = send_half (sp_session (dp_b d))" "fc_written (sp_conn x') = fc_written (sp_conn (dp_b d))"
    by (rule pipe_recv_first [OF assms(1) side m(2,3) f(3) [unfolded ps m(1)]])
  have "flows NE (dp_a d) x' (dp_sent_a d) (dp_got_b d @ [p]) (dp_moved_a d)"
    unfolding flows_def using f ps x' m by (intro conjI exI [of _ ps'] exI [of _ ms']) auto
  moreover have "flows NE x' (dp_a d) (dp_sent_b d) (dp_got_a d) (dp_moved_b d)"
    by (rule flows_other [of NE "dp_b d" "dp_a d"]) (use inv x' in auto)
  ultimately show ?thesis using inv x' assms(4) by (simp add: duplex_inv_def)
qed

lemma duplex_step_inv: "duplex_step NE d d' \<Longrightarrow> net_ok NE \<Longrightarrow> duplex_inv NE d \<Longrightarrow> duplex_inv NE d'"
proof (induction rule: duplex_step.induct)
  case (send p d r a')
  then show ?case by (intro send_keeps_inv)
next
  case (carry d n)
  then show ?case by (intro carry_keeps_inv)
next
  case (recv d r b')
  then show ?case by (intro recv_keeps_inv)
next
  case (swap d d')
  then show ?case by (simp add: duplex_inv_swap)
qed

lemma duplex_run_inv: "(duplex_step NE)\<^sup>*\<^sup>* d d' \<Longrightarrow> net_ok NE \<Longrightarrow> duplex_inv NE d \<Longrightarrow> duplex_inv NE d'"
  by (induction rule: rtranclp_induct) (auto intro: duplex_step_inv)

text \<open>When all bytes have been carried over, a message that is missing can be received.\<close>

lemma flows_ready:
  assumes "flows NE a b sent got moved" "moved = length (fc_written (sp_conn a))" "got \<noteq> sent"
  shows "frame_ready (sp_conn b)"
proof -
  obtain ps ms where f: "sent = got @ ps" "in_flight (ne_crypto NE) aead_limits_default (recv_half (length got) (sp_session b)) ps ms (send_half (sp_session a))"
      "arriving (sp_conn b) = concat (map data_frame ms)" "list_all data_ok ms"
    using assms(1,2) unfolding flows_def by auto
  then obtain m ms' where ms: "ms = m # ms'" using in_flight_length [OF f(2)] assms(3) by (cases ms) auto
  then have "frame_fits (tl (message_to_bytes m))" using f(4) by (simp add: data_ok_def)
  with f(3) ms show ?thesis by (simp add: frame_ready_def data_frame_def decode_wire_frame)
qed

definition delivers :: "duplex \<Rightarrow> bool" where
  "delivers d \<longleftrightarrow> prefix (dp_got_b d) (dp_sent_a d) \<and> prefix (dp_got_a d) (dp_sent_b d) \<and> \<not> dp_failed d \<and>
     (dp_moved_a d = length (fc_written (sp_conn (dp_a d))) \<longrightarrow> dp_got_b d \<noteq> dp_sent_a d \<longrightarrow> frame_ready (sp_conn (dp_b d))) \<and>
     (dp_moved_b d = length (fc_written (sp_conn (dp_b d))) \<longrightarrow> dp_got_a d \<noteq> dp_sent_b d \<longrightarrow> frame_ready (sp_conn (dp_a d)))"

lemma duplex_inv_delivers: "duplex_inv NE d \<Longrightarrow> delivers d"
  using flows_ready unfolding duplex_inv_def delivers_def flows_def prefix_def by blast




section \<open>Messages that do not fit\<close>


definition example_pipe :: "byte \<Rightarrow> byte \<Rightarrow> secure_pipe" where
  "example_pipe x y = \<lparr>sp_session = session_with_defaults \<lparr>rk_root = [], rk_send_chain = replicate 32 x, rk_recv_chain = replicate 32 y\<rparr>,
     sp_conn = example_conn_of [], sp_peer = [], sp_is_initiator = True\<rparr>"

lemma example_in_step: "in_step (example_pipe x y) (example_pipe y x)"
  using default_limits_ok fresh_usage
  by (simp add: in_step_def example_pipe_def recv_half_def send_half_def session_with_defaults_def session_new_def usage_tracker_new_def)


end
