(* ===== verification/Network_Gate.thy ===== *)
theory Network_Gate
  imports Network_Identity
begin

text \<open>
  The ingress gates of a relay (\<open>gate.rs\<close>): the token bucket per source address, the
  proof-of-work gate, and the handshake cookies of \<open>origin-attest\<close> (\<open>cookie.rs\<close>). Instants
  and durations are numbers of nanoseconds. The bucket computes with \<open>f64\<close>: the quotient
  rounded down is the argument \<open>fdiv\<close>. By the error bound of IEEE arithmetic it is exact
  when the divisor is a number of whole seconds and the dividend below \<open>2 ^ 20\<close> seconds.
\<close>

section \<open>Token buckets\<close>

record token_bucket =
  tb_capacity :: nat
  tb_refill :: nat
  tb_buckets :: "string \<Rightarrow> (nat \<times> nat) option"

definition NANOS :: nat where "NANOS = 1000000000"

definition bucket_new :: "nat \<Rightarrow> nat \<Rightarrow> token_bucket" where
  "bucket_new capacity refill_secs = \<lparr>tb_capacity = capacity, tb_refill = max refill_secs 1 * NANOS, tb_buckets = (\<lambda>s. None)\<rparr>"

definition refilled :: "(nat \<Rightarrow> nat \<Rightarrow> nat) \<Rightarrow> nat \<Rightarrow> nat \<Rightarrow> nat \<Rightarrow> nat \<times> nat \<Rightarrow> nat \<times> nat" where
  "refilled fdiv cap refill now entry = (case entry of (tokens, since) \<Rightarrow>
     (let got = min (2 ^ 32 - 1) (fdiv (now - since) refill) in
      if 0 < got then (min cap ((tokens + got) mod 2 ^ 32), now) else (tokens, since)))"

definition bucket_allow :: "(nat \<Rightarrow> nat \<Rightarrow> nat) \<Rightarrow> nat \<Rightarrow> string \<Rightarrow> token_bucket \<Rightarrow> bool \<times> token_bucket" where
  "bucket_allow fdiv now source b =
     (case refilled fdiv (tb_capacity b) (tb_refill b) now
         (case tb_buckets b source of None \<Rightarrow> (tb_capacity b, now) | Some e \<Rightarrow> e) of
       (tokens, since) \<Rightarrow>
         if 0 < tokens then (True, b\<lparr>tb_buckets := (tb_buckets b)(source \<mapsto> (tokens - 1, since))\<rparr>)
         else (False, b\<lparr>tb_buckets := (tb_buckets b)(source \<mapsto> (tokens, since))\<rparr>))"

definition bucket_prune :: "nat \<Rightarrow> nat \<Rightarrow> token_bucket \<Rightarrow> token_bucket" where
  "bucket_prune now idle b = b\<lparr>tb_buckets := (\<lambda>s. case tb_buckets b s of None \<Rightarrow> None
     | Some (tokens, since) \<Rightarrow> if now - since < idle then Some (tokens, since) else None)\<rparr>"

unbundle bit_operations_syntax

section \<open>Cookies\<close>

text \<open>\<open>hmac key input\<close> is HMAC-SHA3-256, \<open>None\<close> if it fails; a draw from the random source may fail.\<close>

type_synonym hmac = "bytes \<Rightarrow> bytes \<Rightarrow> bytes option"

record cookie_secret =
  cs_current :: bytes
  cs_previous :: "bytes option"
  cs_last_rotation :: nat
  cs_rotation_interval :: nat

definition DEFAULT_COOKIE_ROTATION_SECS :: nat where "DEFAULT_COOKIE_ROTATION_SECS = 120"

definition cookie_new :: "string + bytes \<Rightarrow> nat \<Rightarrow> string + cookie_secret" where
  "cookie_new draw now = (case draw of Inl _ \<Rightarrow> Inl ''OS CSPRNG unavailable''
     | Inr k \<Rightarrow> Inr \<lparr>cs_current = k, cs_previous = None, cs_last_rotation = now, cs_rotation_interval = DEFAULT_COOKIE_ROTATION_SECS * NANOS\<rparr>)"

definition cookie_input :: "string \<Rightarrow> nat \<Rightarrow> bytes" where
  "cookie_input source now = str_bytes source @ be_bytes 8 now"

text \<open>The loop \<open>fallback[i % 32] ^= b\<close>.\<close>

definition xor_into :: "bytes \<Rightarrow> bytes \<Rightarrow> bytes" where
  "xor_into bs acc = fold (\<lambda>(i, b) a. a[i mod 32 := (a ! (i mod 32)) XOR b]) (enumerate 0 bs) acc"

definition generate_at :: "hmac \<Rightarrow> cookie_secret \<Rightarrow> string \<Rightarrow> nat \<Rightarrow> bytes" where
  "generate_at hm cs source now = take 16 (case hm (cs_current cs) (cookie_input source now) of Some mac \<Rightarrow> mac
     | None \<Rightarrow> xor_into (cs_current cs) (xor_into (cookie_input source now) (replicate 32 0)))"

definition verify_at :: "hmac \<Rightarrow> cookie_secret \<Rightarrow> string \<Rightarrow> bytes \<Rightarrow> nat \<Rightarrow> bool" where
  "verify_at hm cs source cookie now \<longleftrightarrow> generate_at hm cs source now = cookie \<or>
     (case cs_previous cs of None \<Rightarrow> False
      | Some k \<Rightarrow> (case hm k (cookie_input source now) of None \<Rightarrow> False | Some mac \<Rightarrow> take 16 mac = cookie))"

text \<open>The previous secret is replaced before the draw, so a failed draw forgets it.\<close>

definition force_rotate :: "string + bytes \<Rightarrow> nat \<Rightarrow> (cookie_secret, string, unit) se" where
  "force_rotate draw now cs = (let cs' = cs\<lparr>cs_previous := Some (cs_current cs)\<rparr> in
     case draw of Inl _ \<Rightarrow> (Inl ''OS CSPRNG unavailable'', cs')
     | Inr k \<Rightarrow> (Inr (), cs'\<lparr>cs_current := k, cs_last_rotation := now\<rparr>))"

definition maybe_rotate :: "string + bytes \<Rightarrow> nat \<Rightarrow> (cookie_secret, string, bool) se" where
  "maybe_rotate draw now = bnd (gets (\<lambda>cs. cs_rotation_interval cs \<le> now - cs_last_rotation cs)) (\<lambda>due.
     if due then seqM (force_rotate draw now) (ret True) else ret False)"

section \<open>The gates\<close>

record pow_proof =
  pw_nonce :: bytes
  pw_extra :: bytes
  pw_counter :: nat
  pw_difficulty :: nat

text \<open>\<open>check proof key hint\<close> is the hash check of the SDK, \<open>None\<close> if it fails.\<close>

definition pow_verify :: "(pow_proof \<Rightarrow> bytes \<Rightarrow> bytes \<Rightarrow> bool option) \<Rightarrow> nat \<Rightarrow> pow_proof \<Rightarrow> bytes \<Rightarrow> bytes \<Rightarrow> bool" where
  "pow_verify check difficulty proof key hint \<longleftrightarrow> (if pw_difficulty proof < difficulty then False
     else case check proof key hint of Some b \<Rightarrow> b | None \<Rightarrow> False)"

record ingress_gate =
  ig_bucket :: token_bucket
  ig_cookie :: cookie_secret

definition ingress_new :: "string + bytes \<Rightarrow> nat \<Rightarrow> nat \<Rightarrow> nat \<Rightarrow> network_error + ingress_gate" where
  "ingress_new draw now capacity refill_secs = (case cookie_new draw now of
     Inl e \<Rightarrow> Inl (NetCrypto e) | Inr cs \<Rightarrow> Inr \<lparr>ig_bucket = bucket_new capacity refill_secs, ig_cookie = cs\<rparr>)"

definition allow_handshake :: "(nat \<Rightarrow> nat \<Rightarrow> nat) \<Rightarrow> nat \<Rightarrow> string \<Rightarrow> ingress_gate \<Rightarrow> bool \<times> ingress_gate" where
  "allow_handshake fdiv now source g = (case bucket_allow fdiv now source (ig_bucket g) of (ok, b) \<Rightarrow> (ok, g\<lparr>ig_bucket := b\<rparr>))"

section \<open>Floods are bounded\<close>

datatype gate_event = Attempt nat string | Prune nat nat

fun event_time :: "gate_event \<Rightarrow> nat" where
  "event_time (Attempt now s) = now"
| "event_time (Prune now idle) = now"

fun gate_step :: "(nat \<Rightarrow> nat \<Rightarrow> nat) \<Rightarrow> gate_event \<Rightarrow> token_bucket \<Rightarrow> string option \<times> token_bucket" where
  "gate_step fdiv (Attempt now s) b = (case bucket_allow fdiv now s b of (ok, b') \<Rightarrow> (if ok then Some s else None, b'))"
| "gate_step fdiv (Prune now idle) b = (None, bucket_prune now idle b)"

fun gate_run :: "(nat \<Rightarrow> nat \<Rightarrow> nat) \<Rightarrow> gate_event list \<Rightarrow> token_bucket \<Rightarrow> string list \<times> token_bucket" where
  "gate_run fdiv [] b = ([], b)"
| "gate_run fdiv (e # es) b = (case gate_step fdiv e b of (a, b') \<Rightarrow>
     (case gate_run fdiv es b' of (as, b'') \<Rightarrow> ((case a of None \<Rightarrow> as | Some s \<Rightarrow> s # as), b'')))"

text \<open>The accuracy of the quotient for whole seconds, and an event that keeps the bound.\<close>

definition fdiv_ok :: "(nat \<Rightarrow> nat \<Rightarrow> nat) \<Rightarrow> bool" where
  "fdiv_ok fdiv \<longleftrightarrow> (\<forall>e k. e < 2 ^ 20 * NANOS \<and> 0 < k \<longrightarrow> fdiv e (k * NANOS) = e div (k * NANOS))"

fun patient :: "nat \<Rightarrow> gate_event \<Rightarrow> bool" where
  "patient w (Attempt now s) \<longleftrightarrow> True"
| "patient w (Prune now idle) \<longleftrightarrow> w \<le> idle"

text \<open>\<open>spent\<close>: \<open>n\<close> admissions of \<open>s\<close> since \<open>t0\<close> are paid for by time and initial capacity.\<close>

definition spent :: "nat \<Rightarrow> nat \<Rightarrow> string \<Rightarrow> nat \<Rightarrow> token_bucket \<Rightarrow> bool" where
  "spent t0 t s n b \<longleftrightarrow> (case tb_buckets b s of
      None \<Rightarrow> n \<le> (t - t0) div tb_refill b
    | Some (k, l) \<Rightarrow> n + k \<le> tb_capacity b + (l - t0) div tb_refill b \<and> t0 \<le> l \<and> l \<le> t)"

lemma div_add_le: "(a :: nat) div r + b div r \<le> (a + b) div r"
  unfolding div_add1_eq [of a b r] by (rule le_add1)

lemma diff_div_add_le: "t0 \<le> l \<Longrightarrow> l \<le> t \<Longrightarrow> (l - t0) div r + (t - l) div r \<le> (t - t0 :: nat) div r"
  using div_add_le [of "l - t0" r "t - l"] by simp

lemma spent_bound: "spent t0 t s n b \<Longrightarrow> n \<le> tb_capacity b + (t - t0) div tb_refill b"
proof (cases "tb_buckets b s")
  case (Some kl)
  assume "spent t0 t s n b"
  with Some obtain k l where "n + k \<le> tb_capacity b + (l - t0) div tb_refill b" "t0 \<le> l" "l \<le> t"
    by (auto simp: spent_def)
  with diff_div_add_le [of t0 l t "tb_refill b"] show ?thesis by linarith
qed (simp add: spent_def)

lemma refilled_spent:
  assumes "fdiv (now - l) r = (now - l) div r" and "n + k \<le> cap + (l - t0) div r" "t0 \<le> l" "l \<le> now"
    and "refilled fdiv cap r now (k, l) = (k', l')"
  shows "n + k' \<le> cap + (l' - t0) div r \<and> t0 \<le> l' \<and> l' \<le> now"
proof -
  define got where "got = min (2 ^ 32 - 1) ((now - l) div r)"
  have k: "k' = (if 0 < got then min cap ((k + got) mod 2 ^ 32) else k)" and l: "l' = (if 0 < got then now else l)"
    using assms(1,5) unfolding refilled_def Let_def got_def prod.case by (auto split: if_splits)
  show ?thesis
  proof (cases "0 < got")
    case True
    then have "k' \<le> cap" and "k' \<le> (k + got) mod 2 ^ 32" unfolding k by (simp_all only: if_True min.cobounded1 min.cobounded2)
    moreover have "(k + got) mod 2 ^ 32 \<le> k + got" by (rule mod_less_eq_dividend)
    moreover have "got \<le> (now - l) div r" unfolding got_def by (rule min.cobounded2)
    ultimately have "k' \<le> k + (now - l) div r" by (meson add_left_mono order_trans)
    moreover have "l' = now" using True l by simp
    ultimately show ?thesis using assms(2-4) diff_div_add_le [OF assms(3,4), of r] by auto
  qed (use k l assms in simp)
qed

lemma gate_step_spent:
  assumes "fdiv_ok fdiv" and "gate_step fdiv e b = (a, b')" and "spent t0 t s n b"
    and "t0 \<le> t" "t \<le> event_time e" and "event_time e - t0 < 2 ^ 20 * NANOS"
    and "patient (tb_capacity b * tb_refill b) e" and r: "tb_refill b = secs * NANOS" "0 < secs"
  shows "spent t0 (event_time e) s (n + (if a = Some s then 1 else 0)) b' \<and> tb_capacity b' = tb_capacity b \<and> tb_refill b' = tb_refill b"
proof -
  have later: "m \<le> (event_time e - t0) div tb_refill b" if "m \<le> (t - t0) div tb_refill b" for m
    using that div_le_mono [OF diff_le_mono [OF assms(5)]] by (rule order_trans)
  have pos: "0 < tb_refill b" using r by (simp add: NANOS_def)
  show ?thesis
proof (cases e)
  case (Attempt now u)
  let ?e = "case tb_buckets b u of None \<Rightarrow> (tb_capacity b, now) | Some e \<Rightarrow> e"
  obtain k' l' where rf: "refilled fdiv (tb_capacity b) (tb_refill b) now ?e = (k', l')" by fastforce
  show ?thesis
  proof (cases "u = s")
    case True
    obtain k l where e: "?e = (k, l)" by fastforce
    have n: "n + k \<le> tb_capacity b + (l - t0) div tb_refill b" "t0 \<le> l" "l \<le> now"
      using assms(3-5) later [of n] Attempt True e by (auto simp: spent_def split: option.splits)
    have "now - l < 2 ^ 20 * NANOS" using assms(6) n(2) Attempt by simp
    then have "fdiv (now - l) (tb_refill b) = (now - l) div tb_refill b" using assms(1) r by (simp add: fdiv_ok_def)
    from refilled_spent [of fdiv, OF this n rf [unfolded e]]
    have "n + k' \<le> tb_capacity b + (l' - t0) div tb_refill b" "t0 \<le> l'" "l' \<le> now" by auto
    with assms(2) Attempt True rf show ?thesis by (auto simp: bucket_allow_def spent_def split: if_splits)
  next
    case False
    then have "tb_buckets b' s = tb_buckets b s" "a \<noteq> Some s" "tb_capacity b' = tb_capacity b" "tb_refill b' = tb_refill b"
      using assms(2) Attempt rf by (auto simp: bucket_allow_def split: if_splits)
    with later assms(3,5) Attempt show ?thesis by (auto simp: spent_def split: option.splits)
  qed
next
  case (Prune now idle)
  show ?thesis
  proof (cases "tb_buckets b s")
    case None
    with later assms(2,3) Prune show ?thesis by (auto simp: bucket_prune_def spent_def)
  next
    case (Some kl)
    obtain k l where kl: "kl = (k, l)" by fastforce
    have n: "n + k \<le> tb_capacity b + (l - t0) div tb_refill b" "t0 \<le> l" "l \<le> now"
      using assms(3-5) Some kl Prune by (auto simp: spent_def)
    have "tb_capacity b \<le> (now - l) div tb_refill b" if "\<not> now - l < idle"
      using that assms(7) pos Prune by (simp add: less_eq_div_iff_mult_less_eq)
    then show ?thesis
      using assms(2) Prune Some kl n diff_div_add_le [OF n(2,3), of "tb_refill b"]
      by (auto simp: bucket_prune_def spent_def)
  qed
qed
qed

lemma gate_run_spent:
  assumes "fdiv_ok fdiv" and "gate_run fdiv es b = (as, b')" and "spent t0 t s n b" and "t0 \<le> t"
    and "sorted (t # map event_time es)" and "\<And>e. e \<in> set es \<Longrightarrow> event_time e - t0 < 2 ^ 20 * NANOS"
    and "\<And>e. e \<in> set es \<Longrightarrow> patient (tb_capacity b * tb_refill b) e" and r: "tb_refill b = secs * NANOS" "0 < secs"
  shows "spent t0 (last (t # map event_time es)) s (n + count_list as s) b' \<and> tb_capacity b' = tb_capacity b \<and> tb_refill b' = tb_refill b"
  using assms(2-)
proof (induction es arbitrary: b as t n)
  case (Cons e es)
  obtain a b1 where e: "gate_step fdiv e b = (a, b1)" by fastforce
  obtain as1 where es: "gate_run fdiv es b1 = (as1, b')" and as: "as = (case a of None \<Rightarrow> as1 | Some u \<Rightarrow> u # as1)"
    using Cons.prems(1) e by (auto split: prod.splits)
  have le: "t \<le> event_time e" and in_e: "e \<in> set (e # es)" using Cons.prems(4) by auto
  have s1: "spent t0 (event_time e) s (n + (if a = Some s then 1 else 0)) b1"
    and caps: "tb_capacity b1 = tb_capacity b" "tb_refill b1 = tb_refill b"
    using gate_step_spent [OF assms(1) e Cons.prems(2,3) le Cons.prems(5) [OF in_e] Cons.prems(6) [OF in_e] Cons.prems(7,8)]
    by auto
  have "t0 \<le> event_time e" "sorted (event_time e # map event_time es)" using le Cons.prems(3,4) by auto
  from Cons.IH [OF es s1 this] Cons.prems(5-8) caps as show ?case by (auto split: option.splits if_splits)
qed simp


definition example_attempts :: "gate_event list" where
  "example_attempts = [Attempt 0 ''a'', Attempt 1 ''a'', Attempt 2 ''b'', Attempt 3 ''a'', Prune (24 * NANOS) (24 * NANOS), Attempt (25 * NANOS) ''a'']"


section \<open>Cookies of one second\<close>

lemma generated_verifies: "verify_at hm cs source (generate_at hm cs source now) now"
  by (simp add: verify_at_def)

lemma verifies_after_rotation:
  assumes "force_rotate (Inr k) t cs = (Inr (), cs')" and "hm (cs_current cs) (cookie_input source now) = Some mac"
  shows "verify_at hm cs' source (generate_at hm cs source now) now"
  using assms by (auto simp: force_rotate_def verify_at_def generate_at_def Let_def)

text \<open>The time of generation is not sent along, so a cookie is checked against the second of its return.\<close>

lemma cookie_of_another_second:
  assumes "\<And>k x. hm k x \<noteq> None" and "cs_previous cs = None"
  shows "verify_at hm cs source (generate_at hm cs source now) later \<longleftrightarrow>
    take 16 (the (hm (cs_current cs) (cookie_input source later))) = take 16 (the (hm (cs_current cs) (cookie_input source now)))"
  using assms(1) [of "cs_current cs" "cookie_input source now"] assms(1) [of "cs_current cs" "cookie_input source later"] assms(2)
  by (auto simp: verify_at_def generate_at_def)

end
