(* ===== verification/Network_Relay.thy ===== *)
theory Network_Relay
  imports Network_Gate Network_Instance
begin

text \<open>
  The state of a relay (\<open>relay.rs\<close>): who is online, session tokens, forwarding pairs,
  bounded inboxes, adverts, and the persisted set of evicted identities. Instants and
  durations are numbers of nanoseconds. The operations of the source take one lock each,
  so a history of a relay is a sequence of operations.
\<close>

section \<open>State\<close>

definition DEFAULT_MAX_FORWARDINGS :: nat where "DEFAULT_MAX_FORWARDINGS = 1000"
definition DEFAULT_MAX_INBOX_MESSAGES :: nat where "DEFAULT_MAX_INBOX_MESSAGES = 256"
definition DEFAULT_MAX_INBOX_BYTES :: nat where "DEFAULT_MAX_INBOX_BYTES = 8 * 1024 * 1024"
definition DEFAULT_INBOX_TTL_SECS :: nat where "DEFAULT_INBOX_TTL_SECS = 300"
definition DEFAULT_MAX_FRAME_SIZE :: nat where "DEFAULT_MAX_FRAME_SIZE = 1024 * 1024"

record timestamped_frame =
  tf_bytes :: bytes
  tf_enqueued_at :: nat

record forward_pair =
  fp_id :: nat
  fp_from :: fingerprint
  fp_to :: fingerprint

record relay_caps =
  rc_max_forwardings :: nat
  rc_max_inbox_messages :: nat
  rc_max_inbox_bytes :: nat
  rc_inbox_ttl :: nat
  rc_max_frame_size :: nat

record relay =
  ry_online :: "fingerprint set"
  ry_tokens :: "string \<Rightarrow> fingerprint option"
  ry_forwarding :: "forward_pair list"
  ry_next_pair_id :: nat
  ry_inboxes :: "fingerprint \<Rightarrow> (timestamped_frame list \<times> nat) option"
  ry_adverts :: "fingerprint \<Rightarrow> (advert \<times> nat) option"

datatype forward_outcome = Buffered | TargetOffline

definition with_caps :: "nat \<Rightarrow> nat \<Rightarrow> nat \<Rightarrow> nat \<Rightarrow> relay_caps \<times> relay" where
  "with_caps max_forwardings max_inbox_messages max_inbox_bytes inbox_ttl_secs =
     (\<lparr>rc_max_forwardings = max_forwardings, rc_max_inbox_messages = max_inbox_messages, rc_max_inbox_bytes = max_inbox_bytes,
       rc_inbox_ttl = inbox_ttl_secs * NANOS, rc_max_frame_size = DEFAULT_MAX_FRAME_SIZE\<rparr>,
      \<lparr>ry_online = {}, ry_tokens = (\<lambda>t. None), ry_forwarding = [], ry_next_pair_id = 1,
       ry_inboxes = (\<lambda>f. None), ry_adverts = (\<lambda>f. None)\<rparr>)"

definition relay_new :: "nat \<Rightarrow> relay_caps \<times> relay" where
  "relay_new max_forwardings = with_caps max_forwardings DEFAULT_MAX_INBOX_MESSAGES DEFAULT_MAX_INBOX_BYTES DEFAULT_INBOX_TTL_SECS"

section \<open>Registration and tokens\<close>

type_synonym eviction_set = "fingerprint set"

definition register :: "eviction_set \<Rightarrow> fingerprint \<Rightarrow> (relay, network_error, unit) se" where
  "register ev fp = (if fp \<in> ev then throw (NetEvicted (to_hex fp))
     else modify (\<lambda>s. s\<lparr>ry_online := insert fp (ry_online s)\<rparr>))"

definition deregister :: "fingerprint \<Rightarrow> relay \<Rightarrow> relay" where
  "deregister fp s = s\<lparr>ry_online := ry_online s - {fp},
     ry_tokens := (\<lambda>t. if ry_tokens s t = Some fp then None else ry_tokens s t),
     ry_forwarding := filter (\<lambda>p. fp_from p \<noteq> fp \<and> fp_to p \<noteq> fp) (ry_forwarding s)\<rparr>"

definition is_online :: "fingerprint \<Rightarrow> relay \<Rightarrow> bool" where
  "is_online fp s \<longleftrightarrow> fp \<in> ry_online s"

text \<open>The 32 random bytes of a token are an argument; without them the source panics.\<close>

definition issue_token :: "bytes \<Rightarrow> fingerprint \<Rightarrow> relay \<Rightarrow> string \<times> relay" where
  "issue_token raw fp s = (let token = hex_encode raw in (token, s\<lparr>ry_tokens := (ry_tokens s)(token \<mapsto> fp)\<rparr>))"

definition resolve_token :: "string \<Rightarrow> relay \<Rightarrow> fingerprint option" where
  "resolve_token token s = ry_tokens s token"

definition revoke_token :: "string \<Rightarrow> relay \<Rightarrow> relay" where
  "revoke_token token s = s\<lparr>ry_tokens := (ry_tokens s)(token := None)\<rparr>"

section \<open>Forwarding pairs\<close>

definition open_pair :: "relay_caps \<Rightarrow> eviction_set \<Rightarrow> fingerprint \<Rightarrow> fingerprint \<Rightarrow> (relay, network_error, nat) se" where
  "open_pair C ev from to s =
     (if from \<in> ev then (Inl (NetEvicted (to_hex from)), s)
      else if from \<notin> ry_online s then (Inl (NetTargetOffline (to_hex from)), s)
      else if to \<notin> ry_online s then (Inl (NetTargetOffline (to_hex to)), s)
      else if rc_max_forwardings C \<le> length (ry_forwarding s)
      then (Inl (NetRelayFull (''at capacity '' @ dec (rc_max_forwardings C))), s)
      else let id = ry_next_pair_id s in
        (Inr id, s\<lparr>ry_next_pair_id := u64_add id 1,
           ry_forwarding := ry_forwarding s @ [\<lparr>fp_id = id, fp_from = from, fp_to = to\<rparr>]\<rparr>))"

definition lookup_pair :: "nat \<Rightarrow> relay \<Rightarrow> forward_pair option" where
  "lookup_pair pair_id s = List.find (\<lambda>p. fp_id p = pair_id) (ry_forwarding s)"

fun remove_first :: "('a \<Rightarrow> bool) \<Rightarrow> 'a list \<Rightarrow> ('a \<times> 'a list) option" where
  "remove_first P [] = None"
| "remove_first P (x # xs) = (if P x then Some (x, xs) else map_option (\<lambda>(y, ys). (y, x # ys)) (remove_first P xs))"

definition close_pair :: "nat \<Rightarrow> relay \<Rightarrow> forward_pair option \<times> relay" where
  "close_pair pair_id s = (case remove_first (\<lambda>p. fp_id p = pair_id) (ry_forwarding s) of
     None \<Rightarrow> (None, s) | Some (p, ps) \<Rightarrow> (Some p, s\<lparr>ry_forwarding := ps\<rparr>))"

section \<open>Inboxes\<close>

definition drop_oldest :: "timestamped_frame list \<times> nat \<Rightarrow> timestamped_frame list \<times> nat" where
  "drop_oldest box = (case box of ([], n) \<Rightarrow> ([], n) | (f # fs, n) \<Rightarrow> (fs, n - length (tf_bytes f)))"

fun make_room :: "nat \<Rightarrow> nat \<Rightarrow> timestamped_frame list \<Rightarrow> nat \<Rightarrow> timestamped_frame list \<times> nat" where
  "make_room cap len [] n = ([], n)"
| "make_room cap len (f # fs) n = (if n + len > cap then make_room cap len fs (n - length (tf_bytes f)) else (f # fs, n))"

definition inbox_push :: "relay_caps \<Rightarrow> eviction_set \<Rightarrow> nat \<Rightarrow> fingerprint \<Rightarrow> fingerprint \<Rightarrow> bytes \<Rightarrow>
    (relay, network_error, forward_outcome) se" where
  "inbox_push C ev now from target frame s =
     (if from \<in> ev then (Inl (NetEvicted (to_hex from)), s)
      else if rc_max_frame_size C < length frame
      then (Inl (NetCodec (''frame '' @ dec (length frame) @ '' exceeds relay cap '' @ dec (rc_max_frame_size C))), s)
      else if target \<notin> ry_online s then (Inr TargetOffline, s)
      else let box = (case ry_inboxes s target of None \<Rightarrow> ([], 0) | Some b \<Rightarrow> b);
               box1 = (if rc_max_inbox_messages C \<le> length (fst box) then drop_oldest box else box) in
        (case make_room (rc_max_inbox_bytes C) (length frame) (fst box1) (snd box1) of (fs, n) \<Rightarrow>
           if n + length frame > rc_max_inbox_bytes C
           then (Inl (NetRelayFull ''frame exceeds inbox byte cap''), s\<lparr>ry_inboxes := (ry_inboxes s)(target \<mapsto> (fs, n))\<rparr>)
           else (Inr Buffered, s\<lparr>ry_inboxes := (ry_inboxes s)(target \<mapsto>
             (fs @ [\<lparr>tf_bytes = frame, tf_enqueued_at = now\<rparr>], n + length frame))\<rparr>)))"

definition unexpired :: "relay_caps \<Rightarrow> nat \<Rightarrow> timestamped_frame \<Rightarrow> bool" where
  "unexpired C now f \<longleftrightarrow> now - tf_enqueued_at f < rc_inbox_ttl C"

definition inbox_pull :: "relay_caps \<Rightarrow> nat \<Rightarrow> fingerprint \<Rightarrow> relay \<Rightarrow> bytes list \<times> relay" where
  "inbox_pull C now fp s = (case ry_inboxes s fp of None \<Rightarrow> ([], s)
     | Some (frames, _) \<Rightarrow> (map tf_bytes (filter (unexpired C now) frames), s\<lparr>ry_inboxes := (ry_inboxes s)(fp := None)\<rparr>))"

text \<open>One inbox of \<open>cleanup_expired\<close>: the byte count goes down with every frame that is dropped.\<close>

fun purge :: "(timestamped_frame \<Rightarrow> bool) \<Rightarrow> timestamped_frame list \<Rightarrow> nat \<Rightarrow> timestamped_frame list \<times> nat" where
  "purge keep [] n = ([], n)"
| "purge keep (f # fs) n = (if keep f then (case purge keep fs n of (gs, m) \<Rightarrow> (f # gs, m))
     else purge keep fs (n - length (tf_bytes f)))"

definition cleanup_expired :: "relay_caps \<Rightarrow> nat \<Rightarrow> relay \<Rightarrow> relay" where
  "cleanup_expired C now s = s\<lparr>ry_inboxes := (\<lambda>fp. case ry_inboxes s fp of None \<Rightarrow> None
     | Some (frames, n) \<Rightarrow> (case purge (unexpired C now) frames n of (gs, m) \<Rightarrow> if gs = [] then None else Some (gs, m)))\<rparr>"

definition inbox_stats :: "fingerprint \<Rightarrow> relay \<Rightarrow> nat \<times> nat" where
  "inbox_stats fp s = (case ry_inboxes s fp of None \<Rightarrow> (0, 0) | Some (frames, n) \<Rightarrow> (length frames, n))"

section \<open>Adverts\<close>

definition advert_publish :: "nat \<Rightarrow> fingerprint \<Rightarrow> advert \<Rightarrow> (relay, network_error, unit) se" where
  "advert_publish now fp ad s = (if fp \<notin> ry_online s then (Inl (NetTargetOffline (to_hex fp)), s)
     else (Inr (), s\<lparr>ry_adverts := (ry_adverts s)(fp \<mapsto> (ad, now))\<rparr>))"

definition advert_fetch :: "nat \<Rightarrow> fingerprint \<Rightarrow> relay \<Rightarrow> advert option \<times> relay" where
  "advert_fetch now fp s = (case ry_adverts s fp of None \<Rightarrow> (None, s)
     | Some (ad, published) \<Rightarrow> if now - published < ad_ttl_secs ad * NANOS then (Some ad, s)
         else (None, s\<lparr>ry_adverts := (ry_adverts s)(fp := None)\<rparr>))"

section \<open>Evictions\<close>

definition revoke :: "fingerprint \<Rightarrow> eviction_set \<Rightarrow> bool \<times> eviction_set" where
  "revoke fp ev = (fp \<notin> ev, insert fp ev)"

definition pardon :: "fingerprint \<Rightarrow> eviction_set \<Rightarrow> bool \<times> eviction_set" where
  "pardon fp ev = (fp \<in> ev, ev - {fp})"

definition eviction_bytes :: "(bytes set \<Rightarrow> bytes list) \<Rightarrow> eviction_set \<Rightarrow> bytes" where
  "eviction_bytes enum ev = str_bytes ''ONEV'' @ 1 # concat (enum ev)"

definition eviction_save :: "disk_env \<Rightarrow> (bytes set \<Rightarrow> bytes list) \<Rightarrow> string \<Rightarrow> eviction_set \<Rightarrow> (disk, network_error, unit) se" where
  "eviction_save E enum path ev =
     map_err (\<lambda>e. NetTransport (''eviction save: '' @ e)) (atomic_write E path (eviction_bytes enum ev))"

definition eviction_of_bytes :: "bytes \<Rightarrow> network_error + eviction_set" where
  "eviction_of_bytes bs =
     (if length bs < 5 \<or> take 4 bs \<noteq> str_bytes ''ONEV'' \<or> bs ! 4 \<noteq> 1 then Inl (NetTransport ''bad eviction file'')
      else if length (drop 5 bs) mod 32 \<noteq> 0 then Inl (NetTransport ''eviction body misaligned'')
      else Inr (set (chunks_exact 32 (drop 5 bs))))"

definition eviction_load :: "disk_env \<Rightarrow> string \<Rightarrow> (disk, network_error, eviction_set) se" where
  "eviction_load E path =
     bnd (map_err (\<lambda>e. NetTransport (''eviction read: '' @ e)) (disk_read E path)) (\<lambda>file.
       case file of None \<Rightarrow> ret {} | Some bs \<Rightarrow> lift (eviction_of_bytes bs))"

section \<open>What every operation keeps\<close>

definition frame_bytes :: "timestamped_frame list \<Rightarrow> nat" where
  "frame_bytes fs = sum_list (map (\<lambda>f. length (tf_bytes f)) fs)"

lemma frame_bytes_simps [simp]:
  "frame_bytes [] = 0" "frame_bytes (f # fs) = length (tf_bytes f) + frame_bytes fs" "frame_bytes (fs @ gs) = frame_bytes fs + frame_bytes gs"
  by (simp_all add: frame_bytes_def)

text \<open>An inbox is within its caps, and its byte count is right. A cap of no messages holds one.\<close>

definition box_ok :: "relay_caps \<Rightarrow> timestamped_frame list \<times> nat \<Rightarrow> bool" where
  "box_ok C box \<longleftrightarrow> (case box of (fs, n) \<Rightarrow>
     n = frame_bytes fs \<and> n \<le> rc_max_inbox_bytes C \<and> length fs \<le> max 1 (rc_max_inbox_messages C))"

definition pairs_ok :: "relay_caps \<Rightarrow> relay \<Rightarrow> bool" where
  "pairs_ok C s \<longleftrightarrow> length (ry_forwarding s) \<le> rc_max_forwardings C \<and> distinct (map fp_id (ry_forwarding s)) \<and>
     (\<forall>p \<in> set (ry_forwarding s). fp_from p \<in> ry_online s \<and> fp_to p \<in> ry_online s \<and> fp_id p < ry_next_pair_id s)"

definition relay_ok :: "relay_caps \<Rightarrow> relay \<Rightarrow> bool" where
  "relay_ok C s \<longleftrightarrow> (\<forall>fp box. ry_inboxes s fp = Some box \<longrightarrow> box_ok C box) \<and> pairs_ok C s"

named_theorems relay_keeps \<open>operations keep the invariant of the relay\<close>

lemma make_room_drop:
  assumes "make_room cap len fs n = (gs, m)" and "n = frame_bytes fs"
  shows "\<exists>k. gs = drop k fs \<and> m = frame_bytes gs \<and> (gs = [] \<or> m + len \<le> cap) \<and> (\<forall>j < k. cap < frame_bytes (drop j fs) + len)"
  using assms
proof (induction cap len fs n rule: make_room.induct)
  case (2 cap len f fs n)
  show ?case
  proof (cases "n + len > cap")
    case True
    with 2 obtain k where k: "gs = drop k fs" "m = frame_bytes gs" "gs = [] \<or> m + len \<le> cap" "\<forall>j < k. cap < frame_bytes (drop j fs) + len"
      by auto
    have "\<forall>j < Suc k. cap < frame_bytes (drop j (f # fs)) + len"
      using k(4) True 2(3) by (auto simp: less_Suc_eq_0_disj)
    with k show ?thesis by (intro exI [of _ "Suc k"]) auto
  qed (use 2 in \<open>auto intro: exI [of _ 0]\<close>)
qed auto

text \<open>The frames that a push leaves: the oldest are dropped, no more of them than the caps demand.\<close>

definition evicted_by :: "relay_caps \<Rightarrow> bytes \<Rightarrow> timestamped_frame list \<Rightarrow> nat \<Rightarrow> bool" where
  "evicted_by C frame fs k \<longleftrightarrow> frame_bytes (drop k fs) + length frame \<le> rc_max_inbox_bytes C \<and>
     length (drop k fs) < max 1 (rc_max_inbox_messages C) \<and> k \<le> length fs \<and>
     (\<forall>j < k. rc_max_inbox_bytes C < frame_bytes (drop j fs) + length frame \<or> max 1 (rc_max_inbox_messages C) \<le> length (drop j fs))"

lemma first_drop:
  assumes "box_ok C (fs, n)" and "(if rc_max_inbox_messages C \<le> length fs then drop_oldest (fs, n) else (fs, n)) = (gs, m)"
  shows "\<exists>i. gs = drop i fs \<and> i \<le> length fs \<and> m = frame_bytes gs \<and> length gs < max 1 (rc_max_inbox_messages C) \<and>
    (\<forall>j < i. max 1 (rc_max_inbox_messages C) \<le> length (drop j fs))"
proof (cases "rc_max_inbox_messages C \<le> length fs \<and> fs \<noteq> []")
  case True
  with assms have "gs = drop 1 fs \<and> m = frame_bytes gs" by (cases fs) (auto simp: drop_oldest_def box_ok_def)
  with True assms(1) show ?thesis by (intro exI [of _ 1]) (cases fs, auto simp: box_ok_def)
next
  case False
  with assms have "gs = fs \<and> m = frame_bytes gs \<and> length gs < max 1 (rc_max_inbox_messages C)"
    by (auto simp: box_ok_def drop_oldest_def split: if_splits list.splits)
  then show ?thesis by (intro exI [of _ 0]) auto
qed

lemma inbox_push_exact:
  assumes "inbox_push C ev now from target frame s = (r, t)" and "relay_ok C s"
  defines "fs \<equiv> (case ry_inboxes s target of None \<Rightarrow> [] | Some (fs, _) \<Rightarrow> fs)"
  shows "r = Inr Buffered \<and> (\<exists>k. evicted_by C frame fs k \<and> t = s\<lparr>ry_inboxes := (ry_inboxes s)(target \<mapsto>
           (drop k fs @ [\<lparr>tf_bytes = frame, tf_enqueued_at = now\<rparr>], frame_bytes (drop k fs) + length frame))\<rparr>) \<or>
    r = Inl (NetRelayFull ''frame exceeds inbox byte cap'') \<and> rc_max_inbox_bytes C < length frame \<and>
      t = s\<lparr>ry_inboxes := (ry_inboxes s)(target \<mapsto> ([], 0))\<rparr> \<or>
    r \<noteq> Inr Buffered \<and> t = s \<and> (from \<in> ev \<or> rc_max_frame_size C < length frame \<or> target \<notin> ry_online s)"
proof (cases "from \<in> ev \<or> rc_max_frame_size C < length frame \<or> target \<notin> ry_online s")
  case True
  with assms(1) show ?thesis by (auto simp: inbox_push_def split: if_splits)
next
  case False
  define box where "box = (case ry_inboxes s target of None \<Rightarrow> ([], 0) | Some b \<Rightarrow> b)"
  have box: "box = (fs, snd box)" "box_ok C (fs, snd box)"
    using assms(2) by (auto simp: box_def fs_def relay_ok_def box_ok_def split: option.splits)
  obtain gs m where b1: "(if rc_max_inbox_messages C \<le> length fs then drop_oldest (fs, snd box) else (fs, snd box)) = (gs, m)"
    by fastforce
  obtain i where i: "gs = drop i fs" "i \<le> length fs" "m = frame_bytes gs" "length gs < max 1 (rc_max_inbox_messages C)"
      "\<forall>j < i. max 1 (rc_max_inbox_messages C) \<le> length (drop j fs)"
    using first_drop [OF box(2) b1] by blast
  obtain hs n where mr: "make_room (rc_max_inbox_bytes C) (length frame) gs m = (hs, n)" by fastforce
  obtain k where k: "hs = drop k gs" "n = frame_bytes hs" "hs = [] \<or> n + length frame \<le> rc_max_inbox_bytes C"
      "\<forall>j < k. rc_max_inbox_bytes C < frame_bytes (drop j gs) + length frame"
    using make_room_drop [OF mr i(3)] by blast
  have run: "(r, t) = (if n + length frame > rc_max_inbox_bytes C
      then (Inl (NetRelayFull ''frame exceeds inbox byte cap''), s\<lparr>ry_inboxes := (ry_inboxes s)(target \<mapsto> (hs, n))\<rparr>)
      else (Inr Buffered, s\<lparr>ry_inboxes := (ry_inboxes s)(target \<mapsto> (hs @ [\<lparr>tf_bytes = frame, tf_enqueued_at = now\<rparr>], n + length frame))\<rparr>))"
    using assms(1) False box(1) b1 mr unfolding inbox_push_def Let_def box_def [symmetric]
    by (cases box) (simp split: if_splits)
  show ?thesis
  proof (cases "n + length frame > rc_max_inbox_bytes C")
    case True
    with k run show ?thesis by auto
  next
    case fits: False
    let ?k = "i + min k (length gs)"
    have hs: "hs = drop ?k fs" using k(1) i(1,2) by (simp add: min_def add.commute)
    have "evicted_by C frame fs ?k"
    proof -
      have "rc_max_inbox_bytes C < frame_bytes (drop j fs) + length frame \<or> max 1 (rc_max_inbox_messages C) \<le> length (drop j fs)"
        if "j < ?k" for j
      proof (cases "j < i")
        case False
        then have "drop j fs = drop (j - i) gs" "j - i < k" using i(1) that by auto
        with k(4) show ?thesis by auto
      qed (use i(5) in blast)
      moreover have "length hs < max 1 (rc_max_inbox_messages C)" using k(1) i(4) by (metis length_drop less_imp_diff_less)
      moreover have "?k \<le> length fs" using i(1,2) by (auto simp: min_def)
      ultimately show ?thesis using hs k(2) fits by (simp add: evicted_by_def)
    qed
    with fits run hs k(2) show ?thesis by auto
  qed
qed

lemma inbox_push_keeps [relay_keeps]:
  assumes "relay_ok C s" and "inbox_push C ev now from target frame s = (r, t)"
  shows "relay_ok C t \<and> ry_next_pair_id t = ry_next_pair_id s"
  using inbox_push_exact [OF assms(2,1)]
proof (elim disjE exE conjE)
  fix k
  let ?fs = "case ry_inboxes s target of None \<Rightarrow> [] | Some (fs, _) \<Rightarrow> fs"
  assume "evicted_by C frame ?fs k"
    and t: "t = s\<lparr>ry_inboxes := (ry_inboxes s)(target \<mapsto>
      (drop k ?fs @ [\<lparr>tf_bytes = frame, tf_enqueued_at = now\<rparr>], frame_bytes (drop k ?fs) + length frame))\<rparr>"
  then have "box_ok C (drop k ?fs @ [\<lparr>tf_bytes = frame, tf_enqueued_at = now\<rparr>], frame_bytes (drop k ?fs) + length frame)"
    by (auto simp: evicted_by_def box_ok_def)
  with assms(1) t show ?thesis by (auto simp: relay_ok_def pairs_ok_def)
qed (use assms(1) in \<open>auto simp: relay_ok_def pairs_ok_def box_ok_def\<close>)

lemma purge_filter: "purge keep fs n = (gs, m) \<Longrightarrow> n = frame_bytes fs + d \<Longrightarrow> gs = filter keep fs \<and> m = frame_bytes gs + d"
  by (induction keep fs n arbitrary: gs m d rule: purge.induct) (fastforce split: if_splits prod.splits)+

lemma filter_box_ok: "box_ok C (fs, n) \<Longrightarrow> box_ok C (filter P fs, frame_bytes (filter P fs))"
proof -
  have "frame_bytes (filter P fs) \<le> frame_bytes fs" by (induction fs) auto
  moreover have "length (filter P fs) \<le> length fs" by simp
  ultimately show "box_ok C (fs, n) \<Longrightarrow> ?thesis" unfolding box_ok_def prod.case by linarith
qed

lemma purge_box:
  assumes "box_ok C (fs, n)"
  shows "purge keep fs n = (filter keep fs, frame_bytes (filter keep fs))"
  using assms purge_filter [of keep fs n _ _ 0] by (cases "purge keep fs n") (auto simp: box_ok_def)

lemma cleanup_inbox:
  assumes "relay_ok C s"
  shows "ry_inboxes (cleanup_expired C now s) fp = (case ry_inboxes s fp of None \<Rightarrow> None
    | Some (fs, n) \<Rightarrow> (let gs = filter (unexpired C now) fs in if gs = [] then None else Some (gs, frame_bytes gs)))"
proof (cases "ry_inboxes s fp")
  case (Some box)
  with assms have "purge (unexpired C now) (fst box) (snd box) = (filter (unexpired C now) (fst box), frame_bytes (filter (unexpired C now) (fst box)))"
    by (intro purge_box [of C]) (cases box, auto simp: relay_ok_def)
  with Some show ?thesis by (cases box) (simp add: cleanup_expired_def Let_def)
qed (simp add: cleanup_expired_def)

lemma cleanup_keeps [relay_keeps]: 
  assumes "relay_ok C s"
  shows "relay_ok C (cleanup_expired C now s)"
proof -
  have "box_ok C box" if "ry_inboxes (cleanup_expired C now s) fp = Some box" for fp box
    using that assms filter_box_ok unfolding cleanup_inbox [OF assms]
    by (fastforce simp: relay_ok_def Let_def split: option.splits if_splits)
  moreover have "pairs_ok C (cleanup_expired C now s)" using assms by (simp add: relay_ok_def pairs_ok_def cleanup_expired_def)
  ultimately show ?thesis by (simp add: relay_ok_def)
qed

lemma remove_first_Some:
  "remove_first P xs = Some (x, ys) \<Longrightarrow> P x \<and> (\<exists>as bs. xs = as @ x # bs \<and> ys = as @ bs \<and> (\<forall>a \<in> set as. \<not> P a))"
proof (induction xs arbitrary: x ys)
  case (Cons a xs)
  show ?case
  proof (cases "P a")
    case True
    with Cons.prems show ?thesis by (auto intro: exI [of _ "[]"])
  next
    case False
    with Cons.prems obtain zs where zs: "remove_first P xs = Some (x, zs)" "ys = a # zs" by (auto split: prod.splits)
    with Cons.IH [OF zs(1)] obtain as bs where "P x" "xs = as @ x # bs" "zs = as @ bs" "\<forall>a \<in> set as. \<not> P a" by blast
    with False zs(2) show ?thesis by (intro conjI exI [of _ "a # as"] exI [of _ bs]) auto
  qed
qed simp

lemma remove_first_None: "remove_first P xs = None \<longleftrightarrow> (\<forall>x \<in> set xs. \<not> P x)"
  by (induction xs) auto

lemma relay_ops_keep [relay_keeps]:
  assumes "relay_ok C s"
  shows "register ev fp s = (r1, t1) \<Longrightarrow> relay_ok C t1 \<and> ry_next_pair_id t1 = ry_next_pair_id s"
    and "relay_ok C (deregister fp s)"
    and "relay_ok C (snd (issue_token raw fp s))"
    and "relay_ok C (revoke_token tok s)"
    and "relay_ok C (snd (inbox_pull C now fp s))"
    and "advert_publish now fp ad s = (r2, t2) \<Longrightarrow> relay_ok C t2 \<and> ry_next_pair_id t2 = ry_next_pair_id s"
    and "relay_ok C (snd (advert_fetch now fp s))"
  using assms
  by (auto simp: relay_ok_def pairs_ok_def register_def deregister_def issue_token_def revoke_token_def inbox_pull_def
      advert_publish_def advert_fetch_def se_defs Let_def distinct_map_filter le_trans [OF length_filter_le]
      split: if_splits option.splits prod.splits)

lemma close_pair_keeps [relay_keeps]: "relay_ok C s \<Longrightarrow> relay_ok C (snd (close_pair i s))"
  by (auto simp: relay_ok_def pairs_ok_def close_pair_def split: option.splits dest!: remove_first_Some)

lemma open_pair_keeps [relay_keeps]:
  assumes "relay_ok C s" and "open_pair C ev from to s = (r, t)" and "ry_next_pair_id s < u64_max"
  shows "relay_ok C t \<and> ry_next_pair_id t \<le> Suc (ry_next_pair_id s)"
proof -
  have "u64_add (ry_next_pair_id s) 1 = Suc (ry_next_pair_id s)" using assms(3) by (subst u64_add_id) (auto simp: u64_max_def)
  with assms(1,2) show ?thesis
    by (auto simp: open_pair_def Let_def relay_ok_def pairs_ok_def split: if_splits) (fastforce intro: less_SucI)+
qed

section \<open>Histories\<close>

text \<open>
  A relay with what happened to it: the frames that were buffered for every identity and
  those that it pulled, in order.
\<close>

record relay_world =
  rw_relay :: relay
  rw_evicted :: eviction_set
  rw_buffered :: "fingerprint \<Rightarrow> bytes list"
  rw_pulled :: "fingerprint \<Rightarrow> bytes list"

definition relay_start :: "relay \<Rightarrow> relay_world" where
  "relay_start s = \<lparr>rw_relay = s, rw_evicted = {}, rw_buffered = (\<lambda>f. []), rw_pulled = (\<lambda>f. [])\<rparr>"

inductive relay_step :: "relay_caps \<Rightarrow> relay_world \<Rightarrow> relay_world \<Rightarrow> bool" for C where
  step_register: "register (rw_evicted w) fp (rw_relay w) = (r, s) \<Longrightarrow> relay_step C w (w\<lparr>rw_relay := s\<rparr>)"
| step_deregister: "relay_step C w (w\<lparr>rw_relay := deregister fp (rw_relay w)\<rparr>)"
| step_issue: "issue_token raw fp (rw_relay w) = (tok, s) \<Longrightarrow> relay_step C w (w\<lparr>rw_relay := s\<rparr>)"
| step_revoke_token: "relay_step C w (w\<lparr>rw_relay := revoke_token tok (rw_relay w)\<rparr>)"
| step_open: "open_pair C (rw_evicted w) from to (rw_relay w) = (r', s) \<Longrightarrow> relay_step C w (w\<lparr>rw_relay := s\<rparr>)"
| step_close: "close_pair i (rw_relay w) = (p, s) \<Longrightarrow> relay_step C w (w\<lparr>rw_relay := s\<rparr>)"
| step_push: "inbox_push C (rw_evicted w) now from target frame (rw_relay w) = (q, s) \<Longrightarrow>
    relay_step C w (w\<lparr>rw_relay := s, rw_buffered := (rw_buffered w)(target :=
      (if q = Inr Buffered then rw_buffered w target @ [frame] else rw_buffered w target))\<rparr>)"
| step_pull: "inbox_pull C now fp (rw_relay w) = (frames, s) \<Longrightarrow>
    relay_step C w (w\<lparr>rw_relay := s, rw_pulled := (rw_pulled w)(fp := rw_pulled w fp @ frames)\<rparr>)"
| step_cleanup: "relay_step C w (w\<lparr>rw_relay := cleanup_expired C now (rw_relay w)\<rparr>)"
| step_publish: "advert_publish now fp ad (rw_relay w) = (r, s) \<Longrightarrow> relay_step C w (w\<lparr>rw_relay := s\<rparr>)"
| step_fetch: "advert_fetch now fp (rw_relay w) = (a, s) \<Longrightarrow> relay_step C w (w\<lparr>rw_relay := s\<rparr>)"
| step_revoke: "revoke fp (rw_evicted w) = (b, ev) \<Longrightarrow> relay_step C w (w\<lparr>rw_evicted := ev\<rparr>)"
| step_pardon: "pardon fp (rw_evicted w) = (b, ev) \<Longrightarrow> relay_step C w (w\<lparr>rw_evicted := ev\<rparr>)"

inductive_cases relay_stepE: "relay_step C w w'"

definition inbox_frames :: "relay \<Rightarrow> fingerprint \<Rightarrow> bytes list" where
  "inbox_frames s fp = (case ry_inboxes s fp of None \<Rightarrow> [] | Some (fs, _) \<Rightarrow> map tf_bytes fs)"

definition in_order :: "relay_world \<Rightarrow> bool" where
  "in_order w \<longleftrightarrow> (\<forall>fp. subseq (rw_pulled w fp @ inbox_frames (rw_relay w) fp) (rw_buffered w fp))"

lemma subseq_pulled: "subseq (ps @ fs) bs \<Longrightarrow> subseq ps bs"
  by (metis prefixI prefix_imp_subseq subseq_order.order_trans)

lemma in_order_shrink:
  assumes "in_order w" and "\<And>fp. subseq (rw_pulled w' fp @ inbox_frames (rw_relay w') fp) (rw_pulled w fp @ inbox_frames (rw_relay w) fp)"
    and "rw_buffered w' = rw_buffered w"
  shows "in_order w'"
  using assms unfolding in_order_def by (metis subseq_order.order_trans)

lemma in_order_same_inboxes:
  "in_order w \<Longrightarrow> ry_inboxes s = ry_inboxes (rw_relay w) \<Longrightarrow> in_order (w\<lparr>rw_relay := s\<rparr>)"
  by (simp add: in_order_def inbox_frames_def)

lemma inboxes_untouched:
  "register ev fp s = (r, t) \<Longrightarrow> ry_inboxes t = ry_inboxes s"
  "ry_inboxes (deregister fp s) = ry_inboxes s"
  "issue_token raw fp s = (tok, t) \<Longrightarrow> ry_inboxes t = ry_inboxes s"
  "ry_inboxes (revoke_token tk s) = ry_inboxes s"
  "open_pair C ev from to s = (r', t) \<Longrightarrow> ry_inboxes t = ry_inboxes s"
  "close_pair i s = (p, t) \<Longrightarrow> ry_inboxes t = ry_inboxes s"
  "advert_publish now fp ad s = (r, t) \<Longrightarrow> ry_inboxes t = ry_inboxes s"
  "advert_fetch now fp s = (a, t) \<Longrightarrow> ry_inboxes t = ry_inboxes s"
  by (auto simp: register_def deregister_def issue_token_def revoke_token_def open_pair_def close_pair_def advert_publish_def
      advert_fetch_def se_defs Let_def split: if_splits option.splits prod.splits)

lemma push_in_order:
  assumes "in_order w" and "relay_ok C (rw_relay w)" and "inbox_push C ev now from target frame (rw_relay w) = (q, s)"
  shows "in_order (w\<lparr>rw_relay := s, rw_buffered := (rw_buffered w)(target :=
      (if q = Inr Buffered then rw_buffered w target @ [frame] else rw_buffered w target))\<rparr>)"
  using inbox_push_exact [OF assms(3,2)]
proof (elim disjE exE conjE)
  fix k
  let ?fs = "case ry_inboxes (rw_relay w) target of None \<Rightarrow> [] | Some (fs, _) \<Rightarrow> fs"
  assume q: "q = Inr Buffered" and s: "s = rw_relay w\<lparr>ry_inboxes := (ry_inboxes (rw_relay w))(target \<mapsto>
      (drop k ?fs @ [\<lparr>tf_bytes = frame, tf_enqueued_at = now\<rparr>], frame_bytes (drop k ?fs) + length frame))\<rparr>"
  have "map tf_bytes ?fs = inbox_frames (rw_relay w) target" by (simp add: inbox_frames_def split: option.splits)
  then have "subseq (map tf_bytes (drop k ?fs)) (inbox_frames (rw_relay w) target)" by (metis drop_map suffix_drop suffix_imp_subseq)
  then have "subseq (rw_pulled w target @ map tf_bytes (drop k ?fs)) (rw_buffered w target)"
    using assms(1) unfolding in_order_def by (meson subseq_append' subseq_order.order_trans)
  then have "subseq ((rw_pulled w target @ map tf_bytes (drop k ?fs)) @ [frame]) (rw_buffered w target @ [frame])"
    by (simp only: subseq_append)
  with assms(1) q s show ?thesis by (simp add: in_order_def inbox_frames_def)
qed (use assms(1) in \<open>auto simp: in_order_def inbox_frames_def intro: subseq_pulled\<close>)

lemma pull_in_order:
  assumes "in_order w" and "inbox_pull C now fp (rw_relay w) = (frames, s)"
  shows "in_order (w\<lparr>rw_relay := s, rw_pulled := (rw_pulled w)(fp := rw_pulled w fp @ frames)\<rparr>)"
proof -
  have "subseq frames (inbox_frames (rw_relay w) fp)" "inbox_frames s fp = []"
    and other: "g \<noteq> fp \<Longrightarrow> inbox_frames s g = inbox_frames (rw_relay w) g" for g
    using assms(2) by (auto simp: inbox_pull_def inbox_frames_def split: option.splits intro: subseq_map)
  then show ?thesis by (intro in_order_shrink [OF assms(1)]) (simp_all add: subseq_append')
qed

lemma cleanup_in_order:
  assumes "in_order w" and "relay_ok C (rw_relay w)"
  shows "in_order (w\<lparr>rw_relay := cleanup_expired C now (rw_relay w)\<rparr>)"
proof (rule in_order_shrink [OF assms(1)])
  fix fp
  have "subseq (inbox_frames (cleanup_expired C now (rw_relay w)) fp) (inbox_frames (rw_relay w) fp)"
    by (auto simp: inbox_frames_def cleanup_inbox [OF assms(2)] Let_def split: option.splits intro: subseq_map)
  then show "subseq (rw_pulled (w\<lparr>rw_relay := cleanup_expired C now (rw_relay w)\<rparr>) fp @
      inbox_frames (rw_relay (w\<lparr>rw_relay := cleanup_expired C now (rw_relay w)\<rparr>)) fp) (rw_pulled w fp @ inbox_frames (rw_relay w) fp)"
    by (simp add: subseq_append')
qed simp

lemma relay_step_ok:
  assumes "relay_step C w w'" and "relay_ok C (rw_relay w)" and "ry_next_pair_id (rw_relay w) < u64_max"
  shows "relay_ok C (rw_relay w') \<and> ry_next_pair_id (rw_relay w') \<le> Suc (ry_next_pair_id (rw_relay w))"
  using assms
proof (cases rule: relay_step.cases)
  case (step_open a b r2 s)
  with open_pair_keeps [OF assms(2) _ assms(3)] show ?thesis by auto
next
  case (step_issue raw fp tok s)
  with relay_ops_keep(3) [OF assms(2), of raw fp] show ?thesis by (auto simp: issue_token_def Let_def)
next
  case (step_close i p s)
  with close_pair_keeps [OF assms(2), of i] show ?thesis by (auto simp: close_pair_def split: option.splits)
next
  case (step_pull now fp frames s)
  with relay_ops_keep(5) [OF assms(2), of now fp] show ?thesis by (auto simp: inbox_pull_def split: option.splits)
next
  case (step_fetch now fp a s)
  with relay_ops_keep(7) [OF assms(2), of now fp] show ?thesis by (auto simp: advert_fetch_def split: option.splits if_splits)
next
  case (step_register fp r s)
  with relay_ops_keep(1) [OF assms(2)] show ?thesis by fastforce
next
  case (step_publish now fp ad r s)
  with relay_ops_keep(6) [OF assms(2)] show ?thesis by fastforce
next
  case (step_push now a target frame q s)
  with inbox_push_keeps [OF assms(2)] show ?thesis by fastforce
next
  case (step_cleanup now)
  with cleanup_keeps [OF assms(2)] show ?thesis by (simp add: cleanup_expired_def)
qed (use assms(2) relay_ops_keep(2,4) [OF assms(2)] in \<open>auto simp: deregister_def revoke_token_def\<close>)

lemma relay_step_in_order:
  assumes "relay_step C w w'" and "relay_ok C (rw_relay w)" and "in_order w"
  shows "in_order w'"
  using assms(1)
proof (cases rule: relay_step.cases)
  case (step_push now a target frame q s)
  show ?thesis unfolding step_push(1) by (rule push_in_order [OF assms(3,2) step_push(2)])
next
  case (step_pull now fp frames s)
  show ?thesis unfolding step_pull(1) by (rule pull_in_order [OF assms(3) step_pull(2)])
next
  case (step_cleanup now)
  show ?thesis unfolding step_cleanup by (rule cleanup_in_order [OF assms(3,2)])
qed (use assms(3) in \<open>auto intro!: in_order_same_inboxes dest: inboxes_untouched(1,3,5,6,7,8) simp: inboxes_untouched(2,4)\<close>,
    use assms(3) in \<open>simp_all add: in_order_def\<close>)

text \<open>Everything that holds along a history.\<close>

lemma relay_history:
  assumes "(relay_step C ^^ n) (relay_start s0) w" and "(C, s0) = with_caps a b c d" and "n < u64_max - 1"
  shows "relay_ok C (rw_relay w) \<and> ry_next_pair_id (rw_relay w) \<le> Suc n \<and> in_order w"
  using assms(1,3)
proof (induction n arbitrary: w)
  case 0
  with assms(2) show ?case
    by (auto simp: relay_start_def with_caps_def relay_ok_def pairs_ok_def in_order_def inbox_frames_def)
next
  case (Suc n)
  then obtain v where v: "(relay_step C ^^ n) (relay_start s0) v" "relay_step C v w" by auto
  with Suc have "relay_ok C (rw_relay v)" "ry_next_pair_id (rw_relay v) \<le> Suc n" "in_order v" by auto
  moreover from this(2) Suc.prems(2) have "ry_next_pair_id (rw_relay v) < u64_max" by linarith
  ultimately show ?case using relay_step_ok [OF v(2)] relay_step_in_order [OF v(2)] by fastforce
qed

text \<open>
  C20: Whatever sequence of operations a relay serves (fewer than \<open>2 ^ 64 - 2\<close>, so that pair
  ids do not wrap), its memory stays within the configured caps: every inbox holds at
  most the allowed number of frames and bytes and its byte count is the sum of their
  lengths, there are at most \<open>max_forwardings\<close> pairs, their ids are distinct, and both
  ends of every pair are online.
\<close>

theorem relay_stays_bounded:
  assumes "(C, s0) = with_caps max_forwardings max_inbox_messages max_inbox_bytes ttl"
    and "(relay_step C ^^ n) (relay_start s0) w" and "n < u64_max - 1"
  shows "(\<forall>fp fs k. ry_inboxes (rw_relay w) fp = Some (fs, k) \<longrightarrow>
        k = sum_list (map (\<lambda>f. length (tf_bytes f)) fs) \<and> k \<le> max_inbox_bytes \<and> length fs \<le> max 1 max_inbox_messages) \<and>
     length (ry_forwarding (rw_relay w)) \<le> max_forwardings \<and> distinct (map fp_id (ry_forwarding (rw_relay w))) \<and>
     (\<forall>p \<in> set (ry_forwarding (rw_relay w)). fp_from p \<in> ry_online (rw_relay w) \<and> fp_to p \<in> ry_online (rw_relay w))"
proof -
  have caps: "rc_max_forwardings C = max_forwardings" "rc_max_inbox_messages C = max_inbox_messages" "rc_max_inbox_bytes C = max_inbox_bytes"
    using assms(1) by (simp_all add: with_caps_def)
  have "relay_ok C (rw_relay w)" using relay_history [OF assms(2,1,3)] by simp
  with caps show ?thesis by (fastforce simp: relay_ok_def pairs_ok_def box_ok_def frame_bytes_def)
qed

text \<open>
  C21: An inbox delivers at most once and in order: what an identity has pulled from the
  relay, followed by what is waiting for it, is a subsequence of the frames that were
  buffered for it. No frame is duplicated, reordered, altered or delivered to someone
  else, in any history; frames are only dropped (for the caps, or when they expire).
\<close>

theorem inbox_delivers_in_order:
  assumes "(C, s0) = with_caps max_forwardings max_inbox_messages max_inbox_bytes ttl"
    and "(relay_step C ^^ n) (relay_start s0) w" and "n < u64_max - 1"
  shows "subseq (rw_pulled w fp @ inbox_frames (rw_relay w) fp) (rw_buffered w fp)"
  using relay_history [OF assms(2,1,3)] by (simp add: in_order_def)

definition example_caps :: relay_caps where
  "example_caps = fst (with_caps 3 2 4 60)"

definition example_peer :: fingerprint where
  "example_peer = replicate 32 7"

text \<open>A relay where one peer is online with some waiting frames.\<close>

definition example_world :: "(timestamped_frame list \<times> nat) option \<Rightarrow> bytes list \<Rightarrow> bytes list \<Rightarrow> relay_world" where
  "example_world box buffered pulled =
     \<lparr>rw_relay = \<lparr>ry_online = {example_peer}, ry_tokens = (\<lambda>t. None), ry_forwarding = [], ry_next_pair_id = 1,
        ry_inboxes = (\<lambda>f. None)(example_peer := box), ry_adverts = (\<lambda>f. None)\<rparr>,
      rw_evicted = {}, rw_buffered = (\<lambda>f. [])(example_peer := buffered), rw_pulled = (\<lambda>f. [])(example_peer := pulled)\<rparr>"

abbreviation "example_frame b \<equiv> \<lparr>tf_bytes = b, tf_enqueued_at = 0\<rparr>"

abbreviation "example_full \<equiv> example_world (Some ([example_frame [3], example_frame [4]], 2)) [[1, 2], [3], [4]] []"

abbreviation "example_drained \<equiv> example_world None [[1, 2], [3], [4]] [[3], [4]]"

lemma example_caps_simps: "rc_max_inbox_messages example_caps = 2" "rc_max_inbox_bytes example_caps = 4"
  "rc_max_frame_size example_caps = 1048576" "rc_inbox_ttl example_caps = 60000000000"
  by (simp_all add: example_caps_def with_caps_def DEFAULT_MAX_FRAME_SIZE_def NANOS_def)

lemma example_push:
  assumes "inbox_push example_caps {} 0 example_peer example_peer frame (rw_relay (example_world box bs ps)) =
      (Inr Buffered, rw_relay (example_world box' bs' ps))" and "bs' = bs @ [frame]"
  shows "relay_step example_caps (example_world box bs ps) (example_world box' bs' ps)"
proof -
  let ?w = "example_world box bs ps"
  have "relay_step example_caps ?w (?w\<lparr>rw_relay := rw_relay (example_world box' bs' ps),
      rw_buffered := (rw_buffered ?w)(example_peer := (if (Inr Buffered :: network_error + forward_outcome) = Inr Buffered
         then rw_buffered ?w example_peer @ [frame] else rw_buffered ?w example_peer))\<rparr>)"
    by (rule step_push) (use assms(1) in \<open>simp add: example_world_def\<close>)
  with assms(2) show ?thesis by (simp add: example_world_def)
qed

lemma example_history_steps:
  "(relay_step example_caps ^^ 4) (relay_start (snd (with_caps 3 2 4 60))) example_full"
  "relay_step example_caps example_full example_drained"
proof -
  have "register {} example_peer (rw_relay (relay_start (snd (with_caps 3 2 4 60)))) = (Inr (), rw_relay (example_world None [] []))"
    by (simp add: register_def modify_def relay_start_def with_caps_def example_world_def)
  then have "relay_step example_caps (relay_start (snd (with_caps 3 2 4 60)))
      ((relay_start (snd (with_caps 3 2 4 60)))\<lparr>rw_relay := rw_relay (example_world None [] [])\<rparr>)"
    by (intro step_register) (simp add: relay_start_def)
  then have "relay_step example_caps (relay_start (snd (with_caps 3 2 4 60))) (example_world None [] [])"
    by (simp add: example_world_def relay_start_def fun_upd_idem)
  moreover have "relay_step example_caps (example_world None [] []) (example_world (Some ([example_frame [1, 2]], 2)) [[1, 2]] [])"
    by (rule example_push) (simp_all add: inbox_push_def example_world_def example_caps_simps numeral_2_eq_2 numeral_3_eq_3)
  moreover have "relay_step example_caps (example_world (Some ([example_frame [1, 2]], 2)) [[1, 2]] [])
      (example_world (Some ([example_frame [1, 2], example_frame [3]], 3)) [[1, 2], [3]] [])"
    by (rule example_push) (simp_all add: inbox_push_def example_world_def example_caps_simps numeral_2_eq_2 numeral_3_eq_3)
  moreover have "relay_step example_caps (example_world (Some ([example_frame [1, 2], example_frame [3]], 3)) [[1, 2], [3]] []) example_full"
    by (rule example_push) (simp_all add: inbox_push_def example_world_def example_caps_simps numeral_2_eq_2 numeral_3_eq_3 drop_oldest_def)
  ultimately show "(relay_step example_caps ^^ 4) (relay_start (snd (with_caps 3 2 4 60))) example_full"
    by (auto simp: numeral_nat intro!: relcomppI)
  have "inbox_pull example_caps 9 example_peer (rw_relay example_full) = ([[3], [4]], rw_relay example_drained)"
    by (simp add: inbox_pull_def example_world_def unexpired_def example_caps_simps)
  from step_pull [OF this] show "relay_step example_caps example_full example_drained" by (simp add: example_world_def)
qed

lemma example_caps_start: "(example_caps, snd (with_caps 3 2 4 60)) = with_caps 3 2 4 60"
  by (simp add: example_caps_def)

theorem relay_stays_bounded_witness:
  "(relay_step example_caps ^^ 4) (relay_start (snd (with_caps 3 2 4 60))) example_full \<and>
   length (ry_forwarding (rw_relay example_full)) \<le> 3 \<and> length (fst (the (ry_inboxes (rw_relay example_full) example_peer))) \<le> 2"
  using relay_stays_bounded [OF example_caps_start example_history_steps(1)] example_history_steps(1)
  by (simp add: u64_max_def example_world_def)

theorem inbox_delivers_in_order_witness:
  "rw_pulled example_drained example_peer = [[3], [4]] \<and>
   subseq (rw_pulled example_drained example_peer @ inbox_frames (rw_relay example_drained) example_peer) (rw_buffered example_drained example_peer)"
proof
  show "rw_pulled example_drained example_peer = [[3], [4]]" by (simp add: example_world_def)
  have "(relay_step example_caps ^^ 5) (relay_start (snd (with_caps 3 2 4 60))) example_drained"
    using relpowp_Suc_I [OF example_history_steps] by simp
  from inbox_delivers_in_order [OF example_caps_start this]
  show "subseq (rw_pulled example_drained example_peer @ inbox_frames (rw_relay example_drained) example_peer)
     (rw_buffered example_drained example_peer)" by (simp add: u64_max_def)
qed

text \<open>
  C39: A frame that is longer than the byte cap of an inbox (which \<open>with_caps\<close> may set below
  the frame size cap) is refused only after the inbox of its target has been emptied: a
  single push by any peer loses every frame that waits there.
\<close>

theorem oversize_push_empties_inbox:
  assumes "relay_ok C s" and "from \<notin> ev" and "target \<in> ry_online s"
    and "length frame \<le> rc_max_frame_size C" and "rc_max_inbox_bytes C < length frame"
  shows "\<exists>t. inbox_push C ev now from target frame s = (Inl (NetRelayFull ''frame exceeds inbox byte cap''), t) \<and>
    inbox_pull C later target t = ([], t\<lparr>ry_inboxes := (ry_inboxes t)(target := None)\<rparr>)"
proof -
  obtain r t where run: "inbox_push C ev now from target frame s = (r, t)" by fastforce
  from inbox_push_exact [OF this assms(1)] assms(2-5)
  have "r = Inl (NetRelayFull ''frame exceeds inbox byte cap'')" "t = s\<lparr>ry_inboxes := (ry_inboxes s)(target \<mapsto> ([], 0))\<rparr>"
    by (auto simp: evicted_by_def)
  with run show ?thesis by (simp add: inbox_pull_def)
qed

theorem oversize_push_empties_inbox_witness:
  "\<exists>t. inbox_push example_caps {} 1 [] example_peer [1, 2, 3, 4, 5] (rw_relay example_full) =
         (Inl (NetRelayFull ''frame exceeds inbox byte cap''), t) \<and>
       inbox_pull example_caps 2 example_peer t = ([], t\<lparr>ry_inboxes := (ry_inboxes t)(example_peer := None)\<rparr>)"
proof (rule oversize_push_empties_inbox)
  show "relay_ok example_caps (rw_relay example_full)"
    using relay_history [OF example_history_steps(1) example_caps_start] by (simp add: u64_max_def)
qed (simp_all add: example_world_def example_caps_simps)

section \<open>Evictions survive a restart\<close>

lemma eviction_bytes_read:
  assumes "\<And>S. finite S \<Longrightarrow> set (enum S) = S" and "finite ev" and "\<And>x. x \<in> ev \<Longrightarrow> length x = 32"
  shows "eviction_of_bytes (eviction_bytes enum ev) = Inr ev"
proof -
  have set: "set (enum ev) = ev" by (rule assms(1) [OF assms(2)])
  have magic: "str_bytes ''ONEV'' = [79, 78, 69, 86]" by code_simp
  have "length (concat (enum ev)) mod 32 = 0" using set assms(3) by (intro length_concat_aligned) blast
  moreover have "chunks_exact 32 (concat (enum ev)) = enum ev" using set assms(3) by (intro chunks_exact_concat) auto
  ultimately show ?thesis using set by (simp add: eviction_of_bytes_def eviction_bytes_def magic)
qed

text \<open>
  C22: A restart does not bring a revoked peer back: after the eviction set has been saved
  and loaded, an evicted identity can neither register, nor open a pair, nor push into an
  inbox, whatever the state of the relay, and the attempt changes nothing; and no one
  else is evicted by it.
\<close>

theorem eviction_survives_restart:
  assumes "\<And>S. finite S \<Longrightarrow> set (enum S) = S" and "finite ev" and "\<And>x. x \<in> ev \<Longrightarrow> length x = 32"
    and "eviction_save E enum path ev d = (Inr (), d1)" and "eviction_load E path d1 = (Inr ev2, d2)"
    and "\<And>n. temp_name E (real_parent path) n \<noteq> path"
  shows "ev2 = ev \<and> (fp \<in> ev \<longrightarrow> register ev2 fp s = (Inl (NetEvicted (to_hex fp)), s) \<and>
    open_pair C ev2 fp to s = (Inl (NetEvicted (to_hex fp)), s) \<and>
    inbox_push C ev2 now fp to frame s = (Inl (NetEvicted (to_hex fp)), s))"
proof -
  have "dk_files d1 path = Some (eviction_bytes enum ev)"
    using assms(4) atomic_write_outcome [OF _ assms(6)] by (fastforce simp: eviction_save_def map_err_Inr)
  with assms(5) have "eviction_of_bytes (eviction_bytes enum ev) = Inr ev2"
    by (auto simp: eviction_load_def disk_read_def se_Inr map_err_def Let_def lift_def split: option.splits prod.splits sum.splits)
  with eviction_bytes_read [OF assms(1-3)] have "ev2 = ev" by simp
  then show ?thesis by (simp add: register_def throw_def open_pair_def inbox_push_def)
qed

theorem eviction_survives_restart_witness:
  "\<exists>d1 d2. eviction_save calm_disk_env sorted_list_of_set ''/e'' {example_peer} \<lparr>dk_files = Map.empty, dk_dirs = {''/''}, dk_tick = 0\<rparr> = (Inr (), d1) \<and>
     eviction_load calm_disk_env ''/e'' d1 = (Inr {example_peer}, d2) \<and>
     register {example_peer} example_peer (rw_relay example_full) = (Inl (NetEvicted (to_hex example_peer)), rw_relay example_full)"
proof -
  let ?d = "\<lparr>dk_files = Map.empty, dk_dirs = {''/''}, dk_tick = 0\<rparr>"
  have par: "real_parent ''/e'' = Some ''/''" by code_simp
  have tmp: "temp_name calm_disk_env (real_parent ''/e'') n \<noteq> ''/e''" for n
    by (simp add: par temp_name_def path_join_def calm_disk_env_def)
  have len: "x \<in> {example_peer} \<Longrightarrow> length x = 32" for x by (simp add: example_peer_def)
  obtain d1 where save: "eviction_save calm_disk_env sorted_list_of_set ''/e'' {example_peer} ?d = (Inr (), d1)"
    by (simp add: eviction_save_def atomic_write_def ensure_dir_def path_exists_def par se_defs map_err_def disk_ops calm_disk_env_def)
  have "dk_files d1 ''/e'' = Some (eviction_bytes sorted_list_of_set {example_peer})"
    using save atomic_write_outcome [OF _ tmp] by (fastforce simp: eviction_save_def map_err_Inr)
  moreover have "eviction_of_bytes (eviction_bytes sorted_list_of_set {example_peer}) = Inr {example_peer}"
    by (rule eviction_bytes_read) (simp_all add: len)
  ultimately obtain d2 where load: "eviction_load calm_disk_env ''/e'' d1 = (Inr {example_peer}, d2)"
    by (simp add: eviction_load_def disk_read_def bnd_def map_err_def calm_disk_env_def lift_def Let_def)
  have "register {example_peer} example_peer (rw_relay example_full) = (Inl (NetEvicted (to_hex example_peer)), rw_relay example_full)"
    using eviction_survives_restart [OF _ _ len save load tmp, of example_peer "rw_relay example_full"] by simp
  with save load show ?thesis by blast
qed

end
