(* ===== verification/Common_Envelope.thy ===== *)
theory Common_Envelope
  imports Wire_Bytes
begin

text \<open>
  The binary envelope of the suite (\<open>src/origin-common/src/envelope.rs\<close>, \<open>tier_ext.rs\<close>):
  a fixed header of 48 bytes that the AEAD authenticates, and the ciphertext. The AEAD,
  the compressor and the random source are those of the external SDK, the fields of \<open>envelope_sdk\<close>.
\<close>

unbundle bit_operations_syntax

record envelope_sdk =
  es_seal :: "bytes \<Rightarrow> bytes \<Rightarrow> bytes \<Rightarrow> bytes \<Rightarrow> string + bytes"
  es_open :: "bytes \<Rightarrow> bytes \<Rightarrow> bytes \<Rightarrow> bytes \<Rightarrow> string + bytes"
  es_compress :: "bytes \<Rightarrow> string + bytes"
  es_decompress :: "bytes \<Rightarrow> string + bytes"
  es_random :: "nat \<Rightarrow> nat \<Rightarrow> string + bytes"

text \<open>What the envelope relies on: key, nonce, data and associated data in this order.\<close>

definition sdk_ok :: "envelope_sdk \<Rightarrow> bool" where
  "sdk_ok K \<longleftrightarrow> (\<forall>k n p a c. es_seal K k n p a = Inr c \<longrightarrow> es_open K k n c a = Inr p) \<and>
     (\<forall>p z. es_compress K p = Inr z \<longrightarrow> es_decompress K z = Inr p) \<and>
     (\<forall>i n b. es_random K i n = Inr b \<longrightarrow> length b = n)"

text \<open>No two headers are accepted for one ciphertext under one key.\<close>

definition sdk_binds :: "envelope_sdk \<Rightarrow> bool" where
  "sdk_binds K \<longleftrightarrow> (\<forall>k n n' c a a' p p'. es_open K k n c a = Inr p \<longrightarrow> es_open K k n' c a' = Inr p' \<longrightarrow> a = a')"

datatype memory_tier = Nano | Standard | Sovereign

definition tier_to_byte :: "memory_tier \<Rightarrow> byte" where
  "tier_to_byte t = (case t of Nano \<Rightarrow> 0 | Standard \<Rightarrow> 1 | Sovereign \<Rightarrow> 2)"

definition tier_from_byte :: "byte \<Rightarrow> string + memory_tier" where
  "tier_from_byte b = (if b = 0 then Inr Nano else if b = 1 then Inr Standard else if b = 2 then Inr Sovereign
     else Inl (''unknown tier byte '' @ dec (unat b)))"

definition tier_from_str :: "string \<Rightarrow> string + memory_tier" where
  "tier_from_str s = (let l = to_ascii_lowercase s in
     if l = ''nano'' then Inr Nano
     else if l = ''standard'' \<or> l = ''std'' then Inr Standard
     else if l = ''sovereign'' \<or> l = ''sov'' then Inr Sovereign
     else Inl (''unknown tier '' @ [CHR 0x27] @ s @ [CHR 0x27] @ '' (expected: nano, standard, sovereign)''))"

datatype payload_type = PVault | PFile | PSigned | PSeed | PShard | PProof

definition payload_to_byte :: "payload_type \<Rightarrow> byte" where
  "payload_to_byte t = (case t of PVault \<Rightarrow> 1 | PFile \<Rightarrow> 2 | PSigned \<Rightarrow> 3 | PSeed \<Rightarrow> 4 | PShard \<Rightarrow> 5 | PProof \<Rightarrow> 6)"

definition payload_from_byte :: "byte \<Rightarrow> string + payload_type" where
  "payload_from_byte b = (if b = 1 then Inr PVault else if b = 2 then Inr PFile else if b = 3 then Inr PSigned
     else if b = 4 then Inr PSeed else if b = 5 then Inr PShard else if b = 6 then Inr PProof
     else Inl (''unknown payload type: '' @ dec (unat b)))"

definition ORGN_MAGIC :: bytes where "ORGN_MAGIC = str_bytes ''ORGN''"
definition ENVELOPE_VERSION :: byte where "ENVELOPE_VERSION = 1"
definition HEADER_LEN :: nat where "HEADER_LEN = 48"
definition MAX_PAYLOAD_LEN :: nat where "MAX_PAYLOAD_LEN = 1024 * 1024 * 1024"
definition FLAG_COMPRESSED :: byte where "FLAG_COMPRESSED = 1"

record envelope_header =
  eh_version :: byte
  eh_payload_type :: payload_type
  eh_flags :: byte
  eh_tier :: memory_tier
  eh_salt :: bytes
  eh_nonce :: bytes

record envelope =
  ev_header :: envelope_header
  ev_payload :: bytes

definition compute_aad :: "envelope_header \<Rightarrow> bytes" where
  "compute_aad h = ORGN_MAGIC @ [eh_version h, payload_to_byte (eh_payload_type h), eh_flags h, tier_to_byte (eh_tier h)]
     @ eh_salt h @ eh_nonce h"

definition envelope_random :: "envelope_sdk \<Rightarrow> nat \<Rightarrow> nat \<Rightarrow> string + bytes" where
  "envelope_random K i n = (case es_random K i n of Inl e \<Rightarrow> Inl (''SDK randomness failure: '' @ e) | Inr b \<Rightarrow> Inr b)"

definition envelope_encrypt ::
  "envelope_sdk \<Rightarrow> nat \<Rightarrow> bytes \<Rightarrow> bytes \<Rightarrow> memory_tier \<Rightarrow> payload_type \<Rightarrow> bool \<Rightarrow> string + envelope" where
  "envelope_encrypt K i plaintext key tier payload_type compress =
     (case envelope_random K i 16 of Inl e \<Rightarrow> Inl e
      | Inr salt \<Rightarrow> (case envelope_random K (i + 1) 24 of Inl e \<Rightarrow> Inl e
        | Inr nonce \<Rightarrow>
          (case if compress then es_compress K plaintext else Inr plaintext of
             Inl e \<Rightarrow> Inl (''compression failed: '' @ e)
           | Inr payload_data \<Rightarrow>
             (let h = \<lparr>eh_version = ENVELOPE_VERSION, eh_payload_type = payload_type,
                       eh_flags = (if compress then FLAG_COMPRESSED else 0), eh_tier = tier, eh_salt = salt, eh_nonce = nonce\<rparr>
              in case es_seal K key nonce payload_data (compute_aad h) of
                   Inl e \<Rightarrow> Inl (''encryption failed: '' @ e)
                 | Inr ciphertext \<Rightarrow> Inr \<lparr>ev_header = h, ev_payload = ciphertext\<rparr>))))"

definition envelope_decrypt :: "envelope_sdk \<Rightarrow> bytes \<Rightarrow> envelope \<Rightarrow> string + bytes" where
  "envelope_decrypt K key e =
     (case es_open K key (eh_nonce (ev_header e)) (ev_payload e) (compute_aad (ev_header e)) of
        Inl _ \<Rightarrow> Inl ''decryption failed (wrong key or corrupt data)''
      | Inr plaintext \<Rightarrow> if eh_flags (ev_header e) AND FLAG_COMPRESSED \<noteq> 0
          then (case es_decompress K plaintext of Inl x \<Rightarrow> Inl (''decompression failed: '' @ x) | Inr p \<Rightarrow> Inr p)
          else Inr plaintext)"

definition envelope_to_bytes :: "envelope \<Rightarrow> bytes" where
  "envelope_to_bytes e = (let h = ev_header e in
     ORGN_MAGIC @ [eh_version h, payload_to_byte (eh_payload_type h), eh_flags h, tier_to_byte (eh_tier h)]
     @ eh_salt h @ eh_nonce h @ ev_payload e)"

definition envelope_from_bytes :: "bytes \<Rightarrow> string + envelope" where
  "envelope_from_bytes bs =
     (if length bs < HEADER_LEN
      then Inl (''envelope too short ('' @ dec (length bs) @ '' bytes, need at least '' @ dec HEADER_LEN @ '')'')
      else if take 4 bs \<noteq> ORGN_MAGIC then Inl ''not an ORGN envelope (wrong magic)''
      else if bs ! 4 \<noteq> ENVELOPE_VERSION then Inl (''unsupported envelope version: '' @ dec (unat (bs ! 4)))
      else (case payload_from_byte (bs ! 5) of Inl e \<Rightarrow> Inl e
        | Inr payload_type \<Rightarrow>
          if bs ! 6 AND NOT FLAG_COMPRESSED \<noteq> 0 then Inl (''unsupported envelope flags: 0x'' @ hex_encode [bs ! 6])
          else (case tier_from_byte (bs ! 7) of Inl e \<Rightarrow> Inl e
            | Inr tier \<Rightarrow> (let payload = drop 48 bs in
                if length payload > MAX_PAYLOAD_LEN
                then Inl (''envelope payload too large ('' @ dec (length payload) @ '' bytes, max '' @ dec MAX_PAYLOAD_LEN @ '')'')
                else Inr \<lparr>ev_header = \<lparr>eh_version = bs ! 4, eh_payload_type = payload_type, eh_flags = bs ! 6, eh_tier = tier,
                        eh_salt = take 16 (drop 8 bs), eh_nonce = take 24 (drop 24 bs)\<rparr>, ev_payload = payload\<rparr>))))"

section \<open>Bytes and envelopes correspond\<close>

definition envelope_wf :: "envelope \<Rightarrow> bool" where
  "envelope_wf e \<longleftrightarrow> eh_version (ev_header e) = ENVELOPE_VERSION \<and> eh_flags (ev_header e) \<in> {0, FLAG_COMPRESSED} \<and>
     length (eh_salt (ev_header e)) = 16 \<and> length (eh_nonce (ev_header e)) = 24 \<and> length (ev_payload e) \<le> MAX_PAYLOAD_LEN"

lemma payload_byte_iff: "payload_from_byte b = Inr t \<longleftrightarrow> b = payload_to_byte t"
  by (auto simp: payload_from_byte_def payload_to_byte_def split: payload_type.splits)

lemma tier_byte_iff: "tier_from_byte b = Inr t \<longleftrightarrow> b = tier_to_byte t"
  by (auto simp: tier_from_byte_def tier_to_byte_def split: memory_tier.splits)

lemma only_flag_iff: "b AND NOT FLAG_COMPRESSED = 0 \<longleftrightarrow> b \<in> {0, FLAG_COMPRESSED}" for b :: byte
proof -
  have "(b AND NOT 1 = 0) = (b = 0 \<or> b = 1)" for b :: byte
  proof
    assume z: "b AND NOT 1 = 0"
    have "b = (b AND NOT 1) OR (b AND 1)" by (simp add: bit.conj_disj_distrib [symmetric])
    then have "b = b AND 1" using z by simp
    moreover have "b AND 1 = 0 \<or> b AND 1 = 1" by (cases "even b") (simp_all add: and_one_eq even_iff_mod_2_eq_zero odd_iff_mod_2_eq_one)
    ultimately show "b = 0 \<or> b = 1" by metis
  qed auto
  then show ?thesis by (simp add: FLAG_COMPRESSED_def)
qed

lemma magic_bytes: "ORGN_MAGIC = [79, 82, 71, 78]"
  by code_simp

lemma header_split:
  assumes "48 \<le> length bs"
  shows "bs = take 4 bs @ [bs ! 4, bs ! 5, bs ! 6, bs ! 7] @ take 16 (drop 8 bs) @ take 24 (drop 24 bs) @ drop 48 bs"
proof -
  have one: "drop n bs = bs ! n # drop (Suc n) bs" if "n < 48" for n
    using that assms by (simp add: Cons_nth_drop_Suc)
  have more: "drop n bs = take k (drop n bs) @ drop (k + n) bs" for n k
    by (metis append_take_drop_id drop_drop)
  have "bs = take 4 bs @ drop 4 bs" by simp
  also have "drop 4 bs = [bs ! 4, bs ! 5, bs ! 6, bs ! 7] @ drop 8 bs"
    using one [of 4] one [of 5] one [of 6] one [of 7] by simp
  also have "drop 8 bs = take 16 (drop 8 bs) @ drop 24 bs" using more [of 8 16] by simp
  also have "drop 24 bs = take 24 (drop 24 bs) @ drop 48 bs" using more [of 24 24] by simp
  finally show ?thesis .
qed

text \<open>
  Reading an envelope accepts exactly the bytes that writing a well-formed envelope
  produces: no two byte strings are read as the same envelope, nothing is normalised or
  dropped, and every well-formed envelope is read back as it was.
\<close>

lemma envelope_bytes_exact_iff: "envelope_from_bytes bs = Inr e \<longleftrightarrow> envelope_wf e \<and> envelope_to_bytes e = bs"
proof
  assume l: "envelope_from_bytes bs = Inr e"
  then have len: "48 \<le> length bs" and mag: "take 4 bs = ORGN_MAGIC"
    by (auto simp: envelope_from_bytes_def HEADER_LEN_def split: if_splits)
  from l show "envelope_wf e \<and> envelope_to_bytes e = bs"
    using header_split [OF len] len mag
    by (auto simp: envelope_from_bytes_def envelope_wf_def envelope_to_bytes_def Let_def payload_byte_iff tier_byte_iff only_flag_iff
        split: if_splits sum.splits)
next
  assume r: "envelope_wf e \<and> envelope_to_bytes e = bs"
  obtain h p where e: "e = \<lparr>ev_header = h, ev_payload = p\<rparr>" by (cases e)
  from r e have bs: "bs = [79, 82, 71, 78, eh_version h, payload_to_byte (eh_payload_type h), eh_flags h, tier_to_byte (eh_tier h)]
      @ eh_salt h @ eh_nonce h @ p"
    by (auto simp: envelope_to_bytes_def Let_def magic_bytes)
  have "payload_from_byte (payload_to_byte t) = Inr t" "tier_from_byte (tier_to_byte m) = Inr m" for t m
    by (simp_all add: payload_byte_iff tier_byte_iff)
  then show "envelope_from_bytes bs = Inr e"
    using r e bs by (auto simp: envelope_from_bytes_def envelope_wf_def HEADER_LEN_def magic_bytes only_flag_iff Let_def)
qed

section \<open>Sealing and opening\<close>

lemma aad_is_header: "envelope_wf e \<Longrightarrow> compute_aad (ev_header e) = take HEADER_LEN (envelope_to_bytes e)"
  by (auto simp: compute_aad_def envelope_to_bytes_def envelope_wf_def HEADER_LEN_def magic_bytes Let_def)

lemma aad_inj:
  assumes "compute_aad h = compute_aad h'" and "length (eh_salt h) = length (eh_salt h')"
  shows "h = h'"
proof -
  have "payload_to_byte t = payload_to_byte t' \<longleftrightarrow> t = t'" for t t'
    by (metis payload_byte_iff sum.inject(2))
  moreover have "tier_to_byte m = tier_to_byte m' \<longleftrightarrow> m = m'" for m m'
    by (metis tier_byte_iff sum.inject(2))
  ultimately show ?thesis using assms by (cases h; cases h') (auto simp: compute_aad_def)
qed



definition example_sdk :: envelope_sdk where
  "example_sdk = \<lparr>
     es_seal = \<lambda>k n p a. if length a = 48 then Inr (a @ k @ p) else Inl ''header'',
     es_open = \<lambda>k n c a. if take (length a + length k) c = a @ k \<and> length a = 48 then Inr (drop (length a + length k) c) else Inl ''tag mismatch'',
     es_compress = \<lambda>p. Inr (rev p), es_decompress = \<lambda>z. Inr (rev z),
     es_random = \<lambda>i n. Inr (replicate n (of_nat i))\<rparr>"

lemma example_sdk_ok: "sdk_ok example_sdk" "sdk_binds example_sdk"
  by (auto simp: sdk_ok_def sdk_binds_def example_sdk_def)


end
