(* ===== verification/Spec2Isabelle.thy ===== *)
theory Spec2Isabelle
  imports Outcomes Reconcile Network_Duplex Network_Relay Common_Envelope
begin

text \<open>
  A verification library for two stacks of the repository. The payment stack: the payments
  ledger and its executor (\<open>src/origin-payments\<close>), the wallet with its native rail
  (\<open>src/origin-wallet\<close>), the audit log it reuses (\<open>src/origin-attest/src/audit.rs\<close>) and
  the Merkle mountain range both rely on (\<open>src/origin-proof/src/mmr.rs\<close>). The network
  stack: the encrypted channel (\<open>src/origin-channel\<close>), endpoints and relay on top of it
  (\<open>src/origin-network\<close>), and the files and envelopes that the tools share
  (\<open>src/origin-common\<close>).

  \<^bold>\<open>The program.\<close> A customer's order is recorded in an append-only store as a payment event
  with one order per payee. A pass of the executor opens the wallet, recovers orders that
  a crash left in \<open>EXECUTING\<close>, and sends every order that is due through policy (a cap per
  transaction, a compliance scorer) to one of four rails: the local native wallet, the
  x402 handshake over HTTP (directly or through a facilitator), a card processor, or a
  bank facilitator. A paid order is journaled in double entry, marked \<open>SUCCESS\<close>, its
  receipt is remembered against replays, and an audit entry is chained to the stream; an
  order that was not paid is retried with backoff, put aside for a person, or written to
  the dead-letter queue. Deferred authorizations are batched and checkpointed in the
  mountain range. Callbacks of a rail arrive at a webhook, and the settlement files of a
  provider are reconciled with the order log.

  An endpoint of the network dials a peer, runs a three-message handshake and proves its
  identity with a signed claim over the transcript; the responder refuses replayed
  handshakes. Both then exchange messages over a ratcheted session whose frames travel
  on a TCP stream. A relay limits the attempts of every source, keeps out evicted
  identities, pairs peers, and buffers frames for them within fixed caps.

  \<^bold>\<open>How code becomes definitions.\<close> A fallible operation is a state-and-error computation
  (\<open>se\<close> of \<open>Prelude\<close>): the state is the record of everything the process can change, it
  survives an error, and an error is either a value of the source's error enum or
  \<open>Panic\<close>. The clock, random bytes, faults of the file system and replies of the network
  are schedules in the record \<open>env\<close> (\<open>Environment\<close>), read through counters in the state;
  hashes, signatures, JSON and the like, which belong to crates outside the repository,
  are functions in the same record, and a theorem that relies on one of them says so in
  a hypothesis. A write that fails may do so at every single call. Files are lists of
  lines (\<open>world\<close> of \<open>Payment_Store\<close>). Integers are kept at their width (\<open>i128\<close>,
  \<open>mod 2 ^ 64\<close>) where the code can overflow.

  \<^bold>\<open>The theories.\<close>

    \<^item> \<open>Prelude\<close>, \<open>RustText\<close>: machine integers, the monad with its rules, the locales
      \<open>state_preorder\<close> (relations that every run keeps) and \<open>hash_chain\<close> (tamper evidence
      of chained logs), and the string functions of the standard library.
    \<^item> \<open>Payment_Errors\<close> (\<open>error.rs\<close>), \<open>Money\<close> (the decimal arithmetic of \<open>journal.rs\<close>):
      which strings are amounts, printing and parsing them.
    \<^item> \<open>Mmr\<close> (\<open>mmr.rs\<close>): append, root, membership proofs. The locale \<open>authenticated_log\<close>
      is the contract; every entry ever appended is provable, and a root binds its leaves.
    \<^item> \<open>Environment\<close>: the outside world and a concrete instance of it.
    \<^item> \<open>Wallet\<close> (\<open>wallet.rs\<close>, \<open>account.rs\<close>, \<open>address.rs\<close>, \<open>transaction.rs\<close>,
      \<open>native_rail.rs\<close>): balances, spend policy, transactions, persistence. The locale
      \<open>native_rail\<close> is the contract of a rail; money is conserved over every sequence of
      payments, the daily cap holds, payments are provable, saving and opening agree.
    \<^item> \<open>Orders\<close> (\<open>event.rs\<close>, \<open>rails.rs\<close>, \<open>identity.rs\<close>): orders and events, the status
      machine, what a signature covers.
    \<^item> \<open>Payment_Store\<close> (\<open>store.rs\<close>): all logs and files. The locale \<open>latest_wins\<close> is the
      contract of a log of snapshots, interpreted for orders, events and dead letters.
    \<^item> \<open>Journal\<close> (\<open>journal.rs\<close>): batches, conversions, nets; every accepted batch balances,
      the chain holds after every run.
    \<^item> \<open>Audit_Stream\<close> (\<open>audit.rs\<close> of both crates), \<open>Retry\<close> (\<open>retry.rs\<close>, \<open>compliance.rs\<close>),
      \<open>Http\<close> and \<open>X402\<close> (\<open>x402.rs\<close>), \<open>Card_Vault\<close> (\<open>vault.rs\<close>, \<open>card.rs\<close>), \<open>Checkpoints\<close>
      (\<open>proof.rs\<close>), \<open>Deferred\<close> (\<open>settle.rs\<close>).
    \<^item> \<open>Executor\<close> (\<open>executor.rs\<close>): every function of a pass.
    \<^item> \<open>Pass\<close>: the locales \<open>settle_rel\<close> and \<open>pass_rel\<close> say which steps a relation between
      states must survive so that every pass keeps it; interpreted for the journal chain,
      the audit chain and the growth of all logs. The step relation \<open>store_step\<close> closes
      them under arbitrary histories of passes, single operations and crashes.
    \<^item> \<open>Settlement\<close>, \<open>Lifecycle\<close>: policy comes before any rail; the order log of the
      executor refines the abstract machine \<open>lifecycle\<close>.
    \<^item> \<open>Progress\<close>, \<open>Outcomes\<close>: without file faults every pass returns and decides every
      waiting order; a receipt settles one order ever; what becomes of dead letters.

    \<^item> \<open>Webhook\<close> (\<open>webhook.rs\<close>): settlement callbacks from the bytes of a connection to the
      change of the order; a callback that is acted on was authenticated.
    \<^item> \<open>Reconcile\<close> (\<open>reconcile.rs\<close>): the comparison reports exactly the differences, and a
      stored run can be proved against its checkpoint.
    \<^item> \<open>Wire_Bytes\<close>: integers and chunks in byte strings, loops that overwrite a vector.
    \<^item> \<open>Common_Io\<close> (\<open>io.rs\<close>): a disk whose every operation may fail; a file is replaced whole or
      not at all. \<open>Common_Envelope\<close> (\<open>envelope.rs\<close>, \<open>tier_ext.rs\<close>, \<open>random.rs\<close>): what is sealed is
      opened again, and the header of a sealed envelope cannot be altered.
    \<^item> \<open>Channel_Wire\<close> (\<open>codec.rs\<close>, \<open>message.rs\<close>, \<open>negotiation.rs\<close>), \<open>Channel_Window\<close> (\<open>replay.rs\<close>,
      \<open>nonce_tracker.rs\<close>), \<open>Channel_Session\<close> (\<open>ratchet.rs\<close>, \<open>usage_limit.rs\<close>, \<open>session.rs\<close>),
      \<open>Channel_Handshake\<close> (\<open>dh.rs\<close>, \<open>handshake.rs\<close>): decoders invert encoders, the bitmap window
      equals a set, both sides derive one secret and stay in step. The locale
      \<open>replay_filter\<close> is the contract of replay protection, interpreted for the window and
      for the tracker of handshakes.
    \<^item> \<open>Network_Wire\<close> (\<open>wire.rs\<close>, \<open>transport.rs\<close>), \<open>Network_Payloads\<close> (\<open>wire.rs\<close>),
      \<open>Network_Identity\<close> (\<open>address.rs\<close>, \<open>identity.rs\<close>, \<open>replay.rs\<close>): frames survive however the
      stream is cut, payloads and addresses are read back, a claim fits one handshake,
      and a replay is refused also after a restart. \<open>Network_Instance\<close> is an executable
      environment that meets all laws.
    \<^item> \<open>Network_Endpoint\<close> (\<open>session.rs\<close>), \<open>Network_Duplex\<close>: dialling ends, a responder accepts only
      who signed this handshake, and two endpoints joined by a network that delivers in
      pieces receive exactly what the other one sent, in order. The step relation is
      \<open>duplex_step\<close>.
    \<^item> \<open>Network_Gate\<close> (\<open>gate.rs\<close>, and \<open>cookie.rs\<close> of \<open>origin-attest\<close>), \<open>Network_Relay\<close> (\<open>relay.rs\<close>):
      admitted handshakes are bounded by capacity and time; over every history of the
      step relation \<open>relay_step\<close> the relay stays within its caps and inboxes deliver at
      most once and in order; evictions survive a restart.

  \<^bold>\<open>Bounds and fuel.\<close> No definition needs fuel: the loops of the modelled code run over
  finite lists, and reading a reply consumes the list of segments the peer sends before
  it closes. The dial loop ends by its own count of attempts. Counters of the environment
  are natural numbers and stand for positions in an infinite schedule. The bound on the
  length of relay histories is the number of pair ids before they wrap; the bound on the
  period of the token bucket is the range in which its floating-point quotient is exact.

  \<^bold>\<open>Not modelled.\<close> The cryptographic crate, the serializers, TCP and TLS are parameters.
  The command lines print what the modelled operations return. Of \<open>src/origin-network\<close> the
  wire loop of the relay server, its client, NAT traversal and the UDP and QUIC transports
  are left out. The operations of the relay take one lock each; that a handler of the
  server takes several is covered by the arbitrary order of the steps. The other crates
  of the repository are listed in the manifest with the reason.
\<close>

end
